(* ===== verification/Prelude.thy ===== *)
theory Prelude
  imports Main "HOL-Library.Word"
begin

text \<open>
  Shared vocabulary of the development.

  A C++ function of the server either returns, throws an exception that some caller may
  catch, or runs into a fault that no \<open>catch\<close> sees: a failed \<open>assert\<close>, \<open>abort()\<close>, or an
  operation whose behaviour the C++ standard leaves undefined. The type \<open>outcome\<close> keeps the three
  apart, so that a \<open>try\<close> block of the source is a case distinction on \<open>Throw\<close> and every
  theorem "the code does not crash" is a statement that the outcome is no \<open>Fault\<close>.
\<close>

datatype exn =
    Runtime_error string
  | Logic_error string
  | Invalid_argument string
  | Out_of_range
  | Length_error
  | Ios_failure
  | Audio_source_error string
  | Av_error string
  | Av_library_error int
  | Filesystem_error string
  | Foreign_exception string

datatype fault =
    Assertion_failed
  | Aborted
  | Index_out_of_bounds
  | Division_by_zero
  | Invalid_conversion
  | Uninitialised_read
  | Null_dereference
  | Signed_overflow
  | Double_free

datatype 'a outcome = Ret 'a | Throw exn | Fault fault

named_theorems outcome_simps \<open>evaluation of sequenced outcomes\<close>

fun obind :: "'a outcome \<Rightarrow> ('a \<Rightarrow> 'b outcome) \<Rightarrow> 'b outcome" where
  "obind (Ret x) f = f x"
| "obind (Throw e) f = Throw e"
| "obind (Fault b) f = Fault b"

fun omap :: "('a \<Rightarrow> 'b) \<Rightarrow> 'a outcome \<Rightarrow> 'b outcome" where
  "omap f (Ret x) = Ret (f x)"
| "omap f (Throw e) = Throw e"
| "omap f (Fault b) = Fault b"

fun otraverse :: "('a \<Rightarrow> 'b outcome) \<Rightarrow> 'a list \<Rightarrow> 'b list outcome" where
  "otraverse f [] = Ret []"
| "otraverse f (x # xs) = obind (f x) (\<lambda>y. omap ((#) y) (otraverse f xs))"

definition no_fault :: "'a outcome \<Rightarrow> bool" where
  "no_fault r = (case r of Fault _ \<Rightarrow> False | _ \<Rightarrow> True)"

lemma no_fault_simps [simp]:
  "no_fault (Ret x)" "no_fault (Throw e)" "\<not> no_fault (Fault b)"
  by (simp_all add: no_fault_def)

lemma obind_Ret_iff [outcome_simps]:
  "obind m f = Ret y \<longleftrightarrow> (\<exists>x. m = Ret x \<and> f x = Ret y)"
  by (cases m) auto

lemma obind_Throw_iff [outcome_simps]:
  "obind m f = Throw e \<longleftrightarrow> m = Throw e \<or> (\<exists>x. m = Ret x \<and> f x = Throw e)"
  by (cases m) auto

lemma obind_Fault_iff [outcome_simps]:
  "obind m f = Fault b \<longleftrightarrow> m = Fault b \<or> (\<exists>x. m = Ret x \<and> f x = Fault b)"
  by (cases m) auto

lemma omap_Ret_iff [outcome_simps]: "omap f m = Ret y \<longleftrightarrow> (\<exists>x. m = Ret x \<and> y = f x)"
  by (cases m) auto

lemma omap_Throw_iff [outcome_simps]: "omap f m = Throw e \<longleftrightarrow> m = Throw e"
  by (cases m) auto

lemma omap_Fault_iff [outcome_simps]: "omap f m = Fault b \<longleftrightarrow> m = Fault b"
  by (cases m) auto

lemma omap_comp: "omap f (omap g m) = omap (\<lambda>x. f (g x)) m"
  by (cases m) simp_all

lemma omap_obind: "omap f (obind m k) = obind m (\<lambda>x. omap f (k x))"
  by (cases m) simp_all

lemma obind_omap: "obind (omap f m) k = obind m (\<lambda>x. k (f x))"
  by (cases m) simp_all

lemma no_fault_omap [simp]: "no_fault (omap f m) = no_fault m"
  by (cases m) simp_all

lemma otraverse_Ret:
  "(\<And>x. x \<in> set xs \<Longrightarrow> f x = Ret (g x)) \<Longrightarrow> otraverse f xs = Ret (map g xs)"
  by (induction xs) auto

lemma otraverse_length: "otraverse f xs = Ret ys \<Longrightarrow> length ys = length xs"
  by (induction xs arbitrary: ys) (auto simp: outcome_simps)

section \<open>Containers of the C++ standard library\<close>

text \<open>
  \<open>at_vec\<close> is \<open>std::vector::at\<close> (an index out of range throws \<open>std::out_of_range\<close>);
  \<open>idx_vec\<close> is \<open>operator[]\<close>, undefined out of range; \<open>front_vec\<close> and \<open>back_vec\<close> are
  undefined on an empty vector.
\<close>

definition at_vec :: "'a list \<Rightarrow> nat \<Rightarrow> 'a outcome" where
  "at_vec xs i = (if i < length xs then Ret (xs ! i) else Throw Out_of_range)"

definition idx_vec :: "'a list \<Rightarrow> nat \<Rightarrow> 'a outcome" where
  "idx_vec xs i = (if i < length xs then Ret (xs ! i) else Fault Index_out_of_bounds)"

definition back_vec :: "'a list \<Rightarrow> 'a outcome" where
  "back_vec xs = (if xs = [] then Fault Index_out_of_bounds else Ret (last xs))"

definition at_map :: "('k \<rightharpoonup> 'v) \<Rightarrow> 'k \<Rightarrow> 'v outcome" where
  "at_map m k = (case m k of None \<Rightarrow> Throw Out_of_range | Some v \<Rightarrow> Ret v)"

lemma at_Ret_iff [outcome_simps]:
  "at_map m k = Ret v \<longleftrightarrow> m k = Some v"
  "at_vec xs i = Ret v' \<longleftrightarrow> i < length xs \<and> v' = xs ! i"
  "idx_vec xs i = Ret v' \<longleftrightarrow> i < length xs \<and> v' = xs ! i"
  by (auto simp: at_map_def at_vec_def idx_vec_def split: option.split)

section \<open>Integers\<close>

text \<open>C++ division and remainder of signed integers truncate towards zero.\<close>

definition cdiv :: "int \<Rightarrow> int \<Rightarrow> int" where
  "cdiv a b = sgn a * sgn b * (\<bar>a\<bar> div \<bar>b\<bar>)"

definition cmod :: "int \<Rightarrow> int \<Rightarrow> int" where
  "cmod a b = a - b * cdiv a b"

lemma cdiv_nonneg: "0 \<le> a \<Longrightarrow> 0 < b \<Longrightarrow> cdiv a b = a div b"
  by (cases "a = 0") (auto simp: cdiv_def)

lemma cmod_nonneg: "0 \<le> a \<Longrightarrow> 0 < b \<Longrightarrow> cmod a b = a mod b"
  by (simp add: cmod_def cdiv_nonneg minus_mult_div_eq_mod)

lemma cdiv_cmod: "b * cdiv a b + cmod a b = a"
  by (simp add: cmod_def)

definition int32_range :: "int \<Rightarrow> bool" where
  "int32_range x \<longleftrightarrow> - (2 ^ 31) \<le> x \<and> x < 2 ^ 31"

text \<open>Conversion to a 32-bit \<open>int\<close> and to a \<open>size_t\<close> reduces modulo the width.\<close>

definition to_int32 :: "int \<Rightarrow> int" where
  "to_int32 x = sint (word_of_int x :: 32 word)"

definition to_size :: "int \<Rightarrow> int" where
  "to_size x = x mod 2 ^ 64"

lemma to_int32_id: "int32_range x \<Longrightarrow> to_int32 x = x"
  by (simp add: to_int32_def int32_range_def sint_sbintrunc' signed_take_bit_int_eq_self)

lemma to_size_nonneg: "0 \<le> x \<Longrightarrow> x < 2 ^ 64 \<Longrightarrow> to_size x = x"
  by (simp add: to_size_def)

section \<open>Lists\<close>

lemma take_drop_chunk: "take n (drop i xs) @ drop (i + n) xs = drop i xs"
  by (metis add.commute append_take_drop_id drop_drop)

lemma concat_map_singleton [simp]: "concat (map (\<lambda>x. [x]) xs) = xs"
  by (induction xs) simp_all

section \<open>Transition systems\<close>

text \<open>
  A component that many threads or calls drive is a start predicate and a step relation; its
  reachable states are the least set closed under the steps. The locale is the contract of an
  invariant: it holds at the start and every step keeps it.
\<close>

inductive reach :: "('s \<Rightarrow> bool) \<Rightarrow> ('s \<Rightarrow> 's \<Rightarrow> bool) \<Rightarrow> 's \<Rightarrow> bool"
  for start step where
  reach_start: "start s \<Longrightarrow> reach start step s"
| reach_step: "reach start step s \<Longrightarrow> step s t \<Longrightarrow> reach start step t"

locale stable_invariant =
  fixes start :: "'s \<Rightarrow> bool" and step :: "'s \<Rightarrow> 's \<Rightarrow> bool" and inv :: "'s \<Rightarrow> bool"
  assumes at_start: "start s \<Longrightarrow> inv s"
    and kept: "inv s \<Longrightarrow> step s t \<Longrightarrow> inv t"
begin

lemma always: "reach start step s \<Longrightarrow> inv s"
  by (induction rule: reach.induct) (auto intro: at_start kept)

lemma along: "step\<^sup>*\<^sup>* s t \<Longrightarrow> inv s \<Longrightarrow> inv t"
  by (induction rule: rtranclp_induct) (auto intro: kept)

end

end
