(* ===== verification/Text_Utils.thy ===== *)
theory Text_Utils
  imports Prelude
begin

text \<open>
  The string and file helpers of \<open>src/base.cc\<close> and \<open>src/utils.cc\<close>. A \<open>std::string\<close> is a list of
  characters (bytes). \<open>Split\<close> and \<open>Join\<close> are modelled with the loops of the source; the lemmas
  show that they are inverse to each other. The two file readers take the contents of
  the file (\<open>None\<close> when it cannot be opened) and keep the 64-bit wrap-around of the size
  computation.
\<close>

section \<open>Splitting and joining\<close>

text \<open>
  \<open>find_char c s pos\<close> is \<open>std::string_view::find(c, pos)\<close>: the least index from \<open>pos\<close> on that
  holds \<open>c\<close>, \<open>None\<close> for \<open>npos\<close>. \<open>substr s pos n\<close> is \<open>substr(pos, n)\<close> with \<open>pos \<le> size\<close>.
\<close>

fun index_of :: "'a \<Rightarrow> 'a list \<Rightarrow> nat option" where
  "index_of c [] = None"
| "index_of c (x # xs) = (if x = c then Some 0 else map_option Suc (index_of c xs))"

definition find_char :: "'a \<Rightarrow> 'a list \<Rightarrow> nat \<Rightarrow> nat option" where
  "find_char c s pos = map_option (\<lambda>i. pos + i) (index_of c (drop pos s))"

definition substr :: "'a list \<Rightarrow> nat \<Rightarrow> nat \<Rightarrow> 'a list" where
  "substr s pos n = take n (drop pos s)"

lemma index_of_Some: "index_of c xs = Some i \<longleftrightarrow> i < length xs \<and> xs ! i = c \<and> c \<notin> set (take i xs)"
proof (induction xs arbitrary: i)
  case Nil
  then show ?case by simp
next
  case (Cons x xs)
  then show ?case by (cases i) auto
qed

lemma index_of_None: "index_of c xs = None \<longleftrightarrow> c \<notin> set xs"
  by (induction xs) auto

lemma index_of_append: "c \<notin> set xs \<Longrightarrow> index_of c (xs @ c # ys) = Some (length xs)"
  by (induction xs) auto

lemma find_char_Some: "find_char c s pos = Some q \<Longrightarrow> pos \<le> q \<and> q < length s"
  by (auto simp: find_char_def index_of_Some)

function split_from :: "'a \<Rightarrow> 'a list \<Rightarrow> nat \<Rightarrow> 'a list list" where
  "split_from c s pos =
     (case find_char c s pos of
        Some new_pos \<Rightarrow> substr s pos (new_pos - pos) # split_from c s (new_pos + 1)
      | None \<Rightarrow> [drop pos s])"
  by pat_completeness auto
termination
  by (relation "measure (\<lambda>(c, s, pos). length s - pos)") (auto dest: find_char_Some)

declare split_from.simps [simp del]

definition Split :: "'a list \<Rightarrow> 'a \<Rightarrow> 'a list list" where
  "Split to_split c = split_from c to_split 0"

text \<open>
  \<open>Join\<close> appends the delimiter after every element but the last.
\<close>

fun Join :: "'a list list \<Rightarrow> 'a list \<Rightarrow> 'a list" where
  "Join [] delim = []"
| "Join [w] delim = w"
| "Join (w # v # vs) delim = w @ delim @ Join (v # vs) delim"

lemma Join_Cons: "vs \<noteq> [] \<Longrightarrow> Join (w # vs) delim = w @ delim @ Join vs delim"
  by (cases vs) auto

lemma split_from_nonempty [simp]: "split_from c s pos \<noteq> []"
  by (subst split_from.simps) (simp split: option.split)

text \<open>The loop only looks at what is left of the string.\<close>

lemma find_char_shift:
  "find_char c (pre @ t) (length pre + k) = map_option (\<lambda>i. length pre + i) (find_char c t k)"
  by (simp add: find_char_def option.map_comp comp_def add.assoc)

lemma split_from_shift: "split_from c (pre @ t) (length pre + k) = split_from c t k"
proof (induction c t k rule: split_from.induct)
  case (1 c t k)
  show ?case
  proof (cases "find_char c t k")
    case None
    then show ?thesis
      by (simp add: split_from.simps [of c "pre @ t"] split_from.simps [of c t] find_char_shift)
  next
    case (Some q)
    with 1 have "split_from c (pre @ t) (length pre + (q + 1)) = split_from c t (q + 1)"
      by blast
    with Some show ?thesis
      by (simp add: split_from.simps [of c "pre @ t" "length pre + k"] split_from.simps [of c t k]
          find_char_shift substr_def)
  qed
qed

lemma Split_no_sep: "c \<notin> set w \<Longrightarrow> Split w c = [w]"
  by (simp add: Split_def split_from.simps [of c w] find_char_def index_of_None [THEN iffD2])

lemma Split_sep: "c \<notin> set w \<Longrightarrow> Split (w @ c # t) c = w # Split t c"
proof -
  assume w: "c \<notin> set w"
  have "split_from c ((w @ [c]) @ t) (length (w @ [c]) + 0) = split_from c t 0"
    by (rule split_from_shift)
  with w show ?thesis
    by (simp add: Split_def split_from.simps [of c "w @ c # t" 0] find_char_def index_of_append
        substr_def)
qed

lemma Split_nonempty [simp]: "Split s c \<noteq> []"
  by (simp add: Split_def)

text \<open>Every string is a first word without the separator, alone or followed by it.\<close>

lemma first_word_cases:
  obtains (last) "c \<notin> set s" | (sep) w t where "c \<notin> set w" "s = w @ c # t"
  by (metis split_list_first)

lemma Split_pieces: "w \<in> set (Split s c) \<Longrightarrow> c \<notin> set w"
proof (induction s rule: length_induct)
  case (1 s)
  show ?case
  proof (cases rule: first_word_cases [of c s])
    case last
    with 1 show ?thesis by (simp add: Split_no_sep)
  next
    case (sep v t)
    with 1 show ?thesis by (auto simp: Split_sep)
  qed
qed

text \<open>
  Splitting a string at a character and joining the pieces with that character
  gives the string back.
\<close>

theorem Join_Split: "Join (Split s c) [c] = s"
proof (induction s rule: length_induct)
  case (1 s)
  show ?case
  proof (cases rule: first_word_cases [of c s])
    case last
    then show ?thesis by (simp add: Split_no_sep)
  next
    case (sep v t)
    with 1 show ?thesis by (simp add: Split_sep Join_Cons)
  qed
qed

text \<open>
  Joining a non-empty sequence of words with a separator that occurs in none of them,
  and splitting the result, gives the words back.
\<close>

theorem Split_Join:
  assumes "ws \<noteq> []" and "\<forall>w \<in> set ws. c \<notin> set w"
  shows "Split (Join ws [c]) c = ws"
  using assms
proof (induction ws)
  case Nil
  then show ?case by simp
next
  case (Cons w ws)
  then show ?case by (cases "ws = []") (simp_all add: Split_no_sep Split_sep Join_Cons)
qed

theorem Split_Join_witness:
  "Split (Join [''models/is'', ''models/en''] [CHR 0x2C]) (CHR 0x2C) = [''models/is'', ''models/en'']"
  by (rule Split_Join) simp_all

section \<open>File readers\<close>

text \<open>
  \<open>max_size\<close> is \<open>std::string::max_size()\<close>, above which the constructor throws
  \<open>std::length_error\<close>. The size of a file is converted to \<open>std::size_t\<close> and the 44 header
  bytes are subtracted modulo \<open>2 ^ 64\<close>, so a file shorter than a header asks for an enormous
  string. A file that cannot be opened throws \<open>runtime_error\<close> here, and
  \<open>std::ios_base::failure\<close> in \<open>GetFileContents\<close>, where \<open>exceptions(failbit)\<close> finds the bit set.
\<close>

definition max_size :: nat where
  "max_size = 2 ^ 63 - 1"

definition ReadWaveFile :: "string option \<Rightarrow> string outcome" where
  "ReadWaveFile file =
     (case file of
        None \<Rightarrow> Throw (Runtime_error ''Couldn't open file.'')
      | Some contents \<Rightarrow>
          let size = (of_nat (length contents) :: 64 word) - 44 in
          if max_size < unat size then Throw Length_error
          else Ret (take (unat size) (drop 44 contents)))"

definition GetFileContents :: "string option \<Rightarrow> string outcome" where
  "GetFileContents file =
     (case file of
        None \<Rightarrow> Throw Ios_failure
      | Some contents \<Rightarrow> Ret contents)"

lemma ReadWaveFile_long:
  assumes "44 \<le> length f" and "length f < 2 ^ 63"
  shows "ReadWaveFile (Some f) = Ret (drop 44 f)"
proof -
  have "unat ((of_nat (length f) :: 64 word) - 44) = length f - 44"
    using assms by (subst unat_sub) (simp_all add: unat_of_nat word_le_nat_alt)
  with assms show ?thesis by (simp add: ReadWaveFile_def Let_def max_size_def)
qed

lemma ReadWaveFile_short:
  assumes "length f < 44"
  shows "ReadWaveFile (Some f) = Throw Length_error"
proof -
  let ?n = "of_nat (length f) :: 64 word"
  have n: "unat ?n = length f" using assms by (simp add: unat_of_nat)
  have "?n < 44" using assms n by (simp add: word_less_nat_alt)
  then have "unat (?n - 44) = 2 ^ 64 + length f - 44"
    using n assms by (simp add: unat_sub_if_size word_size word_le_nat_alt)
  with assms show ?thesis by (simp add: ReadWaveFile_def Let_def max_size_def)
qed

end
