(* ===== verification/Thread_Queue.thy ===== *)
theory Thread_Queue
  imports Prelude
begin

text \<open>
  \<open>ThreadSafeQueue\<close> of \<open>src/queue.h\<close> and \<open>src/queue-inl.h\<close>: a \<open>std::queue\<close>, a mutex and a condition
  variable, used by any number of threads. A thread is in one of the program points of \<open>push\<close>
  or \<open>blocking_pop\<close>; a step is one thread taking the mutex, changing the queue inside it, waiting
  or notifying. \<open>pushed\<close> and \<open>popped\<close> record the history, which the code does not keep.
\<close>

datatype 'a point =
    Outside
  | Push_called 'a
  | Push_locked 'a
  | Push_notify
  | Pop_called
  | Pop_locked
  | Pop_waiting
  | Pop_woken

record 'a tsq =
  queue_items :: "'a list"
  mutex_owner :: "nat option"
  thread_at :: "nat \<Rightarrow> 'a point"
  pushed :: "'a list"
  popped :: "'a list"

definition tsq_init :: "'a tsq \<Rightarrow> bool" where
  "tsq_init s \<longleftrightarrow> s = \<lparr>queue_items = [], mutex_owner = None, thread_at = (\<lambda>_. Outside),
     pushed = [], popped = []\<rparr>"

definition goto :: "nat \<Rightarrow> 'a point \<Rightarrow> 'a tsq \<Rightarrow> 'a tsq" where
  "goto t p s = s\<lparr>thread_at := (thread_at s)(t := p)\<rparr>"

text \<open>
  \<open>push\<close> appends inside the \<open>lock_guard\<close> scope and notifies one waiter after it. \<open>blocking_pop\<close>
  takes the lock, evaluates the predicate of \<open>cv_.wait\<close>, and either waits (releasing the mutex
  atomically) or moves the front element out; a waiter is woken by a notification or spuriously
  and takes the mutex again before it looks at the queue.
\<close>

inductive tsq_step :: "'a tsq \<Rightarrow> 'a tsq \<Rightarrow> bool" where
  call_push: "thread_at s t = Outside \<Longrightarrow> tsq_step s (goto t (Push_called v) s)"
| lock_push: "thread_at s t = Push_called v \<Longrightarrow> mutex_owner s = None \<Longrightarrow>
    tsq_step s (goto t (Push_locked v) (s\<lparr>mutex_owner := Some t\<rparr>))"
| do_push: "thread_at s t = Push_locked v \<Longrightarrow>
    tsq_step s (goto t Push_notify
      (s\<lparr>queue_items := queue_items s @ [v], pushed := pushed s @ [v], mutex_owner := None\<rparr>))"
| notify_one: "thread_at s t = Push_notify \<Longrightarrow> thread_at s w = Pop_waiting \<Longrightarrow>
    tsq_step s (goto t Outside (goto w Pop_woken s))"
| notify_nobody: "thread_at s t = Push_notify \<Longrightarrow> \<forall>w. thread_at s w \<noteq> Pop_waiting \<Longrightarrow>
    tsq_step s (goto t Outside s)"
| call_pop: "thread_at s t = Outside \<Longrightarrow> tsq_step s (goto t Pop_called s)"
| lock_pop: "thread_at s t = Pop_called \<or> thread_at s t = Pop_woken \<Longrightarrow> mutex_owner s = None \<Longrightarrow>
    tsq_step s (goto t Pop_locked (s\<lparr>mutex_owner := Some t\<rparr>))"
| do_wait: "thread_at s t = Pop_locked \<Longrightarrow> queue_items s = [] \<Longrightarrow>
    tsq_step s (goto t Pop_waiting (s\<lparr>mutex_owner := None\<rparr>))"
| spurious: "thread_at s t = Pop_waiting \<Longrightarrow> tsq_step s (goto t Pop_woken s)"
| do_pop: "thread_at s t = Pop_locked \<Longrightarrow> queue_items s = v # rest \<Longrightarrow>
    tsq_step s (goto t Outside
      (s\<lparr>queue_items := rest, popped := popped s @ [v], mutex_owner := None\<rparr>))"

lemma goto_sel [simp]:
  "queue_items (goto t p s) = queue_items s" "mutex_owner (goto t p s) = mutex_owner s"
  "pushed (goto t p s) = pushed s" "popped (goto t p s) = popped s"
  "thread_at (goto t p s) = (thread_at s)(t := p)"
  by (simp_all add: goto_def)

section \<open>Mutual exclusion and order\<close>

definition inside :: "'a point \<Rightarrow> bool" where
  "inside p = (case p of Push_locked _ \<Rightarrow> True | Pop_locked \<Rightarrow> True | _ \<Rightarrow> False)"

definition mutex_inv :: "'a tsq \<Rightarrow> bool" where
  "mutex_inv s \<longleftrightarrow> (\<forall>t. inside (thread_at s t) \<longleftrightarrow> mutex_owner s = Some t)"

definition history_inv :: "'a tsq \<Rightarrow> bool" where
  "history_inv s \<longleftrightarrow> pushed s = popped s @ queue_items s"

lemma inside_simps [simp]:
  "\<not> inside Outside" "\<not> inside (Push_called v)" "inside (Push_locked v)" "\<not> inside Push_notify"
  "\<not> inside Pop_called" "inside Pop_locked" "\<not> inside Pop_waiting" "\<not> inside Pop_woken"
  by (simp_all add: inside_def)

lemma mutex_inv_step: "tsq_step s u \<Longrightarrow> mutex_inv s \<Longrightarrow> mutex_inv u"
  by (induction rule: tsq_step.induct) (auto simp: mutex_inv_def; metis inside_simps option.inject)+

lemma mutex_inv_init: "tsq_init s \<Longrightarrow> mutex_inv s"
  by (simp add: tsq_init_def mutex_inv_def)

interpretation mutex: stable_invariant tsq_init tsq_step mutex_inv
  by unfold_locales (auto intro: mutex_inv_init mutex_inv_step)

lemma history_inv_init: "tsq_init s \<Longrightarrow> history_inv s"
  by (simp add: tsq_init_def history_inv_def)

lemma history_inv_step: "tsq_step s u \<Longrightarrow> history_inv s \<Longrightarrow> history_inv u"
  by (induction rule: tsq_step.induct) (auto simp: history_inv_def)

interpretation history: stable_invariant tsq_init tsq_step history_inv
  by unfold_locales (auto intro: history_inv_init history_inv_step)

section \<open>No lost wake-up\<close>

text \<open>
  \<open>busy\<close> are the threads that will look at the queue or wake a sleeper without waiting for
  anybody: a pusher about to notify, a consumer that was woken or holds the mutex. Whenever a
  consumer sleeps there is a busy thread for every queued element, so no element is left
  behind next to a sleeping consumer.
\<close>

definition busy :: "'a tsq \<Rightarrow> nat set" where
  "busy s = {t. thread_at s t = Push_notify \<or> thread_at s t = Pop_woken \<or> thread_at s t = Pop_locked}"

definition active :: "'a tsq \<Rightarrow> nat set" where
  "active s = {t. thread_at s t \<noteq> Outside}"

definition wakeup_inv :: "'a tsq \<Rightarrow> bool" where
  "wakeup_inv s \<longleftrightarrow> finite (active s) \<and>
     ((\<exists>w. thread_at s w = Pop_waiting) \<longrightarrow> length (queue_items s) \<le> card (busy s))"

lemma active_goto: "active (goto t p s) = (if p = Outside then active s - {t} else insert t (active s))"
  by (auto simp: active_def)

lemma busy_goto:
  "busy (goto t p s) =
     (if p = Push_notify \<or> p = Pop_woken \<or> p = Pop_locked then insert t (busy s) else busy s - {t})"
  by (auto simp: busy_def)

lemma busy_finite: "finite (active s) \<Longrightarrow> finite (busy s)"
  by (rule finite_subset [of _ "active s"]) (auto simp: active_def busy_def)

lemma active_update [simp]:
  "active (mutex_owner_update f s) = active s" "active (queue_items_update g s) = active s"
  "active (pushed_update g s) = active s" "active (popped_update g s) = active s"
  "busy (mutex_owner_update f s) = busy s" "busy (queue_items_update g s) = busy s"
  "busy (pushed_update g s) = busy s" "busy (popped_update g s) = busy s"
  by (simp_all add: active_def busy_def)

lemma busy_iff: "t \<in> busy s \<longleftrightarrow>
    thread_at s t = Push_notify \<or> thread_at s t = Pop_woken \<or> thread_at s t = Pop_locked"
  by (simp add: busy_def)

lemma wakeup_inv_init: "tsq_init s \<Longrightarrow> wakeup_inv s"
  by (simp add: tsq_init_def wakeup_inv_def active_def)

lemma wakeup_inv_step: "tsq_step s u \<Longrightarrow> wakeup_inv s \<Longrightarrow> wakeup_inv u"
proof (induction rule: tsq_step.induct)
  case (notify_one s t w)
  then have f: "finite (busy s)" and t: "t \<in> busy s" and w: "w \<notin> busy s" and tw: "t \<noteq> w"
    by (auto simp: wakeup_inv_def busy_finite busy_iff)
  then have "card (busy (goto t Outside (goto w Pop_woken s))) = card (busy s)"
    by (simp add: busy_goto card_Diff_singleton insert_Diff_if) (metis Suc_pred card_gt_0_iff empty_iff)
  with notify_one show ?case by (auto simp: wakeup_inv_def active_goto)
next
  case (do_push s t v)
  then have "finite (busy s)" "t \<notin> busy s" by (auto simp: wakeup_inv_def busy_finite busy_iff)
  with do_push show ?case by (auto simp: wakeup_inv_def active_goto busy_goto split: if_splits)
next
  case (do_pop s t v rest)
  then have "finite (busy s)" "t \<in> busy s" by (auto simp: wakeup_inv_def busy_finite busy_iff)
  with do_pop show ?case by (auto simp: wakeup_inv_def active_goto busy_goto split: if_splits)
next
  case (lock_pop s t)
  then have "finite (busy s)" by (simp add: wakeup_inv_def busy_finite)
  with lock_pop show ?case
    by (auto simp: wakeup_inv_def active_goto busy_goto card_insert_if split: if_splits)
next
  case (spurious s t)
  then have "finite (busy s)" by (simp add: wakeup_inv_def busy_finite)
  with spurious show ?case
    by (auto simp: wakeup_inv_def active_goto busy_goto card_insert_if split: if_splits)
qed (auto simp: wakeup_inv_def active_goto busy_goto busy_iff split: if_splits)

interpretation wakeup: stable_invariant tsq_init tsq_step wakeup_inv
  by unfold_locales (auto intro: wakeup_inv_init wakeup_inv_step)

section \<open>Properties\<close>

text \<open>A run used by the witnesses: consumer 0 goes to sleep, producer 1 pushes one element.\<close>

definition sleeping_consumer :: "nat tsq" where
  "sleeping_consumer = \<lparr>queue_items = [7], mutex_owner = None,
     thread_at = (\<lambda>_. Outside)(0 := Pop_waiting, 1 := Push_notify), pushed = [7], popped = []\<rparr>"

lemma sleeping_consumer_reachable: "reach tsq_init tsq_step sleeping_consumer"
proof -
  let ?s0 = "\<lparr>queue_items = [], mutex_owner = None, thread_at = (\<lambda>_. Outside),
     pushed = [], popped = []\<rparr> :: nat tsq"
  let ?s1 = "goto 0 Pop_called ?s0"
  let ?s2 = "goto 0 Pop_locked (?s1\<lparr>mutex_owner := Some 0\<rparr>)"
  let ?s3 = "goto 0 Pop_waiting (?s2\<lparr>mutex_owner := None\<rparr>)"
  let ?s4 = "goto 1 (Push_called 7) ?s3"
  let ?s5 = "goto 1 (Push_locked 7) (?s4\<lparr>mutex_owner := Some 1\<rparr>)"
  let ?s6 = "goto 1 Push_notify (?s5\<lparr>queue_items := queue_items ?s5 @ [7],
    pushed := pushed ?s5 @ [7], mutex_owner := None\<rparr>)"
  have "reach tsq_init tsq_step ?s0" by (rule reach_start) (simp add: tsq_init_def)
  then have "reach tsq_init tsq_step ?s1" by (rule reach_step) (rule call_pop, simp)
  then have "reach tsq_init tsq_step ?s2" by (rule reach_step) (rule lock_pop, simp_all)
  then have "reach tsq_init tsq_step ?s3" by (rule reach_step) (rule do_wait, simp_all)
  then have "reach tsq_init tsq_step ?s4" by (rule reach_step) (rule call_push, simp)
  then have "reach tsq_init tsq_step ?s5" by (rule reach_step) (rule lock_push, simp_all)
  then have "reach tsq_init tsq_step ?s6" by (rule reach_step) (rule do_push, simp)
  moreover have "?s6 = sleeping_consumer"
    by (simp add: sleeping_consumer_def goto_def fun_eq_iff)
  ultimately show ?thesis by simp
qed

text \<open>
  C12. In every reachable state of the queue the elements pushed so far are exactly the elements
  popped so far, in the order they were popped, followed by what is still queued: the queue is
  first-in first-out, loses nothing and delivers nothing twice, whatever the interleaving. And at
  most one thread is inside a critical section.
\<close>

theorem queue_fifo_exclusive:
  assumes "reach tsq_init tsq_step s"
  shows "pushed s = popped s @ queue_items s \<and>
    (inside (thread_at s t) \<and> inside (thread_at s u) \<longrightarrow> t = u)"
  using history.always [OF assms] mutex.always [OF assms]
  by (auto simp: history_inv_def mutex_inv_def)

theorem queue_fifo_exclusive_witness:
  "pushed sleeping_consumer = popped sleeping_consumer @ queue_items sleeping_consumer"
  using queue_fifo_exclusive [OF sleeping_consumer_reachable] by blast

text \<open>
  C13. No wake-up is lost: whenever some consumer sleeps in \<open>cv_.wait\<close>, there are at least as many
  threads that are about to notify, were woken, or are looking at the queue as there are queued
  elements.
\<close>

theorem queue_no_lost_wakeup:
  assumes "reach tsq_init tsq_step s" and "thread_at s w = Pop_waiting"
  shows "length (queue_items s) \<le> card (busy s)"
  using wakeup.always [OF assms(1)] assms(2) by (auto simp: wakeup_inv_def)

theorem queue_no_lost_wakeup_witness:
  "thread_at sleeping_consumer 0 = Pop_waiting \<and> queue_items sleeping_consumer = [7] \<and>
   1 \<le> card (busy sleeping_consumer)"
  using queue_no_lost_wakeup [OF sleeping_consumer_reachable, of 0]
  by (simp add: sleeping_consumer_def)

end
