(* ===== verification/Speech_Messages.thy ===== *)
theory Speech_Messages
  imports Prelude
begin

unbundle bit_operations_syntax

text \<open>
  The messages of \<open>proto/tiro/speech/v1alpha/speech.proto\<close> that the server reads and writes, as the
  generated C++ classes present them: a message field is an \<open>option\<close> (the \<open>has_\<close> method), its
  getter gives a default message when it is absent, a \<open>oneof\<close> is a datatype, and an enum is open
  (proto3 keeps unknown numbers). Fields the server never looks at are left out.
\<close>

datatype proto_encoding =
    ENCODING_UNSPECIFIED
  | LINEAR16
  | FLAC
  | MP3
  | Unknown_encoding int

record diarization_config =
  enable_speaker_diarization :: bool
  min_speaker_count :: int

record recognition_config =
  encoding :: proto_encoding
  sample_rate_hertz :: int
  language_code :: string
  max_alternatives :: int
  enable_word_time_offsets :: bool
  enable_automatic_punctuation :: bool
  diarization_config :: diarization_config

definition default_config :: recognition_config where
  "default_config = \<lparr>encoding = ENCODING_UNSPECIFIED, sample_rate_hertz = 0, language_code = [],
     max_alternatives = 0, enable_word_time_offsets = False, enable_automatic_punctuation = False,
     diarization_config = \<lparr>enable_speaker_diarization = False, min_speaker_count = 0\<rparr>\<rparr>"

datatype recognition_audio = AUDIO_SOURCE_NOT_SET | Content string | Uri string

record recognize_request =
  request_config :: "recognition_config option"
  request_audio :: "recognition_audio option"

record streaming_config =
  streaming_recognition_config :: "recognition_config option"
  single_utterance :: bool
  interim_results :: bool

datatype streaming_request =
    STREAMING_REQUEST_NOT_SET
  | Streaming_config streaming_config
  | Audio_content string

text \<open>The getters: a default message, or the empty string, when the field is not set.\<close>

definition get_config :: "recognition_config option \<Rightarrow> recognition_config" where
  "get_config c = (case c of None \<Rightarrow> default_config | Some c \<Rightarrow> c)"

fun audio_content :: "streaming_request \<Rightarrow> string" where
  "audio_content (Audio_content bytes) = bytes"
| "audio_content _ = []"

lemma get_config_simps [simp]: "get_config None = default_config" "get_config (Some c) = c"
  by (simp_all add: get_config_def)

section \<open>Responses\<close>

record duration =
  seconds :: int
  nanos :: int

record word_info =
  word :: string
  start_time :: duration
  end_time :: duration
  speaker_tag :: int

record alternative =
  transcript :: string
  words :: "word_info list"

record streaming_result =
  alternatives :: "alternative list"
  is_final :: bool

datatype speech_event = SPEECH_EVENT_UNSPECIFIED | END_OF_SINGLE_UTTERANCE

record streaming_response =
  results :: "streaming_result list"
  speech_event_type :: speech_event

definition empty_response :: streaming_response where
  "empty_response = \<lparr>results = [], speech_event_type = SPEECH_EVENT_UNSPECIFIED\<rparr>"

section \<open>Statuses\<close>

text \<open>
  A \<open>grpc::Status\<close>: its code, its message and the error details. The details are the field
  violations of the \<open>BadRequest\<close> that the server serialises into the status.
\<close>

datatype status_code = OK | CANCELLED | INVALID_ARGUMENT | INTERNAL

record status =
  code :: status_code
  message :: string
  violations :: "(string \<times> string) list"

definition status_OK :: status where
  "status_OK = \<lparr>code = OK, message = [], violations = []\<rparr>"

definition status_CANCELLED :: status where
  "status_CANCELLED = \<lparr>code = CANCELLED, message = [], violations = []\<rparr>"

definition error_status :: "status_code \<Rightarrow> string \<Rightarrow> status" where
  "error_status c m = \<lparr>code = c, message = m, violations = []\<rparr>"

abbreviation ok :: "status \<Rightarrow> bool" where
  "ok s \<equiv> code s = OK"

section \<open>Models\<close>

record model_id =
  id_language_code :: string
  id_model_name :: string

text \<open>
  The key of the hash table \<open>KaldiModelMap\<close>: its equality, its hash over the hash of strings (the
  parameter \<open>h\<close>), and how it is printed. Since the equality is that of the values, the table is a
  partial function below.
\<close>

definition ModelId_equal :: "model_id \<Rightarrow> model_id \<Rightarrow> bool" where
  "ModelId_equal lhs rhs \<longleftrightarrow>
     id_language_code lhs = id_language_code rhs \<and> id_model_name lhs = id_model_name rhs"

definition ModelId_hash :: "(string \<Rightarrow> 64 word) \<Rightarrow> model_id \<Rightarrow> 64 word" where
  "ModelId_hash h model_id = h (id_language_code model_id) XOR push_bit 1 (h (id_model_name model_id))"

definition ModelId_print :: "model_id \<Rightarrow> string" where
  "ModelId_print model_id = ''{ language_code: '' @ [CHR 0x27] @ id_language_code model_id @ [CHR 0x27] @
     '' model_name: '' @ [CHR 0x27] @ id_model_name model_id @ [CHR 0x27] @ '' }''"

lemma ModelId_equal_iff: "ModelId_equal a b \<longleftrightarrow> a = b"
  by (cases a; cases b) (simp add: ModelId_equal_def)

definition generic_id :: "string \<Rightarrow> model_id" where
  "generic_id lang = \<lparr>id_language_code = lang, id_model_name = ''generic''\<rparr>"

type_synonym 'm model_map = "model_id \<rightharpoonup> 'm"

text \<open>The generic models of two languages collide exactly when the hashes of the languages do.\<close>

lemma generic_id_hash: "ModelId_hash h (generic_id a) = ModelId_hash h (generic_id b) \<longleftrightarrow> h a = h b"
proof
  let ?g = "push_bit 1 (h ''generic'')"
  assume "ModelId_hash h (generic_id a) = ModelId_hash h (generic_id b)"
  then have "(h a XOR ?g) XOR ?g = (h b XOR ?g) XOR ?g" by (simp add: ModelId_hash_def generic_id_def)
  then show "h a = h b" by (simp only: xor.assoc xor_self_eq xor.right_neutral)
qed (simp add: ModelId_hash_def generic_id_def)

lemma generic_id_inject [simp]: "generic_id a = generic_id b \<longleftrightarrow> a = b"
  by (simp add: generic_id_def)

end
