(* ===== verification/Uri_Scheme.thy ===== *)
theory Uri_Scheme
  imports Text_Utils "HOL-Library.Sublist"
begin

text \<open>
  \<open>IsUriSupported\<close> of \<open>src/audio/audio-source.cc\<close>. Which schemes are supported is decided when the
  program is compiled; \<open>BUILD.bazel\<close> defines \<open>TIRO_SPEECH_ENABLE_HTTP_URI\<close> for the server library and
  does not define \<open>TIRO_SPEECH_ENABLE_FILE_URI\<close>.
\<close>

text \<open>\<open>find_sub pat s\<close> is \<open>s.find(pat)\<close>: the least position where \<open>pat\<close> occurs.\<close>

fun find_sub :: "'a list \<Rightarrow> 'a list \<Rightarrow> nat option" where
  "find_sub pat [] = (if pat = [] then Some 0 else None)"
| "find_sub pat (x # xs) =
     (if prefix pat (x # xs) then Some 0 else map_option Suc (find_sub pat xs))"

definition supported_uri_schemes :: "bool \<Rightarrow> bool \<Rightarrow> string list" where
  "supported_uri_schemes enable_file enable_http =
     (if enable_file then [''file''] else []) @ (if enable_http then [''http'', ''https''] else [])"

definition IsUriSupported_with :: "string list \<Rightarrow> string \<Rightarrow> bool" where
  "IsUriSupported_with schemes uri =
     (case find_sub ''://'' uri of
        None \<Rightarrow> False
      | Some nend_scheme \<Rightarrow> list_ex (\<lambda>s. substr uri 0 nend_scheme = s) schemes)"

definition IsUriSupported :: "string \<Rightarrow> bool" where
  "IsUriSupported uri = IsUriSupported_with (supported_uri_schemes False True) uri"

lemma find_sub_Some: "find_sub pat s = Some i \<Longrightarrow> prefix (take i s @ pat) s"
  by (induction pat s arbitrary: i rule: find_sub.induct) (auto split: if_splits)

lemma find_sub_first:
  assumes "prefix (w @ pat) s" and "\<And>j. j < length w \<Longrightarrow> \<not> prefix pat (drop j s)"
  shows "find_sub pat s = Some (length w)"
  using assms
proof (induction w arbitrary: s)
  case Nil
  then show ?case by (cases s) auto
next
  case (Cons x w)
  then obtain s' where s: "s = x # s'" and p: "prefix (w @ pat) s'" by (cases s) auto
  have "\<not> prefix pat s" using Cons.prems(2) [of 0] by simp
  moreover have "find_sub pat s' = Some (length w)"
  proof (rule Cons.IH [OF p])
    fix j assume "j < length w"
    then show "\<not> prefix pat (drop j s')" using Cons.prems(2) [of "Suc j"] s by simp
  qed
  ultimately show ?case using s by simp
qed

text \<open>
  A scheme without a colon: the first \<open>://\<close> of a string that starts with \<open>scheme://\<close> is the one
  right after the scheme.
\<close>

lemma find_scheme:
  assumes "CHR '':'' \<notin> set scheme" and "prefix (scheme @ ''://'') uri"
  shows "find_sub ''://'' uri = Some (length scheme)"
proof (rule find_sub_first [OF assms(2)])
  fix j assume j: "j < length scheme"
  from assms(2) obtain rest where uri: "uri = scheme @ ''://'' @ rest" by (auto simp: prefix_def)
  have "drop j uri ! 0 = scheme ! j" using j uri by (simp add: nth_append)
  moreover have "scheme ! j \<noteq> CHR '':''" using j assms(1) by (metis nth_mem)
  ultimately show "\<not> prefix ''://'' (drop j uri)" by (auto simp: prefix_def)
qed

lemma IsUriSupported_with_iff:
  assumes "\<forall>s \<in> set schemes. CHR '':'' \<notin> set s"
  shows "IsUriSupported_with schemes uri \<longleftrightarrow> (\<exists>s \<in> set schemes. prefix (s @ ''://'') uri)"
proof
  assume "IsUriSupported_with schemes uri"
  then obtain i where i: "find_sub ''://'' uri = Some i" and s: "take i uri \<in> set schemes"
    by (auto simp: IsUriSupported_with_def list_ex_iff substr_def split: option.splits)
  from find_sub_Some [OF i] s show "\<exists>s \<in> set schemes. prefix (s @ ''://'') uri" by blast
next
  assume "\<exists>s \<in> set schemes. prefix (s @ ''://'') uri"
  then obtain s where s: "s \<in> set schemes" "prefix (s @ ''://'') uri" by blast
  then have "find_sub ''://'' uri = Some (length s)" using assms by (intro find_scheme) auto
  moreover have "take (length s) uri = s" using s(2) by (auto simp: prefix_def)
  ultimately show "IsUriSupported_with schemes uri"
    using s(1) by (auto simp: IsUriSupported_with_def list_ex_iff substr_def)
qed

text \<open>
  In the build the repository describes, a URI is supported exactly when it starts with
  \<open>http://\<close> or \<open>https://\<close>; a later \<open>://\<close> in the string makes no difference.
\<close>

theorem IsUriSupported_iff:
  "IsUriSupported uri \<longleftrightarrow> prefix ''http://'' uri \<or> prefix ''https://'' uri"
  unfolding IsUriSupported_def
  by (subst IsUriSupported_with_iff) (auto simp: supported_uri_schemes_def)

end
