(* ===== verification/Validation.thy ===== *)
theory Validation
  imports Speech_Messages Uri_Scheme
begin

text \<open>
  \<open>src/api/validation.cc\<close>: the three overloads of \<open>Validate\<close>, which return a list of pairs of a
  field and an error message (empty for a valid message), and \<open>ErrorVecToStatus\<close>. The pointer to
  the model map is an \<open>option\<close>, \<open>None\<close> for \<open>nullptr\<close>.
\<close>

type_synonym validation_status = "(string \<times> string) list"

definition squote :: string where "squote = [CHR 0x27]"

text \<open>The \<open>in_range\<close> lambda.\<close>

definition in_range :: "int \<Rightarrow> int \<Rightarrow> int \<Rightarrow> bool" where
  "in_range rate low high \<longleftrightarrow> \<not> (rate < low \<or> rate > high)"

definition encoding_errors :: "proto_encoding \<Rightarrow> validation_status" where
  "encoding_errors e =
     (case e of
        ENCODING_UNSPECIFIED \<Rightarrow> [(''encoding'', ''The field 'encoding' must be specified.'')]
      | LINEAR16 \<Rightarrow> []
      | MP3 \<Rightarrow> []
      | FLAC \<Rightarrow> []
      | Unknown_encoding _ \<Rightarrow> [(''encoding'', ''Unsupported encoding specified.'')])"

definition language_errors :: "string \<Rightarrow> 'm model_map option \<Rightarrow> validation_status" where
  "language_errors lang models =
     (if lang \<noteq> [] then
        (case models of
           None \<Rightarrow> []
         | Some m \<Rightarrow>
             if m (generic_id lang) = None
             then [(''language_code'',
                    ''Unsupported value '' @ squote @ lang @ squote @ '' for field 'language_code'.'')]
             else [])
      else [(''language_code'', ''Field 'language_code' is required. '')])"

definition ValidateConfig :: "recognition_config \<Rightarrow> 'm model_map option \<Rightarrow> validation_status" where
  "ValidateConfig config models =
     encoding_errors (encoding config)
     @ language_errors (language_code config) models
     @ (if \<not> in_range (max_alternatives config) 0 30
        then [(''max_alternatives'', ''Valid values for field 'max_alternatives' are in range [1;30]'')]
        else [])"

definition audio_errors :: "recognition_audio option \<Rightarrow> validation_status" where
  "audio_errors audio =
     (case audio of
        None \<Rightarrow> [(''audio'', ''Field 'audio' is missing.'')]
      | Some AUDIO_SOURCE_NOT_SET \<Rightarrow> [(''audio'', ''Field 'audio' empty.'')]
      | Some (Uri uri) \<Rightarrow>
          if \<not> IsUriSupported uri then [(''audio.uri'', ''Scheme missing or unsupported.'')] else []
      | Some (Content _) \<Rightarrow> [])"

definition ValidateRecognize :: "recognize_request \<Rightarrow> 'm model_map option \<Rightarrow> validation_status" where
  "ValidateRecognize request models =
     (case request_config request of
        Some config \<Rightarrow>
          (let config_errors = ValidateConfig config models in
           if config_errors \<noteq> [] then
             (''config'', ''Error validating field 'config'. See error details.'')
             # map (\<lambda>err. (''config.'' @ fst err, snd err)) config_errors
           else [])
      | None \<Rightarrow> [(''config'', ''Field 'config' is missing.'')])
     @ audio_errors (request_audio request)"

definition streaming_config_errors ::
    "streaming_config \<Rightarrow> 'm model_map option \<Rightarrow> validation_status" where
  "streaming_config_errors sc models =
     (case streaming_recognition_config sc of
        Some config \<Rightarrow>
          (let config_errors = ValidateConfig config models in
           (if encoding config \<noteq> LINEAR16
            then [(''streaming_config.config.encoding'',
                   ''LINEAR16 currently only supported encoding for StreamingRecognize'')]
            else [])
           @ (if config_errors \<noteq> [] then
                (''streaming_config.config'',
                 ''Error validating field 'streaming_config.config'. See error details.'')
                # map (\<lambda>err. (''streaming_config.config.'' @ fst err, snd err)) config_errors
              else []))
      | None \<Rightarrow> [(''streaming_config.config'', ''Required field 'streaming_config.config' missing'')])"

definition ValidateStreaming ::
    "streaming_request \<Rightarrow> bool \<Rightarrow> 'm model_map option \<Rightarrow> validation_status" where
  "ValidateStreaming request first_request models =
     (case request of
        STREAMING_REQUEST_NOT_SET \<Rightarrow>
          [(''oneof_streaming_request'',
            ''Either 'streaming_config' or 'audio_content' needs to be set.'')]
      | Streaming_config sc \<Rightarrow>
          if \<not> first_request then
            [(''streaming_config'', ''Only the first message can contain the field 'streaming_config'' @ squote)]
          else streaming_config_errors sc models
      | Audio_content _ \<Rightarrow>
          if first_request then
            [(''audio_content'', ''First message can only contain the field 'streaming_config'' @ squote)]
          else [])"

definition ErrorVecToStatus :: "validation_status \<Rightarrow> status" where
  "ErrorVecToStatus errors =
     (if errors \<noteq> [] then
        \<lparr>code = INVALID_ARGUMENT, message = ''Invalid request. See details'', violations = errors\<rparr>
      else status_OK)"

section \<open>What a valid message is\<close>

definition config_ok :: "'m model_map option \<Rightarrow> recognition_config \<Rightarrow> bool" where
  "config_ok models c \<longleftrightarrow>
     encoding c \<in> {LINEAR16, MP3, FLAC} \<and> language_code c \<noteq> [] \<and>
     (case models of None \<Rightarrow> True | Some m \<Rightarrow> generic_id (language_code c) \<in> dom m) \<and>
     0 \<le> max_alternatives c \<and> max_alternatives c \<le> 30"

definition audio_ok :: "recognition_audio \<Rightarrow> bool" where
  "audio_ok a = (case a of AUDIO_SOURCE_NOT_SET \<Rightarrow> False | Content _ \<Rightarrow> True | Uri u \<Rightarrow> IsUriSupported u)"

lemma encoding_errors_Nil: "encoding_errors e = [] \<longleftrightarrow> e \<in> {LINEAR16, MP3, FLAC}"
  by (cases e) (simp_all add: encoding_errors_def)

lemma language_errors_Nil:
  "language_errors lang models = [] \<longleftrightarrow>
     lang \<noteq> [] \<and> (case models of None \<Rightarrow> True | Some m \<Rightarrow> generic_id lang \<in> dom m)"
  by (auto simp: language_errors_def split: option.split)

lemma audio_errors_Nil: "audio_errors a = [] \<longleftrightarrow> (\<exists>x. a = Some x \<and> audio_ok x)"
  by (auto simp: audio_errors_def audio_ok_def split: option.split recognition_audio.split)

lemma ValidateConfig_Nil: "ValidateConfig c models = [] \<longleftrightarrow> config_ok models c"
  by (auto simp: ValidateConfig_def config_ok_def encoding_errors_Nil language_errors_Nil in_range_def)


lemma ValidateRecognize_Nil:
  "ValidateRecognize r models = [] \<longleftrightarrow>
     (\<exists>c. request_config r = Some c \<and> config_ok models c) \<and>
     (\<exists>a. request_audio r = Some a \<and> audio_ok a)"
  by (auto simp: ValidateRecognize_def Let_def audio_errors_Nil ValidateConfig_Nil split: option.split)

lemma streaming_config_errors_Nil:
  "streaming_config_errors sc models = [] \<longleftrightarrow>
     (\<exists>c. streaming_recognition_config sc = Some c \<and> config_ok models c \<and> encoding c = LINEAR16)"
  by (auto simp: streaming_config_errors_def Let_def ValidateConfig_Nil split: option.split)


lemma violations_ErrorVecToStatus [simp]: "violations (ErrorVecToStatus e) = e"
  by (simp add: ErrorVecToStatus_def status_OK_def)

lemma ok_ErrorVecToStatus: "ok (ErrorVecToStatus e) \<longleftrightarrow> e = []"
  by (simp add: ErrorVecToStatus_def status_OK_def)

lemma audio_errors_field:
  "(f, m) \<in> set (audio_errors a) \<Longrightarrow> f = ''audio'' \<or> f = ''audio.uri''"
  by (auto simp: audio_errors_def split: option.splits recognition_audio.splits if_splits)

lemma prefixed_mem:
  "(p @ f, m) \<in> (\<lambda>err. (p @ fst err, snd err)) ` S \<longleftrightarrow> (f, m) \<in> S"
  by force

text \<open>
  The status a client gets for a request with a bad configuration names every error of that
  configuration, under the field path \<open>config.<field>\<close>, and no path of that form that the
  validation of the configuration did not report.
\<close>

theorem config_errors_reported:
  "(''config.'' @ f, m) \<in> set (violations (ErrorVecToStatus
       (ValidateRecognize (r\<lparr>request_config := Some c\<rparr>) models))) \<longleftrightarrow>
   (f, m) \<in> set (ValidateConfig c models)"
proof -
  have "(''config.'' @ f, m) \<notin> set (audio_errors a)" for a
    by (auto dest: audio_errors_field)
  then show ?thesis
    using prefixed_mem [of "''config.''" f m "set (ValidateConfig c models)"]
    by (auto simp: ValidateRecognize_def Let_def simp del: append_Cons)
qed

end
