(* ===== verification/Float_Rounding.thy ===== *)
theory Float_Rounding
  imports Prelude "HOL-Library.Log_Nat"
begin

text \<open>
  Finite IEEE-754 values as rationals. Every operation of the code on \<open>float\<close> (24 significant bits)
  and \<open>double\<close> (53) is the exact operation followed by \<open>round_bits\<close>, which rounds to the nearest
  representable value, ties to even. Exponents are unbounded: overflow and subnormal numbers
  do not occur at the magnitudes the program handles (times, frame counts, 16-bit samples).
\<close>

definition rat_log2 :: "rat \<Rightarrow> int" where
  "rat_log2 x =
     (let (a, b) = quotient_of x; e = bitlen a - bitlen b in
      if 2 powi e \<le> x then e else e - 1)"

definition round_half_even :: "rat \<Rightarrow> int" where
  "round_half_even x =
     (let f = \<lfloor>x\<rfloor>; d = x - of_int f in
      if d < 1 / 2 then f else if 1 / 2 < d then f + 1 else if even f then f else f + 1)"

definition round_bits :: "nat \<Rightarrow> rat \<Rightarrow> rat" where
  "round_bits p x =
     (if x = 0 then 0
      else let e = rat_log2 \<bar>x\<bar> - (int p - 1) in of_int (round_half_even (x / 2 powi e)) * 2 powi e)"

definition f32 :: "rat \<Rightarrow> rat" where "f32 = round_bits 24"

definition f64 :: "rat \<Rightarrow> rat" where "f64 = round_bits 53"

text \<open>Conversion of a finite floating point value to an integer truncates towards zero.\<close>

definition trunc :: "rat \<Rightarrow> int" where
  "trunc x = (if 0 \<le> x then \<lfloor>x\<rfloor> else \<lceil>x\<rceil>)"

lemma trunc_of_int [simp]: "trunc (of_int n) = n"
  by (simp add: trunc_def)

lemma round_half_even_of_int [simp]: "round_half_even (of_int n) = n"
  by (simp add: round_half_even_def Let_def)

lemma rat_log2_le:
  assumes "0 < x"
  shows "2 powi rat_log2 x \<le> x"
proof -
  obtain a b where q: "quotient_of x = (a, b)" by fastforce
  have b: "0 < b" using q by (rule quotient_of_denom_pos)
  have x: "x = of_int a / of_int b" using q by (rule quotient_of_div)
  have a: "0 < a" using assms x b by (simp add: zero_less_divide_iff)
  let ?e = "bitlen a - bitlen b"
  have "2 ^ nat (bitlen a - 1) \<le> a" and "b < 2 ^ nat (bitlen b)"
    using bitlen_bounds a b by blast+
  moreover have pos: "1 \<le> bitlen a" "1 \<le> bitlen b"
    using a b by (simp_all add: bitlen_alt_def)
  ultimately have lo: "(2::rat) powi (bitlen a - 1) \<le> of_int a" and hi: "of_int b < (2::rat) powi bitlen b"
    by (simp_all add: power_int_def)
  have "(2::rat) powi (?e - 1) = 2 powi (bitlen a - 1) / 2 powi bitlen b"
    by (simp add: power_int_diff)
  also have "\<dots> \<le> of_int a / of_int b"
    using lo hi a b by (intro frac_le) simp_all
  finally have "(2::rat) powi (?e - 1) \<le> x" using x by simp
  then show ?thesis by (simp add: rat_log2_def q Let_def)
qed

lemma rat_log2_less:
  assumes "0 < x" and "x < 2 ^ p"
  shows "rat_log2 x < int p"
proof (rule ccontr)
  assume "\<not> rat_log2 x < int p"
  then have "(2::rat) powi int p \<le> 2 powi rat_log2 x" by (intro power_int_increasing) simp_all
  also have "\<dots> \<le> x" using assms(1) by (rule rat_log2_le)
  finally show False using assms(2) by (simp add: power_int_def)
qed

text \<open>An integer of at most \<open>p\<close> bits is representable: rounding leaves it alone.\<close>

lemma round_bits_of_int:
  assumes "\<bar>n\<bar> < 2 ^ p"
  shows "round_bits p (of_int n) = of_int n"
proof (cases "n = 0")
  case True
  then show ?thesis by (simp add: round_bits_def)
next
  case False
  let ?e = "rat_log2 \<bar>of_int n\<bar> - (int p - 1)"
  have "\<bar>of_int n :: rat\<bar> < 2 ^ p"
    using assms by (metis of_int_abs of_int_less_iff of_int_numeral of_int_power)
  then have "rat_log2 \<bar>of_int n\<bar> < int p" using False by (intro rat_log2_less) simp_all
  then have e: "?e \<le> 0" by simp
  then obtain k where k: "?e = - int k" by (metis nonpos_int_cases)
  have "(of_int n :: rat) / 2 powi ?e = of_int (n * 2 ^ k)"
    unfolding k by (simp add: power_int_minus divide_inverse)
  then have "round_half_even ((of_int n :: rat) / 2 powi ?e) = n * 2 ^ k"
    by (simp only: round_half_even_of_int)
  moreover have "(of_int (n * 2 ^ k) :: rat) * 2 powi ?e = of_int n"
    unfolding k by (simp add: power_int_minus)
  ultimately show ?thesis using False by (simp only: round_bits_def Let_def) simp
qed

lemma f32_of_int: "\<bar>n\<bar> < 2 ^ 24 \<Longrightarrow> f32 (of_int n) = of_int n"
  by (simp add: f32_def round_bits_of_int)

lemma f32_0 [simp]: "f32 0 = 0"
  by (simp add: f32_def round_bits_def)

lemma f64_of_int: "\<bar>n\<bar> < 2 ^ 53 \<Longrightarrow> f64 (of_int n) = of_int n"
  by (simp add: f64_def round_bits_of_int)

section \<open>Rounding of a quotient does not change its ceiling\<close>

lemma round_half_even_le: "x \<le> of_int n \<Longrightarrow> round_half_even x \<le> n"
  by (auto simp: round_half_even_def Let_def; linarith)

lemma round_half_even_ge: "of_int n + 1 / 2 < x \<Longrightarrow> n + 1 \<le> round_half_even x"
  by (auto simp: round_half_even_def Let_def; linarith)

lemma f32_pos: "0 < x \<Longrightarrow> f32 x = of_int (round_half_even (x / 2 powi (rat_log2 x - 23))) * 2 powi (rat_log2 x - 23)"
  by (simp add: f32_def round_bits_def Let_def)

lemma ceiling_f32_quotient:
  assumes a: "0 < a" "a < 2 ^ 24" and b: "0 < b"
  shows "\<lceil>f32 (of_int a / of_int b)\<rceil> = \<lceil>of_int a / of_int b :: rat\<rceil>"
proof -
  let ?q = "of_int a / of_int b :: rat"
  have q: "0 < ?q" using a b by simp
  let ?l = "rat_log2 ?q"
  have lo: "2 powi ?l \<le> ?q" using rat_log2_le [OF q] .
  show ?thesis
  proof (cases "b = 1")
    case True
    then show ?thesis using a by (simp add: f32_of_int)
  next
    case False
    then have "2 \<le> b" using b by simp
    then have "?q \<le> of_int a / 2" using a by (intro divide_left_mono) simp_all
    moreover have "(of_int a :: rat) < 2 ^ 24" using a(2) by (metis of_int_less_iff of_int_numeral of_int_power)
    ultimately have "?q < (2 ^ 24) / 2" by linarith
    then have "?q < 2 ^ 23" by simp
    then have "?l < 23" using rat_log2_less [OF q, of 23] by simp
    then obtain m where m: "?l - 23 = - int m" using nonpos_int_cases [of "?l - 23"] by auto
    have scale: "?q / 2 powi (?l - 23) = ?q * 2 ^ m"
      unfolding m by (simp add: power_int_minus divide_inverse)
    let ?k = "\<lceil>?q\<rceil>"
    have f: "f32 ?q = of_int (round_half_even (?q * 2 ^ m)) / 2 ^ m"
    proof -
      have "f32 ?q = of_int (round_half_even (?q / 2 powi (?l - 23))) * 2 powi (?l - 23)"
        by (rule f32_pos [OF q])
      also have "\<dots> = of_int (round_half_even (?q * 2 ^ m)) * 2 powi (- int m)"
        by (simp only: scale) (simp only: m)
      finally show ?thesis by (simp add: power_int_minus divide_inverse)
    qed
    have "?q * 2 ^ m \<le> of_int ?k * 2 ^ m" by (intro mult_right_mono) simp_all
    then have "?q * 2 ^ m \<le> of_int (?k * 2 ^ m)" by (simp del: times_divide_eq_left)
    then have "round_half_even (?q * 2 ^ m) \<le> ?k * 2 ^ m" by (rule round_half_even_le)
    then have "(of_int (round_half_even (?q * 2 ^ m)) :: rat) \<le> of_int (?k * 2 ^ m)" by (simp only: of_int_le_iff)
    then have up: "f32 ?q \<le> of_int ?k" unfolding f by (simp add: divide_le_eq)
    have "of_int (?k - 1) < ?q" by linarith
    then have "of_int ((?k - 1) * b) < (of_int a :: rat)" using b by (simp add: less_divide_eq)
    then have "(?k - 1) * b + 1 \<le> a" by (simp only: of_int_less_iff)
    then have "(of_int ((?k - 1) * b + 1) :: rat) \<le> of_int a" by (simp only: of_int_le_iff)
    then have q_lo: "of_int (?k - 1) + 1 / of_int b \<le> ?q"
    proof -
      have "of_int (?k - 1) + 1 / of_int b = (of_int ((?k - 1) * b + 1) :: rat) / of_int b"
        using b by (simp add: add_divide_distrib)
      also have "\<dots> \<le> ?q" using \<open>of_int ((?k - 1) * b + 1) \<le> of_int a\<close> b by (intro divide_right_mono) simp_all
      finally show ?thesis .
    qed
    have "(2 :: rat) powi ?l = 2 ^ 23 / 2 ^ m"
    proof -
      have "?l = 23 - int m" using m by simp
      then have "(2 :: rat) powi ?l = 2 powi (23 - int m)" by (simp only:)
      then show ?thesis by (simp add: power_int_diff)
    qed
    with lo have "2 ^ 23 * of_int b \<le> (of_int a :: rat) * 2 ^ m" using b by (simp add: field_simps)
    moreover have "(of_int a :: rat) * 2 ^ m < 2 ^ 24 * 2 ^ m"
      using \<open>of_int a < 2 ^ 24\<close> by (rule mult_strict_right_mono) simp
    moreover have "(2 :: rat) ^ 24 * 2 ^ m = 2 ^ 23 * (2 * 2 ^ m)" by simp
    ultimately have "(2 :: rat) ^ 23 * of_int b < 2 ^ 23 * (2 * 2 ^ m)" by (metis order_le_less_trans)
    then have "(of_int b :: rat) < 2 * 2 ^ m" by (simp only: mult_less_cancel_left_pos zero_less_power zero_less_numeral)
    then have "(1 / 2 :: rat) < 2 ^ m / of_int b" using b by (simp add: less_divide_eq)
    moreover have "(of_int (?k - 1) + 1 / of_int b) * 2 ^ m \<le> ?q * 2 ^ m" using q_lo by (intro mult_right_mono) simp_all
    moreover have "(of_int (?k - 1) + 1 / of_int b) * 2 ^ m = of_int ((?k - 1) * 2 ^ m) + (2 ^ m / of_int b :: rat)"
      by (simp add: algebra_simps)
    ultimately have "of_int ((?k - 1) * 2 ^ m) + 1 / 2 < ?q * 2 ^ m" by linarith
    then have "(?k - 1) * 2 ^ m + 1 \<le> round_half_even (?q * 2 ^ m)" by (rule round_half_even_ge)
    then have "(of_int ((?k - 1) * 2 ^ m + 1) :: rat) \<le> of_int (round_half_even (?q * 2 ^ m))" by (simp only: of_int_le_iff)
    then have "of_int (?k - 1) < f32 ?q" unfolding f by (simp add: less_divide_eq)
    with up show ?thesis by linarith
  qed
qed

section \<open>The relative error of a rounding\<close>

lemma round_half_even_near: "\<bar>of_int (round_half_even x) - x\<bar> \<le> 1 / 2"
proof -
  have "of_int \<lfloor>x\<rfloor> \<le> x" "x < of_int \<lfloor>x\<rfloor> + 1" by linarith+
  then show ?thesis unfolding round_half_even_def Let_def abs_le_iff by (simp split: if_split; linarith)
qed

lemma f32_relative:
  assumes "0 \<le> x"
  shows "x * (1 - 1 / 2 ^ 24) \<le> f32 x \<and> f32 x \<le> x * (1 + 1 / 2 ^ 24)"
proof (cases "x = 0")
  case False
  with assms have x: "0 < x" by simp
  let ?e = "rat_log2 x - 23"
  let ?p = "2 powi ?e :: rat"
  have p: "0 < ?p" by simp
  have "\<bar>of_int (round_half_even (x / ?p)) - x / ?p\<bar> * ?p \<le> 1 / 2 * ?p"
    using p by (intro mult_right_mono round_half_even_near) simp
  moreover have "\<bar>of_int (round_half_even (x / ?p)) - x / ?p\<bar> * ?p = \<bar>f32 x - x\<bar>"
  proof -
    have "\<bar>of_int (round_half_even (x / ?p)) - x / ?p\<bar> * ?p = \<bar>(of_int (round_half_even (x / ?p)) - x / ?p) * ?p\<bar>"
      using p by (simp only: abs_mult abs_of_pos)
    also have "(of_int (round_half_even (x / ?p)) - x / ?p) * ?p = f32 x - x"
      using p by (simp add: f32_pos [OF x] left_diff_distrib)
    finally show ?thesis .
  qed
  moreover have "1 / 2 * ?p \<le> x / 2 ^ 24"
  proof -
    have "1 / 2 * ?p = 2 powi rat_log2 x / 2 ^ 24" by (simp add: power_int_diff)
    also have "\<dots> \<le> x / 2 ^ 24" using rat_log2_le [OF x] by (intro divide_right_mono) simp_all
    finally show ?thesis .
  qed
  ultimately have "\<bar>f32 x - x\<bar> \<le> x / 2 ^ 24" by linarith
  then have "x - x / 2 ^ 24 \<le> f32 x \<and> f32 x \<le> x + x / 2 ^ 24" by linarith
  then show ?thesis by (simp add: algebra_simps)
qed simp

lemma f32_chain:
  assumes "0 \<le> t" and "t * a \<le> x" "x \<le> t * b" and "0 \<le> a" "0 \<le> c"
  shows "t * c * (a * (1 - 1 / 2 ^ 24)) \<le> f32 (x * c) \<and> f32 (x * c) \<le> t * c * (b * (1 + 1 / 2 ^ 24))"
proof -
  have x: "0 \<le> x" using assms by (meson mult_nonneg_nonneg order_trans)
  note r = f32_relative [OF mult_nonneg_nonneg [OF x assms(5)]]
  have le: "t * a * c \<le> x * c" "x * c \<le> t * b * c" using assms by (simp_all add: mult_right_mono)
  have "t * a * c * (1 - 1 / 2 ^ 24) \<le> x * c * (1 - 1 / 2 ^ 24)"
    "x * c * (1 + 1 / 2 ^ 24) \<le> t * b * c * (1 + 1 / 2 ^ 24)"
    by (rule mult_right_mono [OF le(1)], simp) (rule mult_right_mono [OF le(2)], simp)
  with r have "t * a * c * (1 - 1 / 2 ^ 24) \<le> f32 (x * c)" "f32 (x * c) \<le> t * b * c * (1 + 1 / 2 ^ 24)" by linarith+
  moreover have "t * a * c * (1 - 1 / 2 ^ 24) = t * c * (a * (1 - 1 / 2 ^ 24))"
    "t * b * c * (1 + 1 / 2 ^ 24) = t * c * (b * (1 + 1 / 2 ^ 24))"
    by (simp_all only: mult_ac)
  ultimately show ?thesis by metis
qed

end
