(* ===== verification/Audio.thy ===== *)
theory Audio
  imports Float_Rounding
begin

text \<open>
  \<open>src/audio/audio.h\<close> and the conversions of \<open>src/audio/audio.cc\<close> that involve no codec. A waveform
  (\<open>kaldi::Vector<float>\<close>) is the list of its samples, each a finite float and so a rational.
  Kaldi's resampler is the parameter \<open>resampler\<close>: it takes the arguments of the constructor of
  \<open>kaldi::LinearResample\<close>, the input, and the flush flag.
\<close>

type_synonym waveform = "rat list"

datatype audio_encoding =
    AE_UNSPECIFIED
  | AE_LINEAR16
  | AE_FLAC
  | AE_MP3
  | AE_GUESS

type_synonym resampler = "rat \<Rightarrow> rat \<Rightarrow> rat \<Rightarrow> int \<Rightarrow> waveform \<Rightarrow> bool \<Rightarrow> waveform"

definition kDefaultSampleRate :: int where "kDefaultSampleRate = 16000"

section \<open>Linear PCM\<close>

text \<open>
  Two bytes, in the order of the little-endian targets the server is built for, reinterpreted as
  an unsigned 16-bit value and assigned to an \<open>int16_t\<close>.
\<close>

definition sample_of :: "char \<Rightarrow> char \<Rightarrow> int" where
  "sample_of lo hi = sint (word_of_nat (of_char lo + 256 * of_char hi) :: 16 word)"

definition sample_at :: "string \<Rightarrow> nat \<Rightarrow> int" where
  "sample_at bytes i = sample_of (bytes ! (2 * i)) (bytes ! (2 * i + 1))"

text \<open>The overload that fills a vector of the right dimension, and the one that resizes it first.\<close>

definition Linear16BytesToWaveVectorBase :: "string \<Rightarrow> nat \<Rightarrow> waveform outcome" where
  "Linear16BytesToWaveVectorBase bytes vec_dim =
     (let num_samples = length bytes div 2 in
      if num_samples \<noteq> vec_dim then Fault Assertion_failed
      else Ret (map (\<lambda>i. of_int (sample_at bytes i)) [0..<num_samples]))"

definition Linear16BytesToWaveVector :: "string \<Rightarrow> waveform outcome" where
  "Linear16BytesToWaveVector bytes =
     (let num_samples = length bytes div 2 in Linear16BytesToWaveVectorBase bytes num_samples)"

definition linear16 :: "string \<Rightarrow> waveform" where
  "linear16 bytes = map (\<lambda>i. of_int (sample_at bytes i)) [0..<length bytes div 2]"

lemma Linear16BytesToWaveVector_Ret: "Linear16BytesToWaveVector bytes = Ret (linear16 bytes)"
  by (simp add: Linear16BytesToWaveVector_def Linear16BytesToWaveVectorBase_def linear16_def)

lemma length_linear16 [simp]: "length (linear16 bytes) = length bytes div 2"
  by (simp add: linear16_def)

lemma linear16_Nil [simp]: "linear16 [] = []"
  by (simp add: linear16_def)

lemma linear16_single [simp]: "linear16 [a] = []"
  by (simp add: linear16_def)

lemma linear16_Cons2 [simp]: "linear16 (a # b # bytes) = of_int (sample_of a b) # linear16 bytes"
  by (simp add: linear16_def sample_at_def upt_conv_Cons map_Suc_upt [symmetric] comp_def
      del: upt_Suc)

text \<open>
  Whole samples on the left: a chunk of an even number of bytes can be decoded on its own.
\<close>

lemma linear16_append: "even (length a) \<Longrightarrow> linear16 (a @ b) = linear16 a @ linear16 b"
proof (induction a rule: length_induct)
  case (1 a)
  show ?case
  proof (cases a)
    case (Cons x xs)
    with 1 obtain y ys where "a = x # y # ys" by (cases xs) auto
    with 1 show ?thesis by simp
  qed simp
qed

lemma sample_of_range: "- (2 ^ 15) \<le> sample_of lo hi \<and> sample_of lo hi < 2 ^ 15"
  using sint_greater_eq [of "word_of_nat (of_char lo + 256 * of_char hi) :: 16 word"]
    sint_less [of "word_of_nat (of_char lo + 256 * of_char hi) :: 16 word"]
  by (simp add: sample_of_def)

lemma linear16_range:
  "x \<in> set (linear16 bytes) \<Longrightarrow> \<exists>n. x = of_int n \<and> - (2 ^ 15) \<le> n \<and> n < 2 ^ 15"
  using sample_of_range by (auto simp: linear16_def sample_at_def)

text \<open>
  The bytes of a signed 16-bit sample in memory, as \<open>WriteFrame\<close> copies them to a stream.
\<close>

definition bytes_of_sample :: "int \<Rightarrow> string" where
  "bytes_of_sample x =
     (let u = unat (word_of_int x :: 16 word) in [char_of (u mod 256), char_of (u div 256)])"

lemma length_bytes_of_sample [simp]: "length (bytes_of_sample x) = 2"
  by (simp add: bytes_of_sample_def Let_def)

lemma sample_of_bytes:
  assumes "- (2 ^ 15) \<le> x" and "x < 2 ^ 15"
  shows "bytes_of_sample x = [a, b] \<Longrightarrow> sample_of a b = x"
proof -
  let ?w = "word_of_int x :: 16 word"
  assume "bytes_of_sample x = [a, b]"
  then have a: "a = char_of (unat ?w mod 256)" and b: "b = char_of (unat ?w div 256)"
    by (simp_all add: bytes_of_sample_def Let_def)
  have "unat ?w < 65536" using unsigned_less [of ?w] by simp
  then have "unat ?w div 256 < 256" by simp
  then have "of_char a + 256 * of_char b = unat ?w"
    unfolding a b by (simp add: of_char_of)
  then have "sample_of a b = sint ?w" by (simp add: sample_of_def)
  also have "\<dots> = x" using assms by (simp add: sint_sbintrunc' signed_take_bit_int_eq_self)
  finally show ?thesis .
qed

lemma linear16_bytes_of_samples:
  "\<forall>x \<in> set xs. - (2 ^ 15) \<le> x \<and> x < 2 ^ 15 \<Longrightarrow>
     linear16 (concat (map bytes_of_sample xs)) = map of_int xs"
proof (induction xs)
  case Nil
  then show ?case by simp
next
  case (Cons x xs)
  obtain a b where ab: "bytes_of_sample x = [a, b]"
    by (simp add: bytes_of_sample_def Let_def)
  with Cons sample_of_bytes [OF _ _ ab] show ?case by simp
qed

section \<open>Resampling\<close>

text \<open>
  \<open>0.99 * 0.5 * std::min(new_freq, orig_freq)\<close> is computed in \<open>double\<close> and stored in a \<open>float\<close>.
\<close>

definition ResampleWaveForm :: "resampler \<Rightarrow> rat \<Rightarrow> waveform \<Rightarrow> rat \<Rightarrow> waveform" where
  "ResampleWaveForm resampler orig_freq wave new_freq =
     (let lowpass_cutoff = f32 (f64 (f64 (99 / 100) * (1 / 2) * min new_freq orig_freq));
          lowpass_filter_width = 6
      in resampler orig_freq new_freq lowpass_cutoff lowpass_filter_width wave True)"

section \<open>RIFF headers\<close>

text \<open>
  \<open>HasRiffHeader\<close> reads four bytes (the stream throws when there are fewer) and, when they spell
  \<open>RIFF\<close>, seeks to byte 44. The result is the answer and the new position; \<open>seekg\<close> does not check
  it against the length.
\<close>

definition HasRiffHeader :: "string \<Rightarrow> (bool \<times> nat) outcome" where
  "HasRiffHeader contents =
     (if length contents < 4 then Throw Ios_failure
      else if take 4 contents \<noteq> ''RIFF'' then Ret (False, 4)
      else Ret (True, 44))"

end
