(* ===== verification/Chunk_Source.thy ===== *)
theory Chunk_Source
  imports Prelude
begin

text \<open>
  The interface behind every reader of the program: \<open>has_more\<close> says whether there is something
  left, \<open>next_chunk\<close> hands out the next piece. \<open>ContentAudioSource\<close> and \<open>FileAudioSource\<close> provide
  it to the recogniser, \<open>InputBuffer\<close> (through the read callback of \<open>IoContext\<close>) to the demuxer.
  The client is the loop \<open>while (has_more()) use(next_chunk())\<close>.
\<close>

text \<open>
  The loop, with fuel. \<open>consume\<close> gets the chunk, whether it was the last one (\<open>!HasMoreChunks()\<close>
  after taking it), and its own state; an exception or fault of either side ends the loop. \<open>None\<close>
  means that the fuel did not suffice.
\<close>

fun chunk_loop ::
    "('s \<Rightarrow> bool) \<Rightarrow> ('s \<Rightarrow> ('c \<times> 's) outcome) \<Rightarrow> ('c \<Rightarrow> bool \<Rightarrow> 'u \<Rightarrow> 'u outcome) \<Rightarrow>
     nat \<Rightarrow> 's \<Rightarrow> 'u \<Rightarrow> ('s \<times> 'u) outcome option" where
  "chunk_loop has_more next_chunk consume 0 s u = None"
| "chunk_loop has_more next_chunk consume (Suc n) s u =
     (if has_more s then
        (case next_chunk s of
           Throw e \<Rightarrow> Some (Throw e)
         | Fault b \<Rightarrow> Some (Fault b)
         | Ret (c, s') \<Rightarrow>
             (case consume c (\<not> has_more s') u of
                Throw e \<Rightarrow> Some (Throw e)
              | Fault b \<Rightarrow> Some (Fault b)
              | Ret u' \<Rightarrow> chunk_loop has_more next_chunk consume n s' u'))
      else Some (Ret (s, u)))"

text \<open>Consuming a given list of chunks, the last one flagged.\<close>

fun consume_all :: "('c \<Rightarrow> bool \<Rightarrow> 'u \<Rightarrow> 'u outcome) \<Rightarrow> 'c list \<Rightarrow> 'u \<Rightarrow> 'u outcome" where
  "consume_all consume [] u = Ret u"
| "consume_all consume (c # cs) u = obind (consume c (cs = []) u) (consume_all consume cs)"

text \<open>
  The contract: \<open>pending\<close> is what has not been delivered. A chunk is a non-empty prefix of it of at
  most \<open>limit\<close> elements.
\<close>

locale chunk_source =
  fixes has_more :: "'s \<Rightarrow> bool"
    and next_chunk :: "'s \<Rightarrow> ('v list \<times> 's) outcome"
    and pending :: "'s \<Rightarrow> 'v list"
    and inv :: "'s \<Rightarrow> bool"
    and limit :: nat
  assumes has_more_iff: "inv s \<Longrightarrow> has_more s \<longleftrightarrow> pending s \<noteq> []"
    and next_delivers: "inv s \<Longrightarrow> has_more s \<Longrightarrow>
      \<exists>c s'. next_chunk s = Ret (c, s') \<and> c \<noteq> [] \<and> length c \<le> limit \<and>
        pending s = c @ pending s' \<and> inv s'"
begin

lemma next_delivers_obtain:
  assumes "inv s" "has_more s"
  obtains c s' where "next_chunk s = Ret (c, s')" "c \<noteq> []" "length c \<le> limit"
    "pending s = c @ pending s'" "inv s'" "length (pending s') < length (pending s)"
  using next_delivers [OF assms] by fastforce

text \<open>
  The loop terminates, and does to its consumer what \<open>consume_all\<close> does with chunks whose
  concatenation is everything that was pending.
\<close>

lemma loop_delivers:
  "inv s \<Longrightarrow> length (pending s) < n \<Longrightarrow>
   \<exists>cs s'. concat cs = pending s \<and> (\<forall>c \<in> set cs. c \<noteq> [] \<and> length c \<le> limit) \<and>
     \<not> has_more s' \<and> inv s' \<and>
     (\<forall>consume (u :: 'u). chunk_loop has_more next_chunk consume n s u =
        Some (omap (Pair s') (consume_all consume cs u)))"
proof (induction n arbitrary: s)
  case 0
  then show ?case by simp
next
  case (Suc n)
  show ?case
  proof (cases "has_more s")
    case False
    then show ?thesis using Suc.prems has_more_iff [of s] by (intro exI [of _ "[]"] exI [of _ s]) auto
  next
    case True
    from Suc.prems(1) True obtain c t where t: "next_chunk s = Ret (c, t)" "c \<noteq> []"
        "length c \<le> limit" "pending s = c @ pending t" "inv t"
        "length (pending t) < length (pending s)"
      by (rule next_delivers_obtain)
    have "length (pending t) < n" using t(6) Suc.prems(2) by linarith
    from Suc.IH [OF t(5) this] obtain cs s' where IH: "concat cs = pending t"
        "\<forall>c \<in> set cs. c \<noteq> [] \<and> length c \<le> limit" "\<not> has_more s'" "inv s'"
        "\<forall>consume (u :: 'u). chunk_loop has_more next_chunk consume n t u =
           Some (omap (Pair s') (consume_all consume cs u))"
      by blast
    have last: "(\<not> has_more t) = (cs = [])"
    proof -
      have "(concat cs = []) = (cs = [])" using IH(2) by (cases cs) simp_all
      then show ?thesis unfolding IH(1) using has_more_iff [OF t(5)] by simp
    qed
    have "chunk_loop has_more next_chunk consume (Suc n) s u =
        Some (omap (Pair s') (consume_all consume (c # cs) u))" for consume and u :: 'u
    proof -
      have "chunk_loop has_more next_chunk consume (Suc n) s u =
          (case consume c (cs = []) u of Throw e \<Rightarrow> Some (Throw e) | Fault b \<Rightarrow> Some (Fault b)
           | Ret u' \<Rightarrow> chunk_loop has_more next_chunk consume n t u')"
        using True by (simp add: t(1) last)
      then show ?thesis
        by (cases "consume c (cs = []) u") (simp_all add: IH(5) [rule_format])
    qed
    then show ?thesis
      using IH(1-4) t by (intro exI [of _ "c # cs"] exI [of _ s']) auto
  qed
qed

text \<open>A consumer that cannot fail sees everything.\<close>

lemma loop_collects:
  assumes "inv s" "length (pending s) < n"
  shows "\<exists>s'. chunk_loop has_more next_chunk (\<lambda>c _ acc. Ret (acc @ c)) n s [] =
    Some (Ret (s', pending s)) \<and> \<not> has_more s'"
proof -
  have "consume_all (\<lambda>c _ acc. Ret (acc @ c)) cs acc = Ret (acc @ concat cs)" for cs and acc :: "'v list"
    by (induction cs arbitrary: acc) simp_all
  with loop_delivers [OF assms] show ?thesis by (metis append_Nil omap.simps(1))
qed

end

end
