(* ===== verification/Input_Buffer.thy ===== *)
theory Input_Buffer
  imports Chunk_Source
begin

text \<open>
  \<open>InputBuffer\<close> and \<open>IoContext\<close> of \<open>src/audio/ffmpeg-wrapper.h\<close>, at the template's default sizes: a
  fixed array that is refilled from a \<open>std::istream\<close> when fewer than \<open>kRefillThreshold\<close> bytes are
  left, and the callback through which libavformat reads it.
\<close>

definition kBufferSize :: nat where "kBufferSize = 9480"
definition kRefillThreshold :: nat where "kRefillThreshold = 4096"

section \<open>The input stream\<close>

text \<open>
  A \<open>std::istream\<close> over finitely many bytes, with only \<open>badbit\<close> raising exceptions. \<open>read\<close> extracts
  up to \<open>n\<close> bytes; coming up short sets \<open>eofbit\<close> (and \<open>failbit\<close>), after which further reads
  extract nothing.
\<close>

record 'b istream =
  rest :: "'b list"
  eof :: bool

definition istream_read :: "nat \<Rightarrow> 'b istream \<Rightarrow> 'b list \<times> 'b istream" where
  "istream_read n st =
     (if eof st then ([], st)
      else (take n (rest st), st\<lparr>rest := drop n (rest st), eof := length (rest st) < n\<rparr>))"

lemma istream_read_nothing:
  "rest st = [] \<Longrightarrow> 0 < n \<Longrightarrow> istream_read n st = ([], st\<lparr>rest := [], eof := True\<rparr>)"
  for st :: "'b istream"
  by (cases st) (simp add: istream_read_def)

section \<open>The buffer\<close>

record 'b input_buffer =
  input_stream :: "'b istream"
  buf :: "'b list"
  cur_offset :: nat
  cur_data_size :: nat
  total_bytes_read :: nat
  total_used_bytes :: nat

definition write_at :: "nat \<Rightarrow> 'b list \<Rightarrow> 'b list \<Rightarrow> 'b list" where
  "write_at i xs ys = take i ys @ xs @ drop (i + length xs) ys"

definition Data :: "'b input_buffer \<Rightarrow> 'b list" where
  "Data b = drop (cur_offset b) (buf b)"

definition Empty :: "'b input_buffer \<Rightarrow> bool" where
  "Empty b \<longleftrightarrow> eof (input_stream b) \<and> cur_data_size b \<le> 0"

definition ReadMore :: "'b input_buffer \<Rightarrow> bool \<times> 'b input_buffer" where
  "ReadMore b =
     (let (bytes, st) = istream_read (kBufferSize - cur_data_size b) (input_stream b);
          n_read = length bytes;
          b' = b\<lparr>input_stream := st, buf := write_at (cur_data_size b) bytes (buf b),
                 total_bytes_read := total_bytes_read b + n_read\<rparr>
      in if n_read = 0 then (False, b')
         else (True, b'\<lparr>cur_data_size := cur_data_size b + n_read\<rparr>))"

text \<open>
  The constructor; \<open>garbage\<close> is the uninitialised array of \<open>kBufferSize + kPaddingSize\<close> bytes.
\<close>

definition InputBuffer :: "'b list \<Rightarrow> 'b list \<Rightarrow> 'b input_buffer outcome" where
  "InputBuffer garbage contents =
     (let b = \<lparr>input_stream = \<lparr>rest = contents, eof = False\<rparr>, buf = garbage, cur_offset = 0,
               cur_data_size = 0, total_bytes_read = 0, total_used_bytes = 0\<rparr>;
          (more, b') = ReadMore b
      in if \<not> more then Throw (Av_error ''Unexpected EOF'') else Ret b')"

definition Forward :: "nat \<Rightarrow> 'b input_buffer \<Rightarrow> 'b input_buffer outcome" where
  "Forward n_used b =
     (if \<not> (n_used \<le> kBufferSize \<and> n_used \<le> cur_data_size b \<and> \<not> Empty b) then Fault Assertion_failed
      else
        (let b1 = b\<lparr>total_used_bytes := total_used_bytes b + n_used,
                    cur_offset := cur_offset b + n_used,
                    cur_data_size := cur_data_size b - n_used\<rparr>
         in if cur_data_size b1 < kRefillThreshold then
              (let b2 = (if cur_data_size b1 \<noteq> 0
                         then b1\<lparr>buf := write_at 0 (take (cur_data_size b1) (Data b1)) (buf b1)\<rparr>
                         else b1);
                   b3 = snd (ReadMore b2)
               in Ret (b3\<lparr>cur_offset := 0\<rparr>))
            else Ret b1))"

section \<open>The read callback\<close>

text \<open>\<open>None\<close> is \<open>AVERROR_EOF\<close>; otherwise the bytes copied into the caller's buffer.\<close>

definition io_read :: "nat \<Rightarrow> 'b input_buffer \<Rightarrow> ('b list option \<times> 'b input_buffer) outcome" where
  "io_read buf_size b =
     (if Empty b then Ret (None, b)
      else
        (let n_read = min (cur_data_size b) buf_size;
             copied = take n_read (Data b)
         in omap (\<lambda>b'. (Some copied, b')) (Forward n_read b)))"

section \<open>Invariant\<close>

definition available :: "'b input_buffer \<Rightarrow> 'b list" where
  "available b = take (cur_data_size b) (Data b)"

definition unread :: "'b input_buffer \<Rightarrow> 'b list" where
  "unread b = available b @ rest (input_stream b)"

text \<open>
  The bytes lie inside the array, a depleted stream has nothing left, and a buffer that is low on
  data is low because the stream is depleted.
\<close>

definition buffer_inv :: "'b input_buffer \<Rightarrow> bool" where
  "buffer_inv b \<longleftrightarrow>
     cur_offset b + cur_data_size b \<le> kBufferSize \<and> kBufferSize \<le> length (buf b) \<and>
     (eof (input_stream b) \<longrightarrow> rest (input_stream b) = []) \<and>
     (cur_data_size b < kRefillThreshold \<longrightarrow> eof (input_stream b))"

lemma length_available: "buffer_inv b \<Longrightarrow> length (available b) = cur_data_size b"
  by (auto simp: buffer_inv_def available_def Data_def)

lemma ReadMore_correct:
  assumes "cur_data_size b < kRefillThreshold" "kBufferSize \<le> length (buf b)"
    and "eof (input_stream b) \<longrightarrow> rest (input_stream b) = []"
  defines "b' \<equiv> (snd (ReadMore b))\<lparr>cur_offset := 0\<rparr>"
  shows "buffer_inv b' \<and> unread b' = take (cur_data_size b) (buf b) @ rest (input_stream b) \<and>
    (fst (ReadMore b) \<longleftrightarrow> rest (input_stream b) \<noteq> [])"
proof (cases "eof (input_stream b) \<or> rest (input_stream b) = []")
  case True
  then have depleted: "rest (input_stream b) = []" using assms(3) by blast
  have m: "0 < kBufferSize - cur_data_size b"
    using assms(1) by (simp add: kBufferSize_def kRefillThreshold_def)
  have "istream_read (kBufferSize - cur_data_size b) (input_stream b) =
      ([], (input_stream b)\<lparr>rest := [], eof := True\<rparr>)"
    using depleted m by (rule istream_read_nothing)
  then have "ReadMore b = (False, b\<lparr>input_stream := (input_stream b)\<lparr>rest := [], eof := True\<rparr>\<rparr>)"
    by (simp add: ReadMore_def write_at_def)
  then show ?thesis
    using assms(1,2) depleted
    by (simp add: b'_def buffer_inv_def unread_def available_def Data_def kBufferSize_def
        kRefillThreshold_def)
next
  case False
  let ?m = "kBufferSize - cur_data_size b" and ?r = "rest (input_stream b)"
  have m: "0 < ?m" using assms(1) by (simp add: kBufferSize_def kRefillThreshold_def)
  have "b' = b\<lparr>input_stream := \<lparr>rest = drop ?m ?r, eof = length ?r < ?m\<rparr>,
      buf := write_at (cur_data_size b) (take ?m ?r) (buf b),
      total_bytes_read := total_bytes_read b + length (take ?m ?r),
      cur_data_size := cur_data_size b + length (take ?m ?r), cur_offset := 0\<rparr>"
    using False m by (cases "input_stream b") (auto simp: b'_def ReadMore_def istream_read_def Let_def)
  note b' = this
  have fst: "fst (ReadMore b)"
    using False m by (auto simp: ReadMore_def istream_read_def Let_def)
  have avail: "available b' = take (cur_data_size b) (buf b) @ take ?m ?r"
    using assms(1,2) unfolding b' available_def Data_def
    by (simp add: write_at_def kBufferSize_def kRefillThreshold_def min_def)
  then have "unread b' = take (cur_data_size b) (buf b) @ ?r"
    unfolding unread_def by (simp add: b')
  moreover have "buffer_inv b'"
    using assms(1,2) unfolding b' buffer_inv_def
    by (auto simp: write_at_def kBufferSize_def kRefillThreshold_def min_def)
  ultimately show ?thesis using fst False by simp
qed

lemma InputBuffer_correct:
  assumes "length garbage = kBufferSize + padding"
  shows "if contents = [] then InputBuffer garbage contents = Throw (Av_error ''Unexpected EOF'')
    else \<exists>b. InputBuffer garbage contents = Ret b \<and> buffer_inv b \<and> unread b = contents"
proof -
  let ?b = "\<lparr>input_stream = \<lparr>rest = contents, eof = False\<rparr>, buf = garbage, cur_offset = 0,
    cur_data_size = 0, total_bytes_read = 0, total_used_bytes = 0\<rparr>"
  have "(snd (ReadMore ?b))\<lparr>cur_offset := 0\<rparr> = snd (ReadMore ?b)"
    by (simp add: ReadMore_def istream_read_def Let_def)
  then show ?thesis
    using ReadMore_correct [of ?b] assms
    by (auto simp: InputBuffer_def Let_def kRefillThreshold_def split_beta)
qed

text \<open>Every call of \<open>Forward\<close> in bounds returns, keeps the invariant and consumes exactly \<open>n\<close> bytes.\<close>

lemma Forward_correct:
  assumes inv: "buffer_inv b" and n: "n \<le> cur_data_size b" and ne: "\<not> Empty b"
  shows "\<exists>b'. Forward n b = Ret b' \<and> buffer_inv b' \<and> unread b' = drop n (unread b)"
proof -
  let ?k = "cur_data_size b - n"
  let ?b1 = "b\<lparr>total_used_bytes := total_used_bytes b + n, cur_offset := cur_offset b + n,
    cur_data_size := ?k\<rparr>"
  have n': "n \<le> kBufferSize" using inv n by (simp add: buffer_inv_def)
  have drop_n: "drop n (unread b) = take ?k (drop (cur_offset b + n) (buf b)) @ rest (input_stream b)"
    using inv n length_available [OF inv]
    by (simp add: unread_def available_def Data_def drop_take add.commute)
  show ?thesis
  proof (cases "?k < kRefillThreshold")
    case False
    then have "Forward n b = Ret ?b1" using n n' ne by (simp add: Forward_def Let_def)
    moreover have "buffer_inv ?b1" using inv n False by (auto simp: buffer_inv_def)
    moreover have "unread ?b1 = drop n (unread b)"
      unfolding drop_n by (simp add: unread_def available_def Data_def)
    ultimately show ?thesis by blast
  next
    case True
    define b2 where "b2 = (if cur_data_size ?b1 \<noteq> 0
      then ?b1\<lparr>buf := write_at 0 (take (cur_data_size ?b1) (Data ?b1)) (buf ?b1)\<rparr> else ?b1)"
    have "Forward n b = Ret ((snd (ReadMore b2))\<lparr>cur_offset := 0\<rparr>)"
      using True n n' ne by (simp add: Forward_def Let_def b2_def)
    moreover have b2: "cur_data_size b2 = ?k" "input_stream b2 = input_stream b"
        "kBufferSize \<le> length (buf b2)"
      using inv n by (auto simp: b2_def buffer_inv_def write_at_def Data_def)
    moreover have "take ?k (buf b2) = take ?k (drop (cur_offset b + n) (buf b))"
      using inv n by (auto simp: b2_def buffer_inv_def write_at_def Data_def)
    ultimately show ?thesis
      using ReadMore_correct [of b2] True inv unfolding drop_n by (auto simp: buffer_inv_def)
  qed
qed

lemma Empty_iff: "buffer_inv b \<Longrightarrow> Empty b \<longleftrightarrow> unread b = []"
  using length_available [of b]
  by (auto simp: Empty_def buffer_inv_def unread_def kRefillThreshold_def)

section \<open>The buffer as a source of bytes\<close>

text \<open>libavformat asks for 4096 bytes at a time, the size of the buffer it was given.\<close>

definition buf_sz :: nat where "buf_sz = 4096"

definition next_packet :: "'b input_buffer \<Rightarrow> ('b list \<times> 'b input_buffer) outcome" where
  "next_packet b = omap (\<lambda>(bytes, b'). (case bytes of None \<Rightarrow> [] | Some bs \<Rightarrow> bs, b')) (io_read buf_sz b)"

lemma next_packet_delivers:
  assumes "buffer_inv b" "\<not> Empty b"
  shows "\<exists>c b'. next_packet b = Ret (c, b') \<and> c \<noteq> [] \<and> length c \<le> buf_sz \<and>
    unread b = c @ unread b' \<and> buffer_inv b'"
proof -
  let ?n = "min (cur_data_size b) buf_sz"
  obtain b' where b': "Forward ?n b = Ret b'" "buffer_inv b'" "unread b' = drop ?n (unread b)"
    using Forward_correct [OF assms(1) _ assms(2), of ?n] by auto
  have "cur_data_size b \<noteq> 0"
    using assms by (auto simp: Empty_def buffer_inv_def kRefillThreshold_def)
  moreover have c: "take ?n (Data b) = take ?n (unread b)"
    using length_available [OF assms(1)] by (simp add: unread_def available_def)
  moreover have "length (unread b) \<ge> cur_data_size b"
    using length_available [OF assms(1)] by (simp add: unread_def)
  ultimately have "take ?n (Data b) \<noteq> []" by (auto simp: buf_sz_def)
  moreover have "next_packet b = Ret (take ?n (Data b), b')"
    using assms(2) b'(1) by (simp add: next_packet_def io_read_def Let_def)
  moreover have "unread b = take ?n (Data b) @ unread b'" using b'(3) c by simp
  ultimately show ?thesis using b'(2)
    by (intro exI [of _ "take ?n (Data b)"] exI [of _ b']) auto
qed

interpretation packets: chunk_source "\<lambda>b. \<not> Empty b" next_packet unread buffer_inv buf_sz
proof unfold_locales
  show "(\<not> Empty b) = (unread b \<noteq> [])" if "buffer_inv b" for b :: "'b input_buffer"
    using Empty_iff [OF that] by blast
  show "\<exists>c b'. next_packet b = Ret (c, b') \<and> c \<noteq> [] \<and> length c \<le> buf_sz \<and>
      unread b = c @ unread b' \<and> buffer_inv b'" if "buffer_inv b" "\<not> Empty b" for b :: "'b input_buffer"
    using next_packet_delivers [OF that] .
qed

text \<open>
  C28. The demuxer sees the input exactly once and in order: over any content that is not empty, the
  constructor succeeds whatever the uninitialised array holds, and reading through the callback
  until it reports end of file, which it does after at most one call per byte, yields the content.
  Over empty content the constructor throws.
\<close>

theorem input_buffer_delivers:
  assumes "length garbage = kBufferSize + padding" and "length contents < n"
  shows "if contents = [] then InputBuffer garbage contents = Throw (Av_error ''Unexpected EOF'')
    else \<exists>b b'. InputBuffer garbage contents = Ret b \<and>
      chunk_loop (\<lambda>b. \<not> Empty b) next_packet (\<lambda>c _ acc. Ret (acc @ c)) n b [] =
        Some (Ret (b', contents)) \<and> io_read buf_sz b' = Ret (None, b')"
proof (cases "contents = []")
  case True
  then show ?thesis using InputBuffer_correct [OF assms(1), of contents] by simp
next
  case False
  then obtain b where b: "InputBuffer garbage contents = Ret b" "buffer_inv b" "unread b = contents"
    using InputBuffer_correct [OF assms(1), of contents] by auto
  from packets.loop_collects [OF b(2), of n] b(3) assms(2) obtain b' where
    "chunk_loop (\<lambda>b. \<not> Empty b) next_packet (\<lambda>c _ acc. Ret (acc @ c)) n b [] =
        Some (Ret (b', contents))" "Empty b'"
    by auto
  with b(1) False show ?thesis by (simp add: io_read_def)
qed

theorem input_buffer_delivers_witness:
  "\<exists>b b'. InputBuffer (replicate (kBufferSize + 64) (0::nat)) [1, 2, 3] = Ret b \<and>
     chunk_loop (\<lambda>b. \<not> Empty b) next_packet (\<lambda>c _ acc. Ret (acc @ c)) 4 b [] = Some (Ret (b', [1, 2, 3])) \<and>
     io_read buf_sz b' = Ret (None, b')"
  using input_buffer_delivers [of "replicate (kBufferSize + 64) (0::nat)" 64 "[1, 2, 3]" 4] by simp

end
