(* ===== verification/Av_Wrapper.thy ===== *)
theory Av_Wrapper
  imports Audio Input_Buffer
begin

text \<open>
  \<open>src/audio/ffmpeg-wrapper.h\<close> and \<open>ffmpeg-wrapper.cc\<close>: the calls into libav and libswresample with
  their error conversion, the codec enumeration, the sample converter, and the decoding loop of
  \<open>Decoder\<close>. The libraries are the record \<open>av_lib\<close> of functions over their own state \<open>'d\<close> (every
  context, and the input they were opened on): what the code calls, with the arguments it passes.
  A pointer that such a call may leave null is an \<open>option\<close> or a \<open>bool\<close>.
\<close>

section \<open>Codecs\<close>

datatype codec =
    KUnknown | KMp3 | KFlac | KMulaw | KAlaw | KAmrNb | KAmrWb | KOpus | KMpeg4

datatype av_codec_id =
    AV_CODEC_ID_MP3 | AV_CODEC_ID_FLAC | AV_CODEC_ID_PCM_MULAW | AV_CODEC_ID_PCM_ALAW
  | AV_CODEC_ID_AMR_NB | AV_CODEC_ID_AMR_WB | AV_CODEC_ID_OPUS | AV_CODEC_ID_MPEG4
  | AV_CODEC_ID_other int

fun CodecCast :: "codec \<Rightarrow> av_codec_id outcome" where
  "CodecCast KMp3 = Ret AV_CODEC_ID_MP3"
| "CodecCast KFlac = Ret AV_CODEC_ID_FLAC"
| "CodecCast KMulaw = Ret AV_CODEC_ID_PCM_MULAW"
| "CodecCast KAlaw = Ret AV_CODEC_ID_PCM_ALAW"
| "CodecCast KAmrNb = Ret AV_CODEC_ID_AMR_NB"
| "CodecCast KAmrWb = Ret AV_CODEC_ID_AMR_WB"
| "CodecCast KOpus = Ret AV_CODEC_ID_OPUS"
| "CodecCast KMpeg4 = Ret AV_CODEC_ID_MPEG4"
| "CodecCast KUnknown = Throw (Av_error ''Unknown codec'')"

fun CodecCastFromAv :: "av_codec_id \<Rightarrow> codec outcome" where
  "CodecCastFromAv AV_CODEC_ID_MP3 = Ret KMp3"
| "CodecCastFromAv AV_CODEC_ID_FLAC = Ret KFlac"
| "CodecCastFromAv AV_CODEC_ID_PCM_MULAW = Ret KMulaw"
| "CodecCastFromAv AV_CODEC_ID_PCM_ALAW = Ret KAlaw"
| "CodecCastFromAv AV_CODEC_ID_AMR_NB = Ret KAmrNb"
| "CodecCastFromAv AV_CODEC_ID_AMR_WB = Ret KAmrWb"
| "CodecCastFromAv AV_CODEC_ID_OPUS = Ret KOpus"
| "CodecCastFromAv AV_CODEC_ID_MPEG4 = Ret KMpeg4"
| "CodecCastFromAv (AV_CODEC_ID_other i) = Throw (Av_error ''Unknown/unsupported AVCodecID'')"

text \<open>
  The two overloads of \<open>CodecCast\<close> are partial inverses of each other: one maps a codec to a
  library id exactly when the other maps the id back to the codec.
\<close>

theorem CodecCast_inverse: "CodecCast c = Ret i \<longleftrightarrow> CodecCastFromAv i = Ret c"
  by (cases c; cases i) simp_all

section \<open>Packets, frames and the libraries\<close>

record av_packet =
  pkt_size :: int
  pkt_data :: "string option"
  stream_index :: int

text \<open>\<open>planes\<close> are the buffers behind \<open>data[0]\<close>, \<open>data[1]\<close>, and so on.\<close>

record av_frame =
  channel_layout :: int
  sample_format :: int
  sample_rate :: int
  nb_samples :: int
  channels :: int
  planes :: "string list"

record 'd av_lib =
  av_strerror :: "int \<Rightarrow> bool"
  av_get_bytes_per_sample :: "int \<Rightarrow> int"
  avcodec_find_decoder :: "av_codec_id \<Rightarrow> 'd \<Rightarrow> 'd option"
  avcodec_alloc_context3 :: "'d \<Rightarrow> 'd option"
  avcodec_open2 :: "'d \<Rightarrow> int \<times> 'd"
  avcodec_parameters_to_context :: "int \<Rightarrow> 'd \<Rightarrow> int \<times> 'd"
  av_parser_init :: "av_codec_id \<Rightarrow> 'd \<Rightarrow> 'd option"
  avformat_open_input :: "'d \<Rightarrow> int \<times> 'd"
  avformat_find_stream_info :: "'d \<Rightarrow> int \<times> 'd"
  av_find_best_stream :: "'d \<Rightarrow> int \<times> 'd"
  avio_open2 :: "string \<Rightarrow> 'd \<Rightarrow> int \<times> 'd option"
  av_duration :: "'d \<Rightarrow> int"
  av_read_frame :: "'d \<Rightarrow> int \<times> av_packet \<times> 'd"
  avcodec_send_packet :: "av_packet option \<Rightarrow> 'd \<Rightarrow> int \<times> 'd"
  avcodec_receive_frame :: "'d \<Rightarrow> int \<times> av_frame \<times> 'd"
  swr_alloc_set_opts :: "av_frame \<Rightarrow> av_frame \<Rightarrow> 'd \<Rightarrow> 'd option"
  swr_init :: "'d \<Rightarrow> int \<times> 'd"
  swr_is_initialized :: "'d \<Rightarrow> int"
  swr_convert_frame :: "av_frame option \<Rightarrow> 'd \<Rightarrow> int \<times> av_frame \<times> 'd"
  av_parser_parse2 :: "string option \<Rightarrow> 'd \<Rightarrow> int \<times> (int \<times> string option) \<times> 'd"

definition AVERROR_EOF :: int where "AVERROR_EOF = - 541478725"
definition AVERROR_EAGAIN :: int where "AVERROR_EAGAIN = - 11"

section \<open>Calls with error conversion\<close>

text \<open>
  The constructor of \<open>AvLibraryError\<close> looks the message up, and throws another exception itself
  when the library has none.
\<close>

definition AvLibraryError :: "'d av_lib \<Rightarrow> int \<Rightarrow> exn" where
  "AvLibraryError lib errnum =
     (if \<not> av_strerror lib errnum
      then Runtime_error ''Exception AvError constructed with unknown AVERROR ''
      else Av_library_error errnum)"

definition Call :: "string \<Rightarrow> 'a option \<Rightarrow> 'a outcome" where
  "Call err_msg thing = (case thing of None \<Rightarrow> Throw (Av_error err_msg) | Some t \<Rightarrow> Ret t)"

text \<open>The result of the library call is the pair of its return value and what it wrote.\<close>

definition CallRet2 :: "'d av_lib \<Rightarrow> int list \<Rightarrow> int \<times> 'x \<Rightarrow> (int \<times> 'x) outcome" where
  "CallRet2 lib normal_flow_errors res =
     (let ret = fst res in
      if ret < 0 \<and> \<not> list_ex (\<lambda>i. i = ret) normal_flow_errors then Throw (AvLibraryError lib ret)
      else Ret res)"

definition CallRet :: "'d av_lib \<Rightarrow> int \<times> 'x \<Rightarrow> (int \<times> 'x) outcome" where
  "CallRet lib res = CallRet2 lib [] res"

definition CallRetEof :: "'d av_lib \<Rightarrow> int \<times> 'x \<Rightarrow> (int \<times> 'x) outcome" where
  "CallRetEof lib res = CallRet2 lib [AVERROR_EOF] res"

lemma CallRet_nonneg [simp]: "0 \<le> ret \<Longrightarrow> CallRet lib (ret, x) = Ret (ret, x)"
  by (simp add: CallRet_def CallRet2_def)

lemma CallRet_neg [simp]: "ret < 0 \<Longrightarrow> CallRet lib (ret, x) = Throw (AvLibraryError lib ret)"
  by (simp add: CallRet_def CallRet2_def)

lemma CallRet_Ret: "CallRet lib res = Ret r \<longleftrightarrow> 0 \<le> fst res \<and> r = res"
  by (auto simp: CallRet_def CallRet2_def Let_def)

section \<open>Codec contexts\<close>

definition unknown_av :: string where "unknown_av = ''Unknown libavcodec error''"

text \<open>The constructor that finds the decoder of a known codec.\<close>

definition CodecContext_of_codec :: "'d av_lib \<Rightarrow> codec \<Rightarrow> 'd \<Rightarrow> 'd outcome" where
  "CodecContext_of_codec lib codec d =
     obind (CodecCast codec) (\<lambda>cid.
     obind (Call unknown_av (avcodec_find_decoder lib cid d)) (\<lambda>d1.
     obind (Call unknown_av (avcodec_alloc_context3 lib d1)) (\<lambda>d2.
     omap snd (CallRet lib (avcodec_open2 lib d2)))))"

text \<open>The constructor for the codec of a stream, whose parameters are those of the stream's index.\<close>

definition CodecContext_of_stream :: "'d av_lib \<Rightarrow> int \<Rightarrow> 'd \<Rightarrow> 'd outcome" where
  "CodecContext_of_stream lib stream d =
     obind (Call unknown_av (avcodec_alloc_context3 lib d)) (\<lambda>d1.
     obind (CallRet lib (avcodec_parameters_to_context lib stream d1)) (\<lambda>(_, d2).
     omap snd (CallRet lib (avcodec_open2 lib d2))))"

definition Parser :: "'d av_lib \<Rightarrow> codec \<Rightarrow> 'd \<Rightarrow> 'd outcome" where
  "Parser lib codec d =
     obind (CodecContext_of_codec lib codec d) (\<lambda>d1.
     obind (CodecCast codec) (\<lambda>cid. Call ''AVParser init failure.'' (av_parser_init lib cid d1)))"

text \<open>The bytes given to the parser, or \<open>None\<close> for a null pointer; it sets the packet's data and size.\<close>

definition DataSize :: "'b input_buffer \<Rightarrow> nat" where
  "DataSize b = cur_data_size b"

definition ParserParse ::
    "'d av_lib \<Rightarrow> av_packet \<Rightarrow> char input_buffer \<Rightarrow> 'd \<Rightarrow> (av_packet \<times> char input_buffer \<times> 'd) outcome" where
  "ParserParse lib pkt inbuf d =
     (if Empty inbuf then Fault Assertion_failed
      else obind (CallRet lib (av_parser_parse2 lib (Some (take (DataSize inbuf) (Data inbuf))) d))
        (\<lambda>(n_used, (sz, dat), d1).
        omap (\<lambda>b. (pkt\<lparr>pkt_size := sz, pkt_data := dat\<rparr>, b, d1)) (Forward (nat n_used) inbuf)))"

definition ParserFlush :: "'d av_lib \<Rightarrow> av_packet \<Rightarrow> 'd \<Rightarrow> (av_packet \<times> 'd) outcome" where
  "ParserFlush lib pkt d =
     obind (CallRet lib (av_parser_parse2 lib None d)) (\<lambda>(n_used, (sz, dat), d1).
     if n_used \<noteq> 0 then Fault Assertion_failed else Ret (pkt\<lparr>pkt_size := sz, pkt_data := dat\<rparr>, d1))"

text \<open>A parser that uses no more than it is given takes the next bytes of the input off the buffer.\<close>

lemma ParserParse_consumes:
  assumes "buffer_inv inbuf" "\<not> Empty inbuf"
    and "av_parser_parse2 lib (Some (available inbuf)) d = (n_used, x, d1)"
    and "n_used \<le> int (length (available inbuf))"
  shows "if n_used < 0 then ParserParse lib pkt inbuf d = Throw (AvLibraryError lib n_used)
    else \<exists>b. ParserParse lib pkt inbuf d = Ret (pkt\<lparr>pkt_size := fst x, pkt_data := snd x\<rparr>, b, d1) \<and>
      buffer_inv b \<and> unread b = drop (nat n_used) (unread inbuf)"
proof -
  have "take (DataSize inbuf) (Data inbuf) = available inbuf" by (simp add: DataSize_def available_def)
  moreover have "nat n_used \<le> cur_data_size inbuf" using assms(4) length_available [OF assms(1)] by simp
  ultimately show ?thesis
    using assms Forward_correct [OF assms(1) _ assms(2), of "nat n_used"]
    by (cases x) (auto simp: ParserParse_def)
qed

section \<open>Sample conversion\<close>

record sample_converter =
  out_template :: av_frame
  swr_ctx :: bool

definition AV_CH_LAYOUT_MONO :: int where "AV_CH_LAYOUT_MONO = 4"
definition AV_SAMPLE_FMT_S16 :: int where "AV_SAMPLE_FMT_S16 = 1"

definition SampleConverter :: "int \<Rightarrow> sample_converter" where
  "SampleConverter sample_rate_hertz =
     \<lparr>out_template = \<lparr>channel_layout = AV_CH_LAYOUT_MONO, sample_format = AV_SAMPLE_FMT_S16,
        sample_rate = sample_rate_hertz, nb_samples = 9254797, channels = 0, planes = []\<rparr>,
      swr_ctx = False\<rparr>"

text \<open>\<open>Init\<close>: the context is set before \<open>swr_init\<close> is called.\<close>

definition SampleConverter_Init ::
    "'d av_lib \<Rightarrow> sample_converter \<Rightarrow> av_frame \<Rightarrow> 'd \<Rightarrow> (sample_converter \<times> 'd) outcome" where
  "SampleConverter_Init lib sc in_frame d =
     obind (Call ''Failed to alloc SwrContext'' (swr_alloc_set_opts lib (out_template sc) in_frame d))
       (\<lambda>d1. omap (\<lambda>(_, d2). (sc\<lparr>swr_ctx := True\<rparr>, d2)) (CallRet lib (swr_init lib d1)))"

definition IsInitialized :: "'d av_lib \<Rightarrow> sample_converter \<Rightarrow> 'd \<Rightarrow> bool outcome" where
  "IsInitialized lib sc d =
     (if \<not> swr_ctx sc then Ret False
      else omap (\<lambda>(ret, _). 0 < ret) (CallRet lib (swr_is_initialized lib d, ())))"

text \<open>\<open>Convert\<close> with a frame, \<open>Flush\<close> with a null frame; both need the context.\<close>

definition swr_convert ::
    "'d av_lib \<Rightarrow> sample_converter \<Rightarrow> av_frame option \<Rightarrow> 'd \<Rightarrow> (av_frame \<times> 'd) outcome" where
  "swr_convert lib sc frame d =
     (if \<not> swr_ctx sc then Fault Null_dereference
      else omap snd (CallRet lib (swr_convert_frame lib frame d)))"

definition Convert :: "'d av_lib \<Rightarrow> sample_converter \<Rightarrow> av_frame \<Rightarrow> 'd \<Rightarrow> (av_frame \<times> 'd) outcome" where
  "Convert lib sc frame d = swr_convert lib sc (Some frame) d"

definition FlushConverter :: "'d av_lib \<Rightarrow> sample_converter \<Rightarrow> 'd \<Rightarrow> (av_frame \<times> 'd) outcome" where
  "FlushConverter lib sc d = swr_convert lib sc None d"

section \<open>Writing a frame\<close>

definition frame_bytes :: "av_frame \<Rightarrow> nat \<Rightarrow> nat \<Rightarrow> nat \<Rightarrow> string outcome" where
  "frame_bytes f sample_size i ch =
     (if length (planes f) \<le> ch then Fault Null_dereference
      else let plane = planes f ! ch in
        if length plane < sample_size * i + sample_size then Fault Index_out_of_bounds
        else Ret (take sample_size (drop (sample_size * i) plane)))"

definition WriteFrame :: "'d av_lib \<Rightarrow> av_frame \<Rightarrow> string \<Rightarrow> string outcome" where
  "WriteFrame lib f os =
     obind (CallRet lib (av_get_bytes_per_sample lib (sample_format f), ())) (\<lambda>(sample_size, _).
     omap (\<lambda>rows. os @ concat (map concat rows))
       (otraverse (\<lambda>i. otraverse (frame_bytes f (nat sample_size) i) [0..<nat (channels f)])
         [0..<nat (nb_samples f)]))"

text \<open>A mono frame of signed 16-bit samples, the format the converter was set up for.\<close>

definition s16_frame :: "av_frame \<Rightarrow> int list \<Rightarrow> bool" where
  "s16_frame f xs \<longleftrightarrow>
     sample_format f = AV_SAMPLE_FMT_S16 \<and> channels f = 1 \<and> nb_samples f = int (length xs) \<and>
     (\<exists>padding. planes f = [concat (map bytes_of_sample xs) @ padding])"

lemma length_concat_samples [simp]: "length (concat (map bytes_of_sample xs)) = 2 * length xs"
  by (induction xs) simp_all

lemma concat_sample_slices:
  "concat (map (\<lambda>i. take 2 (drop (2 * i) (concat (map bytes_of_sample xs) @ padding)))
     [0..<length xs]) = concat (map bytes_of_sample xs)"
proof (induction xs arbitrary: padding rule: rev_induct)
  case (snoc x xs)
  have "take 2 (drop (2 * length xs) (concat (map bytes_of_sample (xs @ [x])) @ padding)) =
      bytes_of_sample x"
    by simp
  with snoc [of "bytes_of_sample x @ padding"] show ?case
    by (simp only: append_assoc concat_append map_append length_append_singleton upt_Suc
        le0 if_True list.map concat.simps append_Nil2)
qed simp

lemma WriteFrame_s16:
  assumes "s16_frame f xs" and "av_get_bytes_per_sample lib AV_SAMPLE_FMT_S16 = 2"
  shows "WriteFrame lib f os = Ret (os @ concat (map bytes_of_sample xs))"
proof -
  obtain padding where p: "planes f = [concat (map bytes_of_sample xs) @ padding]"
    using assms(1) by (auto simp: s16_frame_def)
  let ?row = "\<lambda>i. take 2 (drop (2 * i) (concat (map bytes_of_sample xs) @ padding))"
  have "otraverse (\<lambda>i. otraverse (frame_bytes f 2 i) [0..<1]) [0..<length xs] =
      Ret (map (\<lambda>i. [?row i]) [0..<length xs])"
    by (rule otraverse_Ret) (simp add: frame_bytes_def p)
  then show ?thesis
    using assms concat_sample_slices [of xs padding]
    by (simp add: WriteFrame_def s16_frame_def comp_def)
qed

end
