(* ===== verification/Av_Decoder.thy ===== *)
theory Av_Decoder
  imports Av_Wrapper
begin

text \<open>
  The two decoders of \<open>src/audio/ffmpeg-wrapper.h\<close>, \<open>Decoder\<close> on a byte stream and
  \<open>IoContextDecoder\<close> on a URL, over the shared \<open>PartialDecodeImpl\<close>, and \<open>CodedBytesToWaveVector\<close> of
  \<open>src/audio/audio.cc\<close> that drives the first. A loop that asks a library for more until it says
  stop has fuel; \<open>None\<close> means that the fuel did not suffice.
\<close>

section \<open>Outcomes with fuel\<close>

fun fbind :: "'a outcome option \<Rightarrow> ('a \<Rightarrow> 'b outcome option) \<Rightarrow> 'b outcome option" where
  "fbind None f = None"
| "fbind (Some (Ret x)) f = f x"
| "fbind (Some (Throw e)) f = Some (Throw e)"
| "fbind (Some (Fault b)) f = Some (Fault b)"

section \<open>Decoding a packet\<close>

record 'd av_decoder =
  dec_lib :: 'd
  packet :: av_packet
  converter :: sample_converter
  total_packet_size :: int
  audio_stream_index :: int

definition ensure_initialized ::
    "'d av_lib \<Rightarrow> sample_converter \<Rightarrow> av_frame \<Rightarrow> 'd \<Rightarrow> (sample_converter \<times> 'd) outcome" where
  "ensure_initialized lib sc frame d =
     obind (IsInitialized lib sc d) (\<lambda>initialized.
     if \<not> initialized then SampleConverter_Init lib sc frame d else Ret (sc, d))"

definition decode_frame ::
    "'d av_lib \<Rightarrow> 'd av_decoder \<Rightarrow> av_frame \<Rightarrow> string \<Rightarrow> ('d av_decoder \<times> string) outcome" where
  "decode_frame lib dec frame os =
     obind (ensure_initialized lib (converter dec) frame (dec_lib dec)) (\<lambda>(sc, d1).
     obind (Convert lib sc frame d1) (\<lambda>(out_frame, d2).
     omap (Pair (dec\<lparr>dec_lib := d2, converter := sc\<rparr>)) (WriteFrame lib out_frame os)))"

fun receive_frames ::
    "'d av_lib \<Rightarrow> nat \<Rightarrow> 'd av_decoder \<Rightarrow> string \<Rightarrow> ('d av_decoder \<times> string) outcome option" where
  "receive_frames lib 0 dec os = None"
| "receive_frames lib (Suc n) dec os =
     fbind (Some (CallRet2 lib [AVERROR_EOF, AVERROR_EAGAIN] (avcodec_receive_frame lib (dec_lib dec))))
       (\<lambda>(ret, frame, d).
         let dec1 = dec\<lparr>dec_lib := d\<rparr> in
         if ret = AVERROR_EOF \<or> ret = AVERROR_EAGAIN then Some (Ret (dec1, os))
         else fbind (Some (decode_frame lib dec1 frame os)) (\<lambda>(dec2, os2). receive_frames lib n dec2 os2))"

fun flush_frames ::
    "'d av_lib \<Rightarrow> nat \<Rightarrow> 'd av_decoder \<Rightarrow> string \<Rightarrow> ('d av_decoder \<times> string) outcome option" where
  "flush_frames lib 0 dec os = None"
| "flush_frames lib (Suc n) dec os =
     fbind (Some (FlushConverter lib (converter dec) (dec_lib dec))) (\<lambda>(out_frame, d).
       let dec1 = dec\<lparr>dec_lib := d\<rparr> in
       if nb_samples out_frame = 0 then Some (Ret (dec1, os))
       else fbind (Some (WriteFrame lib out_frame os)) (flush_frames lib n dec1))"

definition PartialDecodeImpl ::
    "'d av_lib \<Rightarrow> nat \<Rightarrow> bool \<Rightarrow> 'd av_decoder \<Rightarrow> string \<Rightarrow> ('d av_decoder \<times> string) outcome option" where
  "PartialDecodeImpl lib fuel flush dec os =
     (if \<not> flush \<and> stream_index (packet dec) \<noteq> audio_stream_index dec then Some (Ret (dec, os))
      else
        fbind (Some (CallRet lib (avcodec_send_packet lib (if flush then None else Some (packet dec))
          (dec_lib dec)))) (\<lambda>(pkt_ret, d).
        let dec1 = dec\<lparr>dec_lib := d\<rparr> in
        if pkt_ret = AVERROR_EAGAIN \<or> pkt_ret = AVERROR_EOF then Some (Ret (dec1, os))
        else
          fbind (receive_frames lib fuel dec1 os) (\<lambda>(dec2, os2).
          if flush then flush_frames lib fuel dec2 os2 else Some (Ret (dec2, os2)))))"

section \<open>Decoder\<close>

text \<open>
  The members are constructed in the order of their declaration: the input buffer (which reads the
  stream, and throws when it is empty) before the parser and its codec context. \<open>env\<close> is the state
  of the libraries with an I/O context on that buffer.
\<close>

definition empty_packet :: av_packet where
  "empty_packet = \<lparr>pkt_size = 0, pkt_data = None, stream_index = 0\<rparr>"

definition open_stream :: "'d av_lib \<Rightarrow> codec \<Rightarrow> 'd \<Rightarrow> (int \<times> 'd) outcome" where
  "open_stream lib codec d =
     obind (Parser lib codec d) (\<lambda>d1.
     obind (CallRet lib (avformat_open_input lib d1)) (\<lambda>(_, d2).
     obind (CallRet lib (avformat_find_stream_info lib d2)) (\<lambda>(_, d3).
     CallRet lib (av_find_best_stream lib d3))))"

definition Decoder ::
    "'d av_lib \<Rightarrow> (char input_buffer \<Rightarrow> 'd) \<Rightarrow> string \<Rightarrow> codec \<Rightarrow> string \<Rightarrow> int \<Rightarrow> 'd av_decoder outcome" where
  "Decoder lib env garbage codec is_bytes target_sample_rate_hertz =
     obind (InputBuffer garbage is_bytes) (\<lambda>inbuf.
     omap (\<lambda>(stream, d). \<lparr>dec_lib = d, packet = empty_packet,
         converter = SampleConverter target_sample_rate_hertz, total_packet_size = 0,
         audio_stream_index = stream\<rparr>)
       (open_stream lib codec (env inbuf)))"

definition PartialDecode ::
    "'d av_lib \<Rightarrow> nat \<Rightarrow> 'd av_decoder \<Rightarrow> string \<Rightarrow> (bool \<times> 'd av_decoder \<times> string) outcome option" where
  "PartialDecode lib fuel dec os =
     fbind (Some (CallRetEof lib (av_read_frame lib (dec_lib dec)))) (\<lambda>(ret, pkt, d).
       let dec1 = dec\<lparr>dec_lib := d, packet := pkt\<rparr> in
       fbind (if 0 < pkt_size pkt
              then PartialDecodeImpl lib fuel False
                     (dec1\<lparr>total_packet_size := total_packet_size dec1 + pkt_size pkt\<rparr>) os
              else Some (Ret (dec1, os)))
         (\<lambda>(dec2, os2). Some (Ret (ret \<noteq> AVERROR_EOF, dec2, os2))))"

definition Flush ::
    "'d av_lib \<Rightarrow> nat \<Rightarrow> 'd av_decoder \<Rightarrow> string \<Rightarrow> ('d av_decoder \<times> string) outcome option" where
  "Flush lib fuel dec os = PartialDecodeImpl lib fuel True dec os"

text \<open>\<open>while (decoder.PartialDecode()) {}\<close>\<close>

fun decode_all ::
    "'d av_lib \<Rightarrow> nat \<Rightarrow> nat \<Rightarrow> 'd av_decoder \<Rightarrow> string \<Rightarrow> ('d av_decoder \<times> string) outcome option" where
  "decode_all lib fuel 0 dec os = None"
| "decode_all lib fuel (Suc n) dec os =
     fbind (PartialDecode lib fuel dec os) (\<lambda>(more, dec1, os1).
       if more then decode_all lib fuel n dec1 os1 else Some (Ret (dec1, os1)))"

definition codec_of_encoding :: "audio_encoding \<Rightarrow> codec outcome" where
  "codec_of_encoding encoding =
     (case encoding of
        AE_MP3 \<Rightarrow> Ret KMp3
      | AE_FLAC \<Rightarrow> Ret KFlac
      | _ \<Rightarrow> Throw (Runtime_error ''Unsupported or unspecified AudioEncoding''))"

definition CodedBytesToWaveVector ::
    "'d av_lib \<Rightarrow> (char input_buffer \<Rightarrow> 'd) \<Rightarrow> string \<Rightarrow> nat \<Rightarrow> audio_encoding \<Rightarrow> string \<Rightarrow> int \<Rightarrow>
     waveform outcome option" where
  "CodedBytesToWaveVector lib env garbage fuel encoding bytes target_sample_rate_hertz =
     fbind (Some (codec_of_encoding encoding)) (\<lambda>codec.
     fbind (Some (Decoder lib env garbage codec bytes target_sample_rate_hertz)) (\<lambda>decoder.
     fbind (decode_all lib fuel fuel decoder []) (\<lambda>(dec1, out1).
     fbind (Flush lib fuel dec1 out1) (\<lambda>(_, out2).
     Some (Linear16BytesToWaveVector out2)))))"

definition Mp3BytesToWaveVector ::
    "'d av_lib \<Rightarrow> (char input_buffer \<Rightarrow> 'd) \<Rightarrow> string \<Rightarrow> nat \<Rightarrow> string \<Rightarrow> int \<Rightarrow> waveform outcome option" where
  "Mp3BytesToWaveVector lib env garbage fuel bytes target_sample_rate_hertz =
     CodedBytesToWaveVector lib env garbage fuel AE_MP3 bytes target_sample_rate_hertz"

section \<open>Refinement of a decoding session\<close>

text \<open>
  What a session on some input amounts to: the packets the demuxer has left with the frames each
  decodes to, the frames ready to be received and those the decoder holds back until it is drained,
  and the samples the resampler holds back. The three contracts say, in terms of it, what the
  documentation of the libraries promises of the calls; \<open>conv\<close> gives the samples that the resampler
  emits for a frame after the frames it was given before, \<open>ss_past\<close>.
\<close>

record session =
  ss_unread :: "(av_packet \<times> av_frame list) list"
  ss_current :: "av_packet \<times> av_frame list"
  ss_ready :: "av_frame list"
  ss_delayed :: "av_frame list"
  ss_past :: "av_frame list"
  ss_swr :: bool
  ss_residue :: "int list list"

definition demuxer_contract :: "'d av_lib \<Rightarrow> ('d \<Rightarrow> session \<Rightarrow> bool) \<Rightarrow> bool" where
  "demuxer_contract lib R \<longleftrightarrow>
     (\<forall>d s. R d s \<longrightarrow>
       (case ss_unread s of
          [] \<Rightarrow> (\<exists>pkt d'. av_read_frame lib d = (AVERROR_EOF, pkt, d') \<and> pkt_size pkt = 0 \<and> R d' s)
        | (pkt, frames) # ps \<Rightarrow> 0 < pkt_size pkt \<and>
            (\<exists>d'. av_read_frame lib d = (0, pkt, d') \<and>
               R d' (s\<lparr>ss_unread := ps, ss_current := (pkt, frames)\<rparr>))))"

definition codec_contract :: "'d av_lib \<Rightarrow> ('d \<Rightarrow> session \<Rightarrow> bool) \<Rightarrow> bool" where
  "codec_contract lib R \<longleftrightarrow>
     (\<forall>d s. R d s \<and> ss_ready s = [] \<longrightarrow>
        (\<exists>d'. avcodec_send_packet lib (Some (fst (ss_current s))) d = (0, d') \<and>
           R d' (s\<lparr>ss_ready := snd (ss_current s)\<rparr>)) \<and>
        (\<exists>d'. avcodec_send_packet lib None d = (0, d') \<and>
           R d' (s\<lparr>ss_ready := ss_delayed s, ss_delayed := []\<rparr>)) \<and>
        (\<exists>ret f d'. avcodec_receive_frame lib d = (ret, f, d') \<and>
           (ret = AVERROR_EAGAIN \<or> ret = AVERROR_EOF) \<and> R d' s)) \<and>
     (\<forall>d s f fs. R d s \<and> ss_ready s = f # fs \<longrightarrow>
        (\<exists>d'. avcodec_receive_frame lib d = (0, f, d') \<and> R d' (s\<lparr>ss_ready := fs\<rparr>)))"

definition resampler_contract ::
    "'d av_lib \<Rightarrow> (av_frame list \<Rightarrow> av_frame \<Rightarrow> int list) \<Rightarrow> ('d \<Rightarrow> session \<Rightarrow> bool) \<Rightarrow> bool" where
  "resampler_contract lib conv R \<longleftrightarrow>
     av_get_bytes_per_sample lib AV_SAMPLE_FMT_S16 = 2 \<and>
     (\<forall>d s out frame. R d s \<and> \<not> ss_swr s \<longrightarrow>
        (\<exists>d1 d2. swr_alloc_set_opts lib out frame d = Some d1 \<and> swr_init lib d1 = (0, d2) \<and>
           R d2 (s\<lparr>ss_swr := True\<rparr>))) \<and>
     (\<forall>d s. R d s \<and> ss_swr s \<longrightarrow> 0 < swr_is_initialized lib d \<and>
        (\<forall>frame. \<exists>out d'. swr_convert_frame lib (Some frame) d = (0, out, d') \<and>
           s16_frame out (conv (ss_past s) frame) \<and> R d' (s\<lparr>ss_past := ss_past s @ [frame]\<rparr>)) \<and>
        (\<exists>out d'. swr_convert_frame lib None d = (0, out, d') \<and>
           (case ss_residue s of
              [] \<Rightarrow> nb_samples out = 0 \<and> R d' s
            | xs # xss \<Rightarrow> xs \<noteq> [] \<and> s16_frame out xs \<and> R d' (s\<lparr>ss_residue := xss\<rparr>))))"

fun resampled :: "(av_frame list \<Rightarrow> av_frame \<Rightarrow> int list) \<Rightarrow> av_frame list \<Rightarrow> av_frame list \<Rightarrow> int list" where
  "resampled conv past [] = []"
| "resampled conv past (f # fs) = conv past f @ resampled conv (past @ [f]) fs"

lemma resampled_append [simp]:
  "resampled conv past (fs @ gs) = resampled conv past fs @ resampled conv (past @ fs) gs"
  by (induction fs arbitrary: past) simp_all

definition pcm :: "int list \<Rightarrow> string" where
  "pcm xs = concat (map bytes_of_sample xs)"

lemma pcm_append [simp]: "pcm (xs @ ys) = pcm xs @ pcm ys" "pcm [] = []"
  by (simp_all add: pcm_def)

text \<open>The decoder and the session it is in.\<close>

definition in_session :: "('d \<Rightarrow> session \<Rightarrow> bool) \<Rightarrow> 'd av_decoder \<Rightarrow> session \<Rightarrow> bool" where
  "in_session R dec s \<longleftrightarrow> R (dec_lib dec) s \<and> swr_ctx (converter dec) = ss_swr s"

lemma session_same [simp]:
  "ss_swr s \<Longrightarrow> s\<lparr>ss_swr := True\<rparr> = s" "ss_ready s = [] \<Longrightarrow> s\<lparr>ss_ready := []\<rparr> = s"
  "s\<lparr>ss_swr := b, ss_ready := r\<rparr> = s\<lparr>ss_ready := r, ss_swr := b\<rparr>"
  "s\<lparr>ss_past := p, ss_ready := r\<rparr> = s\<lparr>ss_ready := r, ss_past := p\<rparr>"
  "s\<lparr>ss_past := p, ss_swr := b\<rparr> = s\<lparr>ss_swr := b, ss_past := p\<rparr>"
  for s :: session
  by (cases s; simp)+

lemma ensure_initialized_session:
  assumes "resampler_contract lib conv R" "R d s" "swr_ctx sc = ss_swr s"
  shows "\<exists>sc' d'. ensure_initialized lib sc frame d = Ret (sc', d') \<and> swr_ctx sc' \<and>
    R d' (s\<lparr>ss_swr := True\<rparr>)"
proof (cases "ss_swr s")
  case True
  then have "0 < swr_is_initialized lib d"
    using assms unfolding resampler_contract_def by auto
  with True assms show ?thesis by (simp add: ensure_initialized_def IsInitialized_def)
next
  case False
  then obtain d1 d2 where "swr_alloc_set_opts lib (out_template sc) frame d = Some d1"
      "swr_init lib d1 = (0, d2)" "R d2 (s\<lparr>ss_swr := True\<rparr>)"
    using assms unfolding resampler_contract_def by meson
  with False show ?thesis
    using assms by (simp add: ensure_initialized_def IsInitialized_def SampleConverter_Init_def Call_def)
qed

lemma convert_session:
  assumes "resampler_contract lib conv R" "R d s" "ss_swr s"
  shows "\<exists>out d'. swr_convert_frame lib (Some frame) d = (0, out, d') \<and>
    s16_frame out (conv (ss_past s) frame) \<and> R d' (s\<lparr>ss_past := ss_past s @ [frame]\<rparr>)"
  using assms unfolding resampler_contract_def by meson

lemma flush_session:
  assumes "resampler_contract lib conv R" "R d s" "ss_swr s"
  obtains out d' where "swr_convert_frame lib None d = (0, out, d')"
    "case ss_residue s of [] \<Rightarrow> nb_samples out = 0 \<and> R d' s
       | xs # xss \<Rightarrow> xs \<noteq> [] \<and> s16_frame out xs \<and> R d' (s\<lparr>ss_residue := xss\<rparr>)"
  using assms unfolding resampler_contract_def by meson

lemma WriteFrame_session:
  "resampler_contract lib conv R \<Longrightarrow> s16_frame out xs \<Longrightarrow> WriteFrame lib out os = Ret (os @ pcm xs)"
  unfolding pcm_def by (rule WriteFrame_s16) (simp_all add: resampler_contract_def)

lemma read_packet_session:
  assumes "demuxer_contract lib R" "R d s" "ss_unread s = (p, fs) # ps"
  obtains d' where "0 < pkt_size p" "av_read_frame lib d = (0, p, d')"
    "R d' (s\<lparr>ss_unread := ps, ss_current := (p, fs)\<rparr>)"
  using assms(1) [unfolded demuxer_contract_def, rule_format, OF assms(2)] assms(3) by auto

lemma read_eof_session:
  assumes "demuxer_contract lib R" "R d s" "ss_unread s = []"
  obtains pkt d' where "av_read_frame lib d = (AVERROR_EOF, pkt, d')" "pkt_size pkt = 0" "R d' s"
  using assms(1) [unfolded demuxer_contract_def, rule_format, OF assms(2)] assms(3) by auto

lemma send_packet_session:
  assumes "codec_contract lib R" "R d s" "ss_ready s = []"
  obtains d' where "avcodec_send_packet lib (Some (fst (ss_current s))) d = (0, d')"
    "R d' (s\<lparr>ss_ready := snd (ss_current s)\<rparr>)"
  using assms(1) [unfolded codec_contract_def, THEN conjunct1, rule_format, OF conjI, OF assms(2,3)]
  by blast

lemma drain_session:
  assumes "codec_contract lib R" "R d s" "ss_ready s = []"
  obtains d' where "avcodec_send_packet lib None d = (0, d')"
    "R d' (s\<lparr>ss_ready := ss_delayed s, ss_delayed := []\<rparr>)"
  using assms(1) [unfolded codec_contract_def, THEN conjunct1, rule_format, OF conjI, OF assms(2,3)]
  by blast

lemma decode_frame_session:
  assumes "resampler_contract lib conv R" "in_session R dec s"
  shows "\<exists>dec'. decode_frame lib dec frame os = Ret (dec', os @ pcm (conv (ss_past s) frame)) \<and>
    in_session R dec' (s\<lparr>ss_swr := True, ss_past := ss_past s @ [frame]\<rparr>) \<and>
    audio_stream_index dec' = audio_stream_index dec \<and> packet dec' = packet dec"
proof -
  obtain sc d1 where init: "ensure_initialized lib (converter dec) frame (dec_lib dec) = Ret (sc, d1)"
      "swr_ctx sc" "R d1 (s\<lparr>ss_swr := True\<rparr>)"
    using ensure_initialized_session [OF assms(1), of "dec_lib dec" s "converter dec" frame] assms(2)
    by (auto simp: in_session_def)
  obtain out d2 where conv: "swr_convert_frame lib (Some frame) d1 = (0, out, d2)"
      "s16_frame out (conv (ss_past s) frame)"
      "R d2 (s\<lparr>ss_swr := True, ss_past := ss_past s @ [frame]\<rparr>)"
    using convert_session [OF assms(1) init(3), of frame] by auto
  show ?thesis
    using init conv WriteFrame_session [OF assms(1) conv(2)]
    by (simp add: decode_frame_def Convert_def swr_convert_def in_session_def)
qed

text \<open>Receiving drains the frames that are ready.\<close>

lemma receive_frames_session:
  assumes "resampler_contract lib conv R" "codec_contract lib R"
  shows "in_session R dec s \<Longrightarrow> length (ss_ready s) < n \<Longrightarrow>
    \<exists>dec'. receive_frames lib n dec os = Some (Ret (dec', os @ pcm (resampled conv (ss_past s) (ss_ready s)))) \<and>
      in_session R dec' (s\<lparr>ss_ready := [], ss_swr := ss_swr s \<or> ss_ready s \<noteq> [],
        ss_past := ss_past s @ ss_ready s\<rparr>) \<and>
      audio_stream_index dec' = audio_stream_index dec \<and> packet dec' = packet dec"
proof (induction n arbitrary: dec s os)
  case (Suc n)
  show ?case
  proof (cases "ss_ready s")
    case Nil
    then obtain ret f d where r: "avcodec_receive_frame lib (dec_lib dec) = (ret, f, d)"
        "ret = AVERROR_EAGAIN \<or> ret = AVERROR_EOF" "R d s"
      using assms(2) Suc.prems(1) unfolding codec_contract_def in_session_def by meson
    moreover have "s\<lparr>ss_ready := [], ss_swr := ss_swr s\<rparr> = s" using Nil by simp
    ultimately show ?thesis
      using Nil Suc.prems(1)
      by (auto simp: CallRet2_def in_session_def AVERROR_EOF_def AVERROR_EAGAIN_def)
  next
    case (Cons f fs)
    then obtain d where r: "avcodec_receive_frame lib (dec_lib dec) = (0, f, d)"
        "R d (s\<lparr>ss_ready := fs\<rparr>)"
      using assms(2) Suc.prems(1) unfolding codec_contract_def in_session_def by meson
    have "in_session R (dec\<lparr>dec_lib := d\<rparr>) (s\<lparr>ss_ready := fs\<rparr>)"
      using r(2) Suc.prems(1) by (simp add: in_session_def)
    from decode_frame_session [OF assms(1) this, of f os] obtain dec1 where dec1:
        "decode_frame lib (dec\<lparr>dec_lib := d\<rparr>) f os = Ret (dec1, os @ pcm (conv (ss_past s) f))"
        "in_session R dec1 (s\<lparr>ss_ready := fs, ss_swr := True, ss_past := ss_past s @ [f]\<rparr>)"
        "audio_stream_index dec1 = audio_stream_index dec" "packet dec1 = packet dec"
      by auto
    from Suc.IH [OF dec1(2), of "os @ pcm (conv (ss_past s) f)"] Suc.prems(2) Cons dec1(3,4) r(1) dec1(1)
    show ?thesis
      by (auto simp: CallRet2_def AVERROR_EOF_def AVERROR_EAGAIN_def)
  qed
qed simp

lemma flush_frames_session:
  assumes "resampler_contract lib conv R"
  shows "in_session R dec s \<Longrightarrow> ss_swr s \<Longrightarrow> length (ss_residue s) < n \<Longrightarrow>
    \<exists>dec'. flush_frames lib n dec os = Some (Ret (dec', os @ pcm (concat (ss_residue s))))"
proof (induction n arbitrary: dec s os)
  case (Suc n)
  obtain out d where r: "swr_convert_frame lib None (dec_lib dec) = (0, out, d)"
      "case ss_residue s of [] \<Rightarrow> nb_samples out = 0 \<and> R d s
         | xs # xss \<Rightarrow> xs \<noteq> [] \<and> s16_frame out xs \<and> R d (s\<lparr>ss_residue := xss\<rparr>)"
    by (rule flush_session [OF assms]) (use Suc.prems(1,2) in \<open>auto simp: in_session_def\<close>)
  have fl: "FlushConverter lib (converter dec) (dec_lib dec) = Ret (out, d)"
    using r(1) Suc.prems(1,2) by (simp add: FlushConverter_def swr_convert_def in_session_def)
  show ?case
  proof (cases "ss_residue s")
    case Nil
    with r(2) fl show ?thesis by simp
  next
    case (Cons xs xss)
    with r(2) have out: "xs \<noteq> []" "s16_frame out xs" "R d (s\<lparr>ss_residue := xss\<rparr>)" by auto
    have "in_session R (dec\<lparr>dec_lib := d\<rparr>) (s\<lparr>ss_residue := xss\<rparr>)"
      using out(3) Suc.prems(1) by (simp add: in_session_def)
    from Suc.IH [OF this, of "os @ pcm xs"] Suc.prems Cons
      WriteFrame_session [OF assms out(2), of os] out(1,2) fl
    show ?thesis by (auto simp: s16_frame_def)
  qed
qed simp

definition of_stream :: "int \<Rightarrow> (av_packet \<times> av_frame list) list \<Rightarrow> av_frame list" where
  "of_stream idx ps = concat (map snd (filter (\<lambda>p. stream_index (fst p) = idx) ps))"

lemma of_stream_simps [simp]:
  "of_stream idx [] = []"
  "of_stream idx (p # ps) = (if stream_index (fst p) = idx then snd p else []) @ of_stream idx ps"
  by (simp_all add: of_stream_def)

lemma PartialDecodeImpl_session:
  assumes "resampler_contract lib conv R" "codec_contract lib R"
    and "in_session R dec s" "ss_ready s = []" "packet dec = fst (ss_current s)"
    and "length (snd (ss_current s)) < fuel"
  defines "frames \<equiv> of_stream (audio_stream_index dec) [ss_current s]"
  shows "\<exists>dec'. PartialDecodeImpl lib fuel False dec os = Some (Ret (dec', os @ pcm (resampled conv (ss_past s) frames))) \<and>
    in_session R dec' (s\<lparr>ss_swr := ss_swr s \<or> frames \<noteq> [], ss_past := ss_past s @ frames\<rparr>) \<and>
    audio_stream_index dec' = audio_stream_index dec"
proof (cases "stream_index (packet dec) = audio_stream_index dec")
  case False
  moreover have "s\<lparr>ss_swr := ss_swr s\<rparr> = s" by simp
  ultimately show ?thesis using assms(3,5) by (simp add: PartialDecodeImpl_def frames_def)
next
  case True
  obtain d where d: "avcodec_send_packet lib (Some (packet dec)) (dec_lib dec) = (0, d)"
      "R d (s\<lparr>ss_ready := snd (ss_current s)\<rparr>)"
    unfolding assms(5)
    by (rule send_packet_session [OF assms(2)]) (use assms(3,4) in \<open>auto simp: in_session_def\<close>)
  have "in_session R (dec\<lparr>dec_lib := d\<rparr>) (s\<lparr>ss_ready := snd (ss_current s)\<rparr>)"
    using d(2) assms(3) by (simp add: in_session_def)
  from receive_frames_session [OF assms(1,2) this, of fuel os] True d(1) assms(4-6) show ?thesis
    by (auto simp: PartialDecodeImpl_def frames_def AVERROR_EOF_def AVERROR_EAGAIN_def)
qed

lemma PartialDecode_session:
  assumes "demuxer_contract lib R" "resampler_contract lib conv R" "codec_contract lib R"
    and "in_session R dec s" "ss_ready s = []" "ss_unread s = (p, fs) # ps" "length fs < fuel"
  defines "frames \<equiv> of_stream (audio_stream_index dec) [(p, fs)]"
  shows "\<exists>dec'. PartialDecode lib fuel dec os =
      Some (Ret (True, dec', os @ pcm (resampled conv (ss_past s) frames))) \<and>
    in_session R dec' (s\<lparr>ss_unread := ps, ss_current := (p, fs), ss_swr := ss_swr s \<or> frames \<noteq> [],
      ss_past := ss_past s @ frames\<rparr>) \<and>
    audio_stream_index dec' = audio_stream_index dec"
proof -
  let ?s = "s\<lparr>ss_unread := ps, ss_current := (p, fs)\<rparr>"
  have "R (dec_lib dec) s" using assms(4) by (simp add: in_session_def)
  then obtain d where d: "0 < pkt_size p" "av_read_frame lib (dec_lib dec) = (0, p, d)" "R d ?s"
    using read_packet_session [OF assms(1) _ assms(6)] by blast
  let ?dec = "dec\<lparr>dec_lib := d, packet := p, total_packet_size := total_packet_size dec + pkt_size p\<rparr>"
  have "in_session R ?dec ?s" using d(3) assms(4) by (simp add: in_session_def)
  from PartialDecodeImpl_session [OF assms(2,3) this, of fuel os] assms(5,7) d(1,2) show ?thesis
    by (auto simp: PartialDecode_def CallRetEof_def CallRet2_def frames_def AVERROR_EOF_def)
qed

text \<open>The loop decodes every packet of the chosen stream, in order.\<close>

lemma decode_all_session:
  assumes "demuxer_contract lib R" "resampler_contract lib conv R" "codec_contract lib R"
  shows "in_session R dec s \<Longrightarrow> ss_ready s = [] \<Longrightarrow> length (ss_unread s) < n \<Longrightarrow>
    list_all (\<lambda>p. length (snd p) < fuel) (ss_unread s) \<Longrightarrow>
    frames = of_stream (audio_stream_index dec) (ss_unread s) \<Longrightarrow>
    \<exists>dec' s'. decode_all lib fuel n dec os = Some (Ret (dec', os @ pcm (resampled conv (ss_past s) frames))) \<and>
      in_session R dec' s' \<and> ss_past s' = ss_past s @ frames \<and> ss_ready s' = [] \<and> ss_delayed s' = ss_delayed s \<and>
      ss_residue s' = ss_residue s \<and> ss_swr s' = (ss_swr s \<or> frames \<noteq> [])"
proof (induction n arbitrary: dec s os frames)
  case (Suc n)
  show ?case
  proof (cases "ss_unread s")
    case Nil
    have "R (dec_lib dec) s" using Suc.prems(1) by (simp add: in_session_def)
    then obtain pkt d where d: "av_read_frame lib (dec_lib dec) = (AVERROR_EOF, pkt, d)"
        "pkt_size pkt = 0" "R d s"
      using read_eof_session [OF assms(1) _ Nil] by blast
    then have "PartialDecode lib fuel dec os = Some (Ret (False, dec\<lparr>dec_lib := d, packet := pkt\<rparr>, os))"
      by (simp add: PartialDecode_def CallRetEof_def CallRet2_def)
    moreover have "in_session R (dec\<lparr>dec_lib := d, packet := pkt\<rparr>) s"
      using d(3) Suc.prems(1) by (simp add: in_session_def)
    ultimately show ?thesis using Nil Suc.prems by auto
  next
    case (Cons pf ps)
    obtain p fs where pf: "pf = (p, fs)" by force
    let ?fs = "of_stream (audio_stream_index dec) [(p, fs)]"
    obtain dec1 where dec1:
        "PartialDecode lib fuel dec os = Some (Ret (True, dec1, os @ pcm (resampled conv (ss_past s) ?fs)))"
        "in_session R dec1 (s\<lparr>ss_unread := ps, ss_current := (p, fs), ss_swr := ss_swr s \<or> ?fs \<noteq> [],
          ss_past := ss_past s @ ?fs\<rparr>)"
        "audio_stream_index dec1 = audio_stream_index dec"
      using PartialDecode_session [OF assms Suc.prems(1,2), of p fs ps fuel os] Cons pf Suc.prems(4)
      by auto
    from Suc.IH [OF dec1(2) _ _ _ refl, of "os @ pcm (resampled conv (ss_past s) ?fs)"] Suc.prems Cons pf
      dec1(1,3)
    show ?thesis by auto
  qed
qed simp

lemma Flush_session:
  assumes "resampler_contract lib conv R" "codec_contract lib R" "in_session R dec s" "ss_ready s = []"
    and "length (ss_delayed s) < fuel" "length (ss_residue s) < fuel"
  shows "\<exists>dec'. Flush lib fuel dec os =
    Some (if ss_swr s \<or> ss_delayed s \<noteq> []
          then Ret (dec', os @ pcm (resampled conv (ss_past s) (ss_delayed s) @ concat (ss_residue s)))
          else Fault Null_dereference)"
proof -
  have "R (dec_lib dec) s" using assms(3) by (simp add: in_session_def)
  then obtain d where d: "avcodec_send_packet lib None (dec_lib dec) = (0, d)"
      "R d (s\<lparr>ss_ready := ss_delayed s, ss_delayed := []\<rparr>)"
    using drain_session [OF assms(2) _ assms(4)] by blast
  have "in_session R (dec\<lparr>dec_lib := d\<rparr>) (s\<lparr>ss_ready := ss_delayed s, ss_delayed := []\<rparr>)"
    using d(2) assms(3) by (simp add: in_session_def)
  from receive_frames_session [OF assms(1,2) this, of fuel os] assms(5) obtain dec1 where dec1:
      "receive_frames lib fuel (dec\<lparr>dec_lib := d\<rparr>) os =
        Some (Ret (dec1, os @ pcm (resampled conv (ss_past s) (ss_delayed s))))"
      "in_session R dec1 (s\<lparr>ss_delayed := [], ss_ready := [], ss_swr := ss_swr s \<or> ss_delayed s \<noteq> [],
        ss_past := ss_past s @ ss_delayed s\<rparr>)"
    by auto
  obtain k where k: "fuel = Suc k" using assms(6) by (cases fuel) auto
  have Flush: "Flush lib fuel dec os =
      flush_frames lib fuel dec1 (os @ pcm (resampled conv (ss_past s) (ss_delayed s)))"
    using d(1) dec1(1) by (simp add: Flush_def PartialDecodeImpl_def AVERROR_EOF_def AVERROR_EAGAIN_def)
  show ?thesis
  proof (cases "ss_swr s \<or> ss_delayed s \<noteq> []")
    case True
    then show ?thesis
      using flush_frames_session [OF assms(1) dec1(2), of fuel "os @ pcm (resampled conv (ss_past s) (ss_delayed s))"]
        assms(6) unfolding Flush by auto
  next
    case False
    then show ?thesis
      using dec1(2) unfolding Flush by (simp add: k FlushConverter_def swr_convert_def in_session_def)
  qed
qed

text \<open>
  The session that opening the stream leads to, the buffer still holding every byte of the input.
\<close>

definition opens_session ::
    "'d av_lib \<Rightarrow> (char input_buffer \<Rightarrow> 'd) \<Rightarrow> codec \<Rightarrow> string \<Rightarrow> ('d \<Rightarrow> session \<Rightarrow> bool) \<Rightarrow> int \<Rightarrow> session \<Rightarrow> bool" where
  "opens_session lib env codec bytes R idx s \<longleftrightarrow>
     (\<forall>inbuf. buffer_inv inbuf \<and> unread inbuf = bytes \<longrightarrow>
        (\<exists>d. open_stream lib codec (env inbuf) = Ret (idx, d) \<and> R d s)) \<and>
     ss_ready s = [] \<and> ss_past s = [] \<and> \<not> ss_swr s"

definition int16_samples :: "int list \<Rightarrow> bool" where
  "int16_samples xs \<longleftrightarrow> (\<forall>x \<in> set xs. - (2 ^ 15) \<le> x \<and> x < 2 ^ 15)"

definition enough_fuel :: "nat \<Rightarrow> session \<Rightarrow> bool" where
  "enough_fuel fuel s \<longleftrightarrow> length (ss_unread s) < fuel \<and> list_all (\<lambda>p. length (snd p) < fuel) (ss_unread s) \<and>
     length (ss_delayed s) < fuel \<and> length (ss_residue s) < fuel"

lemma coded_bytes_session:
  assumes "demuxer_contract lib R" "codec_contract lib R" "resampler_contract lib conv R"
    and "codec_of_encoding encoding = Ret codec" "opens_session lib env codec bytes R idx s"
    and "bytes \<noteq> []" "length garbage = kBufferSize + padding" "enough_fuel fuel s"
    and "samples = resampled conv [] (of_stream idx (ss_unread s) @ ss_delayed s) @ concat (ss_residue s)"
    and "int16_samples samples"
  shows "CodedBytesToWaveVector lib env garbage fuel encoding bytes rate =
    Some (if of_stream idx (ss_unread s) @ ss_delayed s = [] then Fault Null_dereference
          else Ret (map of_int samples))"
proof -
  let ?frames = "of_stream idx (ss_unread s)"
  obtain b where b: "InputBuffer garbage bytes = Ret b" "buffer_inv b" "unread b = bytes"
    using InputBuffer_correct [OF assms(7), of bytes] assms(6) by auto
  obtain d where d: "open_stream lib codec (env b) = Ret (idx, d)" "R d s"
    using assms(5) b unfolding opens_session_def by blast
  define dec where "dec = \<lparr>dec_lib = d, packet = empty_packet, converter = SampleConverter rate,
    total_packet_size = 0, audio_stream_index = idx\<rparr>"
  have Decoder: "Decoder lib env garbage codec bytes rate = Ret dec"
    by (simp add: Decoder_def b d dec_def)
  have "in_session R dec s"
    using d assms(5) by (simp add: in_session_def dec_def SampleConverter_def opens_session_def)
  from decode_all_session [OF assms(1,3,2) this, of fuel fuel ?frames "[]"] assms(5,8) obtain dec1 s1 where
    dec1: "decode_all lib fuel fuel dec [] = Some (Ret (dec1, pcm (resampled conv [] ?frames)))"
      "in_session R dec1 s1" "ss_ready s1 = []" "ss_delayed s1 = ss_delayed s"
      "ss_residue s1 = ss_residue s" "ss_swr s1 = (?frames \<noteq> [])" "ss_past s1 = ?frames"
    by (auto simp: enough_fuel_def opens_session_def dec_def)
  have "length (ss_delayed s1) < fuel" "length (ss_residue s1) < fuel"
    using assms(8) dec1(4,5) by (simp_all add: enough_fuel_def)
  from Flush_session [OF assms(3,2) dec1(2,3) this, of "pcm (resampled conv [] ?frames)"]
  obtain dec2 where "Flush lib fuel dec1 (pcm (resampled conv [] ?frames)) =
      Some (if ss_swr s1 \<or> ss_delayed s1 \<noteq> []
            then Ret (dec2, pcm (resampled conv [] ?frames) @
              pcm (resampled conv (ss_past s1) (ss_delayed s1) @ concat (ss_residue s1)))
            else Fault Null_dereference)"
    by blast
  then have Flush: "Flush lib fuel dec1 (pcm (resampled conv [] ?frames)) =
      Some (if ?frames @ ss_delayed s = [] then Fault Null_dereference else Ret (dec2, pcm samples))"
    using dec1(4-7) by (simp add: assms(9))
  have "Linear16BytesToWaveVector (pcm samples) = Ret (map of_int samples)"
    using linear16_bytes_of_samples [of samples] assms(10)
    by (simp add: Linear16BytesToWaveVector_Ret pcm_def int16_samples_def)
  then show ?thesis
    using assms(4) Decoder dec1(1) Flush by (simp add: CodedBytesToWaveVector_def)
qed


text \<open>
  Coded content that is empty makes the constructor of the input buffer throw an \<open>AvError\<close>, which
  is not the \<open>AvLibraryError\<close> of a failing library call; an encoding other than MP3 and FLAC is
  refused before any byte is read.
\<close>

lemma coded_bytes_empty:
  "codec_of_encoding encoding = Ret codec \<Longrightarrow>
     CodedBytesToWaveVector lib env garbage fuel encoding [] rate = Some (Throw (Av_error ''Unexpected EOF''))"
  by (simp add: CodedBytesToWaveVector_def Decoder_def InputBuffer_def ReadMore_def istream_read_def
      Let_def)

section \<open>A scripted library\<close>

text \<open>
  Libraries whose state is the session itself: the contracts can be met. A frame converts to its
  position in the stream and \<open>-2\<close>.
\<close>

definition out_of :: "int list \<Rightarrow> av_frame" where
  "out_of xs = \<lparr>channel_layout = AV_CH_LAYOUT_MONO, sample_format = AV_SAMPLE_FMT_S16,
     sample_rate = 16000, nb_samples = int (length xs), channels = 1, planes = [pcm xs]\<rparr>"

definition scripted :: "session av_lib" where
  "scripted = \<lparr>av_strerror = \<lambda>_. True, av_get_bytes_per_sample = \<lambda>_. 2,
     avcodec_find_decoder = \<lambda>_. Some, avcodec_alloc_context3 = Some,
     avcodec_open2 = Pair 0, avcodec_parameters_to_context = \<lambda>_. Pair 0,
     av_parser_init = \<lambda>_. Some, avformat_open_input = Pair 0,
     avformat_find_stream_info = Pair 0, av_find_best_stream = Pair 1, avio_open2 = \<lambda>_ s. (0, Some s),
     av_duration = \<lambda>_. 0,
     av_read_frame = \<lambda>s. (case ss_unread s of [] \<Rightarrow> (AVERROR_EOF, empty_packet, s)
       | p # ps \<Rightarrow> (0, fst p, s\<lparr>ss_unread := ps, ss_current := p\<rparr>)),
     avcodec_send_packet = \<lambda>p s. (case p of
         None \<Rightarrow> (0, s\<lparr>ss_ready := ss_delayed s, ss_delayed := []\<rparr>)
       | Some _ \<Rightarrow> (0, s\<lparr>ss_ready := snd (ss_current s)\<rparr>)),
     avcodec_receive_frame = \<lambda>s. (case ss_ready s of [] \<Rightarrow> (AVERROR_EAGAIN, out_of [], s)
       | f # fs \<Rightarrow> (0, f, s\<lparr>ss_ready := fs\<rparr>)),
     swr_alloc_set_opts = \<lambda>_ _. Some, swr_init = \<lambda>s. (0, s\<lparr>ss_swr := True\<rparr>),
     swr_is_initialized = \<lambda>_. 1,
     swr_convert_frame = \<lambda>f s. (case f of Some _ \<Rightarrow> (0, out_of [int (length (ss_past s)), -2], s\<lparr>ss_past := ss_past s @ [the f]\<rparr>)
       | None \<Rightarrow> (case ss_residue s of [] \<Rightarrow> (0, out_of [], s)
           | xs # xss \<Rightarrow> (0, out_of xs, s\<lparr>ss_residue := xss\<rparr>))),
     av_parser_parse2 = \<lambda>_ s. (0, (0, None), s)\<rparr>"

definition scripted_rel :: "session \<Rightarrow> session \<Rightarrow> bool" where
  "scripted_rel d s \<longleftrightarrow> d = s \<and> list_all (\<lambda>p. 0 < pkt_size (fst p)) (ss_unread s) \<and>
     list_all (\<lambda>xs. xs \<noteq> []) (ss_residue s)"

lemma s16_out_of: "s16_frame (out_of xs) xs"
  by (simp add: s16_frame_def out_of_def pcm_def)

lemma scripted_contracts:
  "demuxer_contract scripted scripted_rel" "codec_contract scripted scripted_rel"
  "resampler_contract scripted (\<lambda>past _. [int (length past), -2]) scripted_rel"
    apply (auto simp: demuxer_contract_def scripted_def scripted_rel_def empty_packet_def split: list.split)[1]
   apply (auto simp: codec_contract_def scripted_def scripted_rel_def)[1]
  apply (auto simp: resampler_contract_def scripted_def scripted_rel_def s16_out_of split: list.split)[1]
  apply (simp add: out_of_def)
  done

definition some_session :: session where
  "some_session =
     (let pkt = \<lparr>pkt_size = 7, pkt_data = Some ''frame'', stream_index = 1\<rparr> in
      \<lparr>ss_unread = [(pkt, [out_of [5]]), (pkt\<lparr>stream_index := 0\<rparr>, [out_of [9]])], ss_current = (pkt, []),
       ss_ready = [], ss_delayed = [out_of [6]], ss_past = [], ss_swr = False, ss_residue = [[3], [4]]\<rparr>)"


end
