(* ===== verification/Av_Url.thy ===== *)
theory Av_Url
  imports Av_Decoder
begin

text \<open>
  \<open>UrlIoContext\<close> and \<open>IoContextDecoder\<close> of \<open>src/audio/ffmpeg-wrapper.h\<close>, the decoder of the URL
  audio sources. It shares \<open>PartialDecodeImpl\<close> with \<open>Decoder\<close> but treats the return value of
  \<open>av_read_frame\<close> differently.
\<close>

text \<open>\<open>avio_open2\<close> returns an error code and leaves the pointer of the context, perhaps null.\<close>

definition UrlIoContext :: "'d av_lib \<Rightarrow> string \<Rightarrow> 'd \<Rightarrow> 'd outcome" where
  "UrlIoContext lib url d =
     obind (CallRet lib (avio_open2 lib url d))
       (\<lambda>(_, ptr). Call ''Could not read URL resource.'' ptr)"

text \<open>The lambda of the constructor that opens the format and makes the codec context.\<close>

definition open_codec_context :: "'d av_lib \<Rightarrow> codec \<Rightarrow> 'd \<Rightarrow> (int \<times> 'd) outcome" where
  "open_codec_context lib codec d =
     obind (CallRet lib (avformat_open_input lib d)) (\<lambda>(_, d1).
     obind (CallRet lib (avformat_find_stream_info lib d1)) (\<lambda>(_, d2).
     obind (CallRet lib (av_find_best_stream lib d2)) (\<lambda>(stream, d3).
     omap (Pair stream)
       (if codec \<noteq> KUnknown then CodecContext_of_codec lib codec d3
        else CodecContext_of_stream lib stream d3))))"

definition IoContextDecoder :: "'d av_lib \<Rightarrow> codec \<Rightarrow> 'd \<Rightarrow> int \<Rightarrow> 'd av_decoder outcome" where
  "IoContextDecoder lib codec io_ctx target_sample_rate_hertz =
     omap (\<lambda>(stream, d). \<lparr>dec_lib = d, packet = empty_packet,
         converter = SampleConverter target_sample_rate_hertz, total_packet_size = 0,
         audio_stream_index = stream\<rparr>)
       (open_codec_context lib codec io_ctx)"

definition IoPartialDecode ::
    "'d av_lib \<Rightarrow> nat \<Rightarrow> 'd av_decoder \<Rightarrow> string \<Rightarrow> (bool \<times> 'd av_decoder \<times> string) outcome option" where
  "IoPartialDecode lib fuel dec os =
     fbind (Some (CallRet2 lib [AVERROR_EOF, AVERROR_EAGAIN] (av_read_frame lib (dec_lib dec))))
       (\<lambda>(ret, pkt, d).
         let dec1 = dec\<lparr>dec_lib := d, packet := pkt\<rparr> in
         fbind (if 0 < pkt_size pkt \<and> pkt_data pkt \<noteq> None
                then PartialDecodeImpl lib fuel False
                       (dec1\<lparr>total_packet_size := total_packet_size dec1 + pkt_size pkt\<rparr>) os
                else Some (Ret (dec1, os)))
           (\<lambda>(dec2, os2).
             let dec3 = dec2\<lparr>packet := empty_packet\<rparr> in
             Some (Ret (if ret = AVERROR_EAGAIN then (True, dec3, os2) else (ret = 0, dec3, os2)))))"

definition IoFlush ::
    "'d av_lib \<Rightarrow> nat \<Rightarrow> 'd av_decoder \<Rightarrow> string \<Rightarrow> ('d av_decoder \<times> string) outcome option" where
  "IoFlush lib fuel dec os = PartialDecodeImpl lib fuel True dec os"

text \<open>
  The duration in microseconds is taken as an unsigned 64-bit number and cut to milliseconds.
\<close>

definition Duration :: "'d av_lib \<Rightarrow> 'd av_decoder \<Rightarrow> int" where
  "Duration lib dec = uint (word_of_int (av_duration lib (dec_lib dec)) :: 64 word) div 1000"

section \<open>Output only grows\<close>

text \<open>
  Whatever the libraries do, a decoding call that returns has appended to the output stream.
\<close>

lemma WriteFrame_appends: "WriteFrame lib f os = Ret os' \<Longrightarrow> \<exists>bytes. os' = os @ bytes"
  by (auto simp: WriteFrame_def outcome_simps)

lemma decode_frame_appends:
  "decode_frame lib dec f os = Ret (dec', os') \<Longrightarrow> \<exists>bytes. os' = os @ bytes"
  by (auto simp: decode_frame_def outcome_simps dest: WriteFrame_appends)

lemma fbind_Ret: "fbind m f = Some (Ret y) \<longleftrightarrow> (\<exists>x. m = Some (Ret x) \<and> f x = Some (Ret y))"
  by (cases "(m, f)" rule: fbind.cases) auto

lemma receive_frames_appends:
  "receive_frames lib n dec os = Some (Ret (dec', os')) \<Longrightarrow> \<exists>bytes. os' = os @ bytes"
proof (induction n arbitrary: dec os)
  case (Suc n)
  then obtain ret f d where r: "CallRet2 lib [AVERROR_EOF, AVERROR_EAGAIN]
      (avcodec_receive_frame lib (dec_lib dec)) = Ret (ret, f, d)"
    by (auto simp: fbind_Ret)
  show ?case
  proof (cases "ret = AVERROR_EOF \<or> ret = AVERROR_EAGAIN")
    case True
    with Suc.prems r show ?thesis by simp
  next
    case False
    with Suc.prems r obtain dec1 os1 where
      "decode_frame lib (dec\<lparr>dec_lib := d\<rparr>) f os = Ret (dec1, os1)"
      "receive_frames lib n dec1 os1 = Some (Ret (dec', os'))"
      by (auto simp: fbind_Ret)
    with Suc.IH decode_frame_appends show ?thesis by (metis append_assoc)
  qed
qed simp

lemma flush_frames_appends:
  "flush_frames lib n dec os = Some (Ret (dec', os')) \<Longrightarrow> \<exists>bytes. os' = os @ bytes"
proof (induction n arbitrary: dec os)
  case (Suc n)
  then obtain f d where r: "FlushConverter lib (converter dec) (dec_lib dec) = Ret (f, d)"
    by (auto simp: fbind_Ret)
  show ?case
  proof (cases "nb_samples f = 0")
    case True
    with Suc.prems r show ?thesis by simp
  next
    case False
    with Suc.prems r obtain os1 where "WriteFrame lib f os = Ret os1"
      "flush_frames lib n (dec\<lparr>dec_lib := d\<rparr>) os1 = Some (Ret (dec', os'))"
      by (auto simp: fbind_Ret)
    with Suc.IH WriteFrame_appends show ?thesis by (metis append_assoc)
  qed
qed simp

lemma PartialDecodeImpl_appends:
  assumes "PartialDecodeImpl lib fuel flush dec os = Some (Ret (dec', os'))"
  shows "\<exists>bytes. os' = os @ bytes"
proof (cases "\<not> flush \<and> stream_index (packet dec) \<noteq> audio_stream_index dec")
  case True
  with assms show ?thesis by (simp add: PartialDecodeImpl_def)
next
  case False
  with assms obtain ret d where
    "CallRet lib (avcodec_send_packet lib (if flush then None else Some (packet dec)) (dec_lib dec)) = Ret (ret, d)"
    by (auto simp: PartialDecodeImpl_def fbind_Ret)
  with False assms consider "os' = os"
    | dec2 os2 where "receive_frames lib fuel (dec\<lparr>dec_lib := d\<rparr>) os = Some (Ret (dec2, os2))"
        "(if flush then flush_frames lib fuel dec2 os2 else Some (Ret (dec2, os2))) = Some (Ret (dec', os'))"
    by (auto simp: PartialDecodeImpl_def fbind_Ret Let_def split: if_split_asm)
  then show ?thesis
  proof cases
    case 2
    then show ?thesis
      using receive_frames_appends [OF 2(1)] by (auto split: if_split_asm dest: flush_frames_appends)
  qed simp
qed

text \<open>
  A packet the codec does not take, even because it is full (\<open>EAGAIN\<close>) or drained (\<open>EOF\<close>), is an
  exception: the guard that follows the call in \<open>PartialDecodeImpl\<close> is never true.
\<close>

lemma send_packet_refused:
  assumes "stream_index (packet dec) = audio_stream_index dec"
    and "avcodec_send_packet lib (Some (packet dec)) (dec_lib dec) = (ret, d)" and "ret < 0"
  shows "PartialDecodeImpl lib fuel False dec os = Some (Throw (AvLibraryError lib ret))"
  using assms by (simp add: PartialDecodeImpl_def)

text \<open>
  \<open>IoContextDecoder::PartialDecode\<close> reports the end of its input, and so ends every loop over
  it, exactly when the demuxer does not ask to be called again and does not deliver with return
  value 0; the output is only ever appended to, by libraries of any behaviour.
\<close>

theorem IoPartialDecode_result:
  assumes "IoPartialDecode lib fuel dec os = Some (Ret (again, dec', os'))"
  shows "(again \<longleftrightarrow> fst (av_read_frame lib (dec_lib dec)) \<in> {0, AVERROR_EAGAIN}) \<and>
    (\<exists>bytes. os' = os @ bytes)"
proof -
  obtain ret pkt d where read: "av_read_frame lib (dec_lib dec) = (ret, pkt, d)"
    by (metis prod_cases3)
  with assms obtain dec1 os1 where
    "(if 0 < pkt_size pkt \<and> pkt_data pkt \<noteq> None
      then PartialDecodeImpl lib fuel False (dec\<lparr>dec_lib := d, packet := pkt,
             total_packet_size := total_packet_size dec + pkt_size pkt\<rparr>) os
      else Some (Ret (dec\<lparr>dec_lib := d, packet := pkt\<rparr>, os))) = Some (Ret (dec1, os1))"
    "again = (ret = AVERROR_EAGAIN \<or> ret = 0)" "os' = os1"
    by (auto simp: IoPartialDecode_def fbind_Ret CallRet2_def Let_def AVERROR_EAGAIN_def split: if_splits)
  with read show ?thesis by (auto split: if_splits dest: PartialDecodeImpl_appends)
qed

theorem IoPartialDecode_result_witness:
  "\<exists>dec'. IoPartialDecode scripted 5 \<lparr>dec_lib = some_session\<lparr>ss_unread := tl (ss_unread some_session)\<rparr>,
       packet = empty_packet, converter = SampleConverter 16000, total_packet_size = 0,
       audio_stream_index = 1\<rparr> ''ab'' = Some (Ret (True, dec', ''ab'')) \<and>
     (\<exists>bytes. ''ab'' = ''ab'' @ bytes)"
proof -
  let ?dec = "\<lparr>dec_lib = some_session\<lparr>ss_unread := tl (ss_unread some_session)\<rparr>,
       packet = empty_packet, converter = SampleConverter 16000, total_packet_size = 0,
       audio_stream_index = 1\<rparr>"
  obtain dec' where "IoPartialDecode scripted 5 ?dec ''ab'' = Some (Ret (True, dec', ''ab''))"
    by (simp add: IoPartialDecode_def CallRet2_def PartialDecodeImpl_def scripted_def some_session_def Let_def)
  with IoPartialDecode_result [OF this] show ?thesis by blast
qed

end
