(* ===== verification/Audio_Source.thy ===== *)
theory Audio_Source
  imports Av_Url Text_Utils
begin

text \<open>
  The in-memory audio sources of \<open>src/audio/audio-source.h\<close> and \<open>audio-source.cc\<close>:
  \<open>ContentAudioSource\<close>, which decodes bytes at construction, and \<open>FileAudioSource\<close>, which loads its
  file at \<open>Open\<close>. Both hand out views of at most 400 samples and are chunk sources of the shared
  contract.
\<close>

datatype source_type = KNoType | KContent | KUri

record audio_source_info =
  info_type :: source_type
  info_encoding :: audio_encoding
  info_sample_rate_hertz :: int

text \<open>
  \<open>VectorBase::Range\<close>: Kaldi asserts that the view lies inside the vector.
\<close>

definition Range :: "waveform \<Rightarrow> int \<Rightarrow> int \<Rightarrow> waveform outcome" where
  "Range v origin len =
     (if 0 \<le> origin \<and> 0 \<le> len \<and> origin + len \<le> int (length v)
      then Ret (take (nat len) (drop (nat origin) v)) else Fault Index_out_of_bounds)"

section \<open>Audio content\<close>

record content_source =
  content_seen :: int
  content_data :: waveform
  content_rate :: int

text \<open>Only \<open>AvLibraryError\<close> is turned into an \<open>AudioSourceError\<close>.\<close>

fun catch_av_library :: "'a outcome \<Rightarrow> 'a outcome" where
  "catch_av_library (Throw (Av_library_error e)) =
     Throw (Audio_source_error ''Could not process audio content'')"
| "catch_av_library r = r"

definition ContentAudioSource ::
    "(audio_encoding \<Rightarrow> string \<Rightarrow> int \<Rightarrow> waveform outcome option) \<Rightarrow> resampler \<Rightarrow>
     audio_source_info \<Rightarrow> string \<Rightarrow> int \<Rightarrow> content_source outcome option" where
  "ContentAudioSource coded_bytes resampler info content target_sample_rate =
     map_option (omap (\<lambda>v. \<lparr>content_seen = 0, content_data = v, content_rate = target_sample_rate\<rparr>)
         \<circ> catch_av_library)
       (case info_encoding info of
          AE_LINEAR16 \<Rightarrow>
            Some (omap (\<lambda>v. if info_sample_rate_hertz info \<noteq> target_sample_rate
                   then ResampleWaveForm resampler (of_int (info_sample_rate_hertz info)) v
                          (of_int target_sample_rate)
                   else v)
              (Linear16BytesToWaveVector content))
        | AE_MP3 \<Rightarrow> coded_bytes AE_MP3 content target_sample_rate
        | AE_FLAC \<Rightarrow> coded_bytes AE_FLAC content target_sample_rate
        | _ \<Rightarrow> Some (Throw (Audio_source_error ''Unsupported encoding'')))"

definition chunk_size_in_elem :: int where "chunk_size_in_elem = 400"

definition content_HasMoreChunks :: "content_source \<Rightarrow> bool" where
  "content_HasMoreChunks s \<longleftrightarrow> content_seen s < int (length (content_data s))"

definition content_NextChunk :: "content_source \<Rightarrow> (waveform \<times> content_source) outcome" where
  "content_NextChunk s =
     (let range_idx = content_seen s;
          s' = s\<lparr>content_seen := content_seen s + chunk_size_in_elem\<rparr>;
          len = min chunk_size_in_elem (int (length (content_data s)) - range_idx)
      in omap (\<lambda>c. (c, s')) (Range (content_data s) range_idx len))"

definition content_ChunksSeen :: "content_source \<Rightarrow> int" where
  "content_ChunksSeen s = cdiv (content_seen s) chunk_size_in_elem"

definition content_TotalChunks :: "content_source \<Rightarrow> int" where
  "content_TotalChunks s = cdiv (int (length (content_data s))) chunk_size_in_elem"

definition content_TimePassed :: "content_source \<Rightarrow> int outcome" where
  "content_TimePassed s =
     (if content_rate s = 0 then Fault Division_by_zero
      else Ret (cdiv (1000 * content_seen s) (content_rate s)))"

text \<open>The samples not handed out, and the invariant of the reading position.\<close>

definition content_pending :: "content_source \<Rightarrow> waveform" where
  "content_pending s = drop (nat (content_seen s)) (content_data s)"

definition content_inv :: "content_source \<Rightarrow> bool" where
  "content_inv s \<longleftrightarrow> 0 \<le> content_seen s"

lemma content_next:
  assumes "content_inv s" "content_HasMoreChunks s"
  shows "\<exists>c s'. content_NextChunk s = Ret (c, s') \<and> c \<noteq> [] \<and> length c \<le> 400 \<and>
    content_pending s = c @ content_pending s' \<and> content_inv s'"
proof -
  let ?i = "content_seen s" and ?d = "content_data s"
  let ?len = "min 400 (int (length ?d) - ?i)"
  let ?s = "s\<lparr>content_seen := ?i + 400\<rparr>"
  have i: "0 \<le> ?i" "?i < int (length ?d)"
    using assms by (simp_all add: content_inv_def content_HasMoreChunks_def)
  then have "content_NextChunk s = Ret (take (nat ?len) (drop (nat ?i) ?d), ?s)"
    by (simp add: content_NextChunk_def Range_def chunk_size_in_elem_def Let_def)
  moreover have "take (nat ?len) (drop (nat ?i) ?d) = take 400 (drop (nat ?i) ?d)"
    using i by (cases "400 \<le> int (length ?d) - ?i") (simp_all add: min_def nat_diff_distrib)
  moreover have "content_pending s = take 400 (drop (nat ?i) ?d) @ content_pending ?s"
    using i by (simp add: content_pending_def nat_add_distrib take_drop_chunk)
  moreover have "take 400 (drop (nat ?i) ?d) \<noteq> []" using i by simp
  ultimately show ?thesis using i by (simp add: content_inv_def)
qed

interpretation content_src: chunk_source content_HasMoreChunks content_NextChunk content_pending
  content_inv 400
proof unfold_locales
  show "content_HasMoreChunks s = (content_pending s \<noteq> [])" if "content_inv s" for s
    using that by (auto simp: content_HasMoreChunks_def content_pending_def content_inv_def)
qed (rule content_next)

section \<open>Audio files\<close>

record file_source =
  file_data :: waveform
  file_seen :: int
  file_target_rate :: int
  file_sample_rate :: int
  file_opened :: bool
  file_encoding :: audio_encoding

definition FileAudioSource :: "audio_source_info \<Rightarrow> int \<Rightarrow> file_source outcome" where
  "FileAudioSource info target_sample_rate =
     (case info_encoding info of
        AE_LINEAR16 \<Rightarrow> Ret \<lparr>file_data = [], file_seen = 0, file_target_rate = target_sample_rate,
          file_sample_rate = info_sample_rate_hertz info, file_opened = False, file_encoding = AE_LINEAR16\<rparr>
      | AE_MP3 \<Rightarrow> Ret \<lparr>file_data = [], file_seen = 0, file_target_rate = target_sample_rate,
          file_sample_rate = info_sample_rate_hertz info, file_opened = False, file_encoding = AE_MP3\<rparr>
      | _ \<Rightarrow> Throw (Audio_source_error ''Unsupported encoding for FileAudioSource''))"

text \<open>
  \<open>read_sized contents pos n_bytes\<close> makes a string of \<open>n_bytes\<close> bytes, which throws when the size is
  negative and so beyond \<open>max_size\<close> as a \<open>size_t\<close>, and fills it from position \<open>pos\<close>; coming up
  short sets \<open>failbit\<close> and throws.
\<close>

definition read_sized :: "string \<Rightarrow> nat \<Rightarrow> int \<Rightarrow> string outcome" where
  "read_sized contents pos n_bytes =
     (if n_bytes < 0 then Throw Length_error
      else if length contents < pos + nat n_bytes then Throw Ios_failure
      else Ret (take (nat n_bytes) (drop pos contents)))"

definition std_ios_end :: nat where "std_ios_end = 2"

text \<open>
  \<open>Open\<close>. The one-argument \<open>is.seekg(std::ios::end)\<close> of the coded branch goes to the absolute
  position that the enumerator converts to, not to the end.
\<close>

definition file_Open ::
    "(audio_encoding \<Rightarrow> string \<Rightarrow> int \<Rightarrow> waveform outcome option) \<Rightarrow> resampler \<Rightarrow>
     string option \<Rightarrow> file_source \<Rightarrow> file_source outcome option" where
  "file_Open coded_bytes resampler file s =
     (if file_opened s then Some (Ret s)
      else
        (case file of
           None \<Rightarrow> Some (Throw Ios_failure)
         | Some contents \<Rightarrow>
             map_option (omap (\<lambda>v. s\<lparr>file_data := v, file_opened := True\<rparr>))
               (case file_encoding s of
                  AE_LINEAR16 \<Rightarrow>
                    Some (obind (HasRiffHeader contents) (\<lambda>(has_riff, pos).
                      let data_pos = (if \<not> has_riff then 0 else pos);
                          n_bytes = int (length contents) - int data_pos
                      in obind (read_sized contents data_pos n_bytes) (\<lambda>content.
                         omap (\<lambda>v. if file_sample_rate s \<noteq> file_target_rate s
                                then ResampleWaveForm resampler (of_int (file_sample_rate s)) v
                                       (of_int (file_target_rate s))
                                else v)
                           (Linear16BytesToWaveVector content))))
                | AE_FLAC \<Rightarrow>
                    fbind (Some (read_sized contents std_ios_end (int std_ios_end)))
                      (\<lambda>content. coded_bytes AE_FLAC content (file_target_rate s))
                | AE_MP3 \<Rightarrow>
                    fbind (Some (read_sized contents std_ios_end (int std_ios_end)))
                      (\<lambda>content. coded_bytes AE_MP3 content (file_target_rate s))
                | _ \<Rightarrow> Some (Throw (Logic_error ''Should have been rejected by ctor'')))))"

definition file_Full :: "file_source \<Rightarrow> waveform" where
  "file_Full s = file_data s"

definition file_HasMoreChunks :: "file_source \<Rightarrow> bool" where
  "file_HasMoreChunks s \<longleftrightarrow> file_seen s < int (length (file_data s))"

definition file_NextChunk :: "file_source \<Rightarrow> (waveform \<times> file_source) outcome" where
  "file_NextChunk s =
     (let range_idx = file_seen s;
          len = min chunk_size_in_elem (int (length (file_data s)) - range_idx);
          s' = s\<lparr>file_seen := file_seen s + len\<rparr>
      in omap (\<lambda>c. (c, s')) (Range (file_data s) range_idx len))"

definition file_ChunksSeen :: "file_source \<Rightarrow> int" where
  "file_ChunksSeen s = cdiv (file_seen s) chunk_size_in_elem"

definition file_TotalChunks :: "file_source \<Rightarrow> int" where
  "file_TotalChunks s = cdiv (int (length (file_data s))) chunk_size_in_elem"

definition file_TimePassed :: "file_source \<Rightarrow> int outcome" where
  "file_TimePassed s =
     (if file_target_rate s = 0 then Fault Division_by_zero
      else Ret (cdiv (1000 * file_seen s) (file_target_rate s)))"

definition file_pending :: "file_source \<Rightarrow> waveform" where
  "file_pending s = drop (nat (file_seen s)) (file_data s)"

definition file_inv :: "file_source \<Rightarrow> bool" where
  "file_inv s \<longleftrightarrow> 0 \<le> file_seen s \<and> file_seen s \<le> int (length (file_data s))"

lemma file_next:
  assumes "file_inv s" "file_HasMoreChunks s"
  shows "\<exists>c s'. file_NextChunk s = Ret (c, s') \<and> c \<noteq> [] \<and> length c \<le> 400 \<and>
    file_pending s = c @ file_pending s' \<and> file_inv s'"
proof -
  let ?i = "file_seen s" and ?d = "file_data s"
  let ?len = "min 400 (int (length ?d) - ?i)"
  let ?s = "s\<lparr>file_seen := ?i + ?len\<rparr>" and ?c = "take (nat ?len) (drop (nat ?i) ?d)"
  have i: "0 \<le> ?i" "?i < int (length ?d)"
    using assms by (simp_all add: file_inv_def file_HasMoreChunks_def)
  then have "file_NextChunk s = Ret (?c, ?s)"
    by (simp add: file_NextChunk_def Range_def chunk_size_in_elem_def Let_def)
  moreover have "file_pending s = ?c @ file_pending ?s"
    using i by (simp add: file_pending_def nat_add_distrib take_drop_chunk)
  moreover have "?c \<noteq> []" "length ?c \<le> 400" using i by auto
  moreover have "file_inv ?s" using i by (auto simp: file_inv_def)
  ultimately show ?thesis by blast
qed

interpretation file_src: chunk_source file_HasMoreChunks file_NextChunk file_pending file_inv 400
proof unfold_locales
  show "file_HasMoreChunks s = (file_pending s \<noteq> [])" if "file_inv s" for s
    using that by (auto simp: file_HasMoreChunks_def file_pending_def file_inv_def)
qed (rule file_next)

section \<open>What a source delivers\<close>

text \<open>The consumer of the theorems below collects the samples and counts the calls of \<open>NextChunk\<close>.\<close>

fun collect_count :: "waveform \<Rightarrow> bool \<Rightarrow> waveform \<times> nat \<Rightarrow> (waveform \<times> nat) outcome" where
  "collect_count c is_last (acc, k) = Ret (acc @ c, Suc k)"

lemma consume_collect_count:
  "consume_all collect_count cs (acc, k) = Ret (acc @ concat cs, k + length cs)"
  by (induction cs arbitrary: acc k) simp_all

lemma content_loop_seen:
  "chunk_loop content_HasMoreChunks content_NextChunk collect_count n s (acc, k) = Some (Ret (s', acc', k')) \<Longrightarrow>
   content_seen s' = content_seen s + 400 * (int k' - int k) \<and> k \<le> k'"
proof (induction n arbitrary: s acc k)
  case (Suc n)
  show ?case
  proof (cases "content_HasMoreChunks s")
    case True
    with Suc.prems obtain c t where t: "content_NextChunk s = Ret (c, t)"
        "chunk_loop content_HasMoreChunks content_NextChunk collect_count n t (acc @ c, Suc k) =
           Some (Ret (s', acc', k'))"
      by (auto split: outcome.splits)
    then have "content_seen t = content_seen s + 400"
      by (auto simp: content_NextChunk_def Let_def outcome_simps chunk_size_in_elem_def)
    with Suc.IH [OF t(2)] show ?thesis by simp
  qed (use Suc.prems in simp)
qed simp

lemma content_loop:
  assumes "content_inv s" "length (content_pending s) < n"
  obtains s' k where
    "chunk_loop content_HasMoreChunks content_NextChunk collect_count n s ([], 0) =
       Some (Ret (s', content_pending s, k))"
    "content_seen s' = content_seen s + 400 * int k"
proof -
  from content_src.loop_delivers [OF assms] obtain cs s' where "concat cs = content_pending s"
    and "\<forall>consume (u :: waveform \<times> nat). chunk_loop content_HasMoreChunks content_NextChunk consume n s u =
        Some (omap (Pair s') (consume_all consume cs u))"
    by blast
  then have l: "chunk_loop content_HasMoreChunks content_NextChunk collect_count n s ([], 0) =
      Some (Ret (s', content_pending s, length cs))"
    by (simp add: consume_collect_count)
  with content_loop_seen [OF l] show ?thesis by (intro that [of s' "length cs"]) simp_all
qed

text \<open>
  C29. Audio content in LINEAR16 at the target rate is handed out completely and in order: reading
  \<open>while (HasMoreChunks()) NextChunk()\<close> to the end, which takes at most one call per sample, yields
  every sample of the content once, and \<open>ChunksSeen\<close> is then the number of calls of \<open>NextChunk\<close>,
  as the interface asks.
\<close>

theorem content_source_delivers:
  assumes "length content div 2 < n"
  shows "\<exists>s s' k.
    ContentAudioSource coded_bytes resampler
      \<lparr>info_type = KContent, info_encoding = AE_LINEAR16, info_sample_rate_hertz = rate\<rparr> content rate =
      Some (Ret s) \<and>
    chunk_loop content_HasMoreChunks content_NextChunk collect_count n s ([], 0) =
      Some (Ret (s', linear16 content, k)) \<and> content_ChunksSeen s' = int k"
proof -
  let ?s = "\<lparr>content_seen = 0, content_data = linear16 content, content_rate = rate\<rparr>"
  have "content_inv ?s" "length (content_pending ?s) < n"
    using assms by (simp_all add: content_inv_def content_pending_def)
  then obtain s' k where
    "chunk_loop content_HasMoreChunks content_NextChunk collect_count n ?s ([], 0) =
       Some (Ret (s', content_pending ?s, k))" "content_seen s' = content_seen ?s + 400 * int k"
    by (rule content_loop)
  then show ?thesis
    by (auto simp: ContentAudioSource_def Linear16BytesToWaveVector_Ret content_pending_def
        content_ChunksSeen_def cdiv_nonneg chunk_size_in_elem_def)
qed

theorem content_source_delivers_witness:
  "\<exists>s s' k.
    ContentAudioSource (\<lambda>_ _ _. None) (\<lambda>_ _ _ _ v _. v)
      \<lparr>info_type = KContent, info_encoding = AE_LINEAR16, info_sample_rate_hertz = 16000\<rparr> ''abcd'' 16000 =
      Some (Ret s) \<and>
    chunk_loop content_HasMoreChunks content_NextChunk collect_count 3 s ([], 0) =
      Some (Ret (s', linear16 ''abcd'', k)) \<and> content_ChunksSeen s' = int k"
  using content_source_delivers [of "''abcd''" 3] by simp

text \<open>
  C30. A LINEAR16 file at the target rate: fewer than four bytes make \<open>Open\<close> throw a stream
  failure; a file that starts with \<open>RIFF\<close> but is shorter than its 44-byte header asks for a string
  of negative size and throws \<open>std::length_error\<close>; any other file opens, a second \<open>Open\<close> changes
  nothing, and the chunks read from it are, in order and complete, the samples after the header (or
  all of them when there is none).
\<close>

theorem file_source_delivers:
  assumes "length contents < n"
  shows "\<exists>s. FileAudioSource
      \<lparr>info_type = KUri, info_encoding = AE_LINEAR16, info_sample_rate_hertz = rate\<rparr> rate = Ret s \<and>
    (if length contents < 4 then
       file_Open coded_bytes resampler (Some contents) s = Some (Throw Ios_failure)
     else if take 4 contents = ''RIFF'' \<and> length contents < 44 then
       file_Open coded_bytes resampler (Some contents) s = Some (Throw Length_error)
     else \<exists>s1 s2. file_Open coded_bytes resampler (Some contents) s = Some (Ret s1) \<and>
       file_Open coded_bytes resampler (Some contents) s1 = Some (Ret s1) \<and>
       chunk_loop file_HasMoreChunks file_NextChunk (\<lambda>c _ acc. Ret (acc @ c)) n s1 [] =
         Some (Ret (s2, linear16 (if take 4 contents = ''RIFF'' then drop 44 contents else contents))))"
proof -
  define s where "s = \<lparr>file_data = [], file_seen = 0, file_target_rate = rate, file_sample_rate = rate,
    file_opened = False, file_encoding = AE_LINEAR16\<rparr>"
  let ?data = "if take 4 contents = ''RIFF'' then drop 44 contents else contents"
  let ?s1 = "s\<lparr>file_data := linear16 ?data, file_opened := True\<rparr>"
  have ctor: "FileAudioSource
      \<lparr>info_type = KUri, info_encoding = AE_LINEAR16, info_sample_rate_hertz = rate\<rparr> rate = Ret s"
    by (simp add: FileAudioSource_def s_def)
  have "file_inv ?s1" "length (file_pending ?s1) < n"
    using assms by (auto simp: file_inv_def file_pending_def s_def)
  from file_src.loop_collects [OF this] obtain s2 where
    loop: "chunk_loop file_HasMoreChunks file_NextChunk (\<lambda>c _ acc. Ret (acc @ c)) n ?s1 [] =
      Some (Ret (s2, linear16 ?data))"
    by (auto simp: file_pending_def s_def)
  consider "length contents < 4" | "\<not> length contents < 4" "take 4 contents = ''RIFF''" "length contents < 44"
    | "\<not> length contents < 4" "\<not> (take 4 contents = ''RIFF'' \<and> length contents < 44)"
    by blast
  then show ?thesis
  proof cases
    case 1
    with ctor show ?thesis by (simp add: file_Open_def HasRiffHeader_def s_def)
  next
    case 2
    with ctor show ?thesis by (simp add: file_Open_def HasRiffHeader_def read_sized_def s_def)
  next
    case 3
    then have "file_Open coded_bytes resampler (Some contents) s = Some (Ret ?s1)"
      by (auto simp: file_Open_def HasRiffHeader_def read_sized_def s_def Linear16BytesToWaveVector_Ret
          Let_def nat_diff_distrib)
    moreover have "file_Open coded_bytes resampler (Some contents) ?s1 = Some (Ret ?s1)"
      by (simp add: file_Open_def)
    ultimately show ?thesis using 3 ctor loop by auto
  qed
qed

theorem file_source_delivers_witness:
  "\<exists>s. FileAudioSource
      \<lparr>info_type = KUri, info_encoding = AE_LINEAR16, info_sample_rate_hertz = 16000\<rparr> 16000 = Ret s \<and>
    (\<exists>s1 s2. file_Open (\<lambda>_ _ _. None) (\<lambda>_ _ _ _ v _. v) (Some ''abcdef'') s = Some (Ret s1) \<and>
       file_Open (\<lambda>_ _ _. None) (\<lambda>_ _ _ _ v _. v) (Some ''abcdef'') s1 = Some (Ret s1) \<and>
       chunk_loop file_HasMoreChunks file_NextChunk (\<lambda>c _ acc. Ret (acc @ c)) 7 s1 [] =
         Some (Ret (s2, linear16 ''abcdef'')))"
  using file_source_delivers [of "''abcdef''" 7 16000 "\<lambda>_ _ _. None" "\<lambda>_ _ _ _ v _. v"] by simp

text \<open>
  Opening a coded file of at least four bytes decodes its third and fourth byte only.
\<close>

lemma file_Open_mp3:
  assumes "\<not> file_opened s" "file_encoding s = AE_MP3" "4 \<le> length contents"
  shows "file_Open coded_bytes resampler (Some contents) s =
    map_option (omap (\<lambda>v. s\<lparr>file_data := v, file_opened := True\<rparr>))
      (coded_bytes AE_MP3 (take 2 (drop 2 contents)) (file_target_rate s))"
  using assms by (simp add: file_Open_def read_sized_def std_ios_end_def numeral_2_eq_2)

end
