(* ===== verification/Uri_Source.thy ===== *)
theory Uri_Source
  imports Audio_Source
begin

text \<open>
  The URL audio sources of \<open>audio-source.cc\<close>: \<open>UriAudioSource\<close>, which decodes everything at \<open>Open\<close>,
  and \<open>StreamingUriAudioSource\<close>, which decodes as it is read, and \<open>CreateAudioSourceFromUri\<close>. Both
  put an \<open>IoContextDecoder\<close> in front of a \<open>std::stringstream\<close>.
\<close>

section \<open>Opening\<close>

text \<open>\<open>AvError\<close> and its subclass become an \<open>AudioSourceError\<close>; other exceptions pass.\<close>

fun rethrow_av :: "(int \<Rightarrow> string) \<Rightarrow> 'a outcome \<Rightarrow> 'a outcome" where
  "rethrow_av str_error (Throw (Av_error m)) = Throw (Audio_source_error m)"
| "rethrow_av str_error (Throw (Av_library_error e)) = Throw (Audio_source_error (str_error e))"
| "rethrow_av str_error r = r"

definition uri_codec :: "audio_encoding \<Rightarrow> codec outcome" where
  "uri_codec enc =
     (case enc of
        AE_FLAC \<Rightarrow> Ret KMp3
      | AE_MP3 \<Rightarrow> Ret KMp3
      | _ \<Rightarrow> Throw (Audio_source_error ''UriAudioSource doesn't support this encoding.''))"

definition streaming_codec :: "audio_encoding \<Rightarrow> codec outcome" where
  "streaming_codec enc =
     (case enc of
        AE_FLAC \<Rightarrow> Ret KMp3
      | AE_MP3 \<Rightarrow> Ret KMp3
      | AE_GUESS \<Rightarrow> Ret KUnknown
      | _ \<Rightarrow> Throw (Audio_source_error ''StreamingUriAudioSource doesn't support this encoding.''))"

text \<open>\<open>while (decoder_->PartialDecode(ss_)) ;\<close>\<close>

fun io_decode_all ::
    "'d av_lib \<Rightarrow> nat \<Rightarrow> nat \<Rightarrow> 'd av_decoder \<Rightarrow> string \<Rightarrow> ('d av_decoder \<times> string) outcome option" where
  "io_decode_all lib fuel 0 dec os = None"
| "io_decode_all lib fuel (Suc n) dec os =
     fbind (IoPartialDecode lib fuel dec os) (\<lambda>(again, dec1, os1).
       if again then io_decode_all lib fuel n dec1 os1 else Some (Ret (dec1, os1)))"

section \<open>UriAudioSource\<close>

record 'd uri_source =
  uri_seen :: int
  uri_opened :: bool
  uri_filled :: bool
  uri_ss :: "char istream"
  uri_uri :: string
  uri_source_rate :: int
  uri_encoding :: audio_encoding
  uri_data :: waveform
  uri_subvectors :: "waveform list"
  uri_target_rate :: int
  uri_decoder :: "'d av_decoder option"

definition UriAudioSource :: "audio_source_info \<Rightarrow> string \<Rightarrow> int \<Rightarrow> 'd uri_source" where
  "UriAudioSource info uri target_sample_rate =
     \<lparr>uri_seen = 0, uri_opened = False, uri_filled = False, uri_ss = \<lparr>rest = [], eof = False\<rparr>,
      uri_uri = uri, uri_source_rate = info_sample_rate_hertz info, uri_encoding = info_encoding info,
      uri_data = [], uri_subvectors = [], uri_target_rate = target_sample_rate, uri_decoder = None\<rparr>"

definition uri_Open ::
    "'d av_lib \<Rightarrow> (int \<Rightarrow> string) \<Rightarrow> 'd \<Rightarrow> nat \<Rightarrow> 'd uri_source \<Rightarrow> 'd uri_source outcome option" where
  "uri_Open lib str_error env fuel s =
     (if uri_opened s then Some (Ret s)
      else
        map_option (rethrow_av str_error)
          (fbind (Some (uri_codec (uri_encoding s))) (\<lambda>codec.
           fbind (Some (UrlIoContext lib (uri_uri s) env)) (\<lambda>io_ctx.
           fbind (Some (IoContextDecoder lib codec io_ctx (uri_target_rate s))) (\<lambda>dec.
           fbind (io_decode_all lib fuel fuel dec (rest (uri_ss s))) (\<lambda>(dec1, out1).
           fbind (IoFlush lib fuel dec1 out1) (\<lambda>(dec2, out2).
             Some (Ret (s\<lparr>uri_ss := (uri_ss s)\<lparr>rest := out2\<rparr>, uri_decoder := Some dec2,
               uri_opened := True\<rparr>)))))))))"

text \<open>\<open>GetMoreData\<close>: what the stream does not fill of the 800 bytes stays zero.\<close>

definition uri_GetMoreData :: "'d uri_source \<Rightarrow> (waveform \<times> 'd uri_source) outcome" where
  "uri_GetMoreData s =
     (let n = 2 * nat chunk_size_in_elem;
          (got, ss) = istream_read n (uri_ss s);
          content = got @ replicate (n - length got) (CHR 0x00)
      in omap (\<lambda>added. (added, s\<lparr>uri_ss := ss, uri_subvectors := uri_subvectors s @ [added]\<rparr>))
           (Linear16BytesToWaveVectorBase content (nat chunk_size_in_elem)))"

definition uri_ChunksSeen :: "'d uri_source \<Rightarrow> int" where
  "uri_ChunksSeen s = cdiv (uri_seen s) chunk_size_in_elem"

definition uri_TotalChunks :: "'d av_lib \<Rightarrow> 'd uri_source \<Rightarrow> int outcome" where
  "uri_TotalChunks lib s =
     (case uri_decoder s of
        None \<Rightarrow> Fault Null_dereference
      | Some dec \<Rightarrow>
          let n_samples = to_int32 (cdiv (Duration lib dec) 1000 * uri_target_rate s) in
          Ret (to_int32 (to_size n_samples div chunk_size_in_elem)))"

definition uri_HasMoreChunks :: "'d av_lib \<Rightarrow> 'd uri_source \<Rightarrow> bool outcome" where
  "uri_HasMoreChunks lib s =
     (if uri_filled s then omap (\<lambda>total. uri_ChunksSeen s < total) (uri_TotalChunks lib s)
      else Ret (\<not> eof (uri_ss s)))"

text \<open>The loop of \<open>Full\<close> while nothing is prefetched; every round takes bytes or reaches the end.\<close>

function (sequential) uri_read_rest :: "'d uri_source \<Rightarrow> 'd uri_source outcome" where
  "uri_read_rest s =
     (if eof (uri_ss s) then Ret s
      else (case uri_GetMoreData s of
              Ret (_, s') \<Rightarrow> uri_read_rest s'
            | Throw e \<Rightarrow> Throw e
            | Fault b \<Rightarrow> Fault b))"
  by pat_completeness auto
termination
  by (relation "measure (\<lambda>s. length (rest (uri_ss s)) + (if eof (uri_ss s) then 0 else 1))")
    (auto simp: uri_GetMoreData_def istream_read_def chunk_size_in_elem_def Let_def outcome_simps
      split: if_split_asm)

declare uri_read_rest.simps [simp del]

definition uri_Full :: "'d uri_source \<Rightarrow> (waveform \<times> 'd uri_source) outcome" where
  "uri_Full s =
     (if uri_filled s then Ret (uri_data s, s)
      else omap (\<lambda>s1. let data = concat (uri_subvectors s1) in
             (data, s1\<lparr>uri_data := data, uri_filled := True\<rparr>))
           (uri_read_rest s))"

definition uri_NextChunk :: "'d uri_source \<Rightarrow> (waveform \<times> 'd uri_source) outcome" where
  "uri_NextChunk s =
     (if uri_filled s \<and> uri_seen s < int (length (uri_data s)) then
        (let range_idx = uri_seen s;
             len = min chunk_size_in_elem (int (length (uri_data s)) - range_idx)
         in omap (\<lambda>c. (c, s\<lparr>uri_seen := uri_seen s + len\<rparr>)) (Range (uri_data s) range_idx len))
      else
        omap (\<lambda>(added, s1). (added, s1\<lparr>uri_seen := uri_seen s1 + int (length added)\<rparr>))
          (uri_GetMoreData s))"

definition uri_TimePassed :: "'d uri_source \<Rightarrow> int outcome" where
  "uri_TimePassed s =
     (if uri_target_rate s = 0 then Fault Division_by_zero
      else Ret (cdiv (1000 * uri_seen s) (uri_target_rate s)))"

text \<open>
  Everything the source reads is the decoded audio followed by silence up to a whole number of
  chunks; an audio of exactly \<open>k\<close> chunks is followed by a chunk of silence.
\<close>

definition zero_padded :: "string \<Rightarrow> string" where
  "zero_padded bytes = bytes @ replicate (800 * (length bytes div 800 + 1) - length bytes) (CHR 0x00)"

lemma Linear16Base_chunk:
  "length content = 800 \<Longrightarrow> Linear16BytesToWaveVectorBase content 400 = Ret (linear16 content)"
  by (simp add: Linear16BytesToWaveVectorBase_def linear16_def Let_def)

lemma uri_GetMoreData_more:
  assumes "\<not> eof (uri_ss s)" "800 \<le> length (rest (uri_ss s))"
  shows "uri_GetMoreData s = Ret (linear16 (take 800 (rest (uri_ss s))),
    s\<lparr>uri_ss := \<lparr>rest = drop 800 (rest (uri_ss s)), eof = False\<rparr>,
      uri_subvectors := uri_subvectors s @ [linear16 (take 800 (rest (uri_ss s)))]\<rparr>)"
proof -
  have "istream_read 800 (uri_ss s) =
      (take 800 (rest (uri_ss s)), \<lparr>rest = drop 800 (rest (uri_ss s)), eof = False\<rparr>)"
    using assms by (cases "uri_ss s") (simp add: istream_read_def)
  then show ?thesis
    using assms by (simp add: uri_GetMoreData_def chunk_size_in_elem_def Linear16Base_chunk)
qed

lemma uri_GetMoreData_last:
  assumes "\<not> eof (uri_ss s)" "length (rest (uri_ss s)) < 800"
  shows "uri_GetMoreData s = Ret (linear16 (zero_padded (rest (uri_ss s))),
    s\<lparr>uri_ss := \<lparr>rest = [], eof = True\<rparr>,
      uri_subvectors := uri_subvectors s @ [linear16 (zero_padded (rest (uri_ss s)))]\<rparr>)"
proof -
  have "istream_read 800 (uri_ss s) = (rest (uri_ss s), \<lparr>rest = [], eof = True\<rparr>)"
    using assms by (cases "uri_ss s") (simp add: istream_read_def)
  then show ?thesis
    using assms by (simp add: uri_GetMoreData_def chunk_size_in_elem_def Linear16Base_chunk zero_padded_def)
qed

lemma zero_padded_chunk:
  assumes "800 \<le> length bytes"
  shows "zero_padded bytes = take 800 bytes @ zero_padded (drop 800 bytes)"
proof -
  have "length bytes div 800 = Suc ((length bytes - 800) div 800)"
    using assms by (simp add: le_div_geq)
  then show ?thesis using assms by (simp add: zero_padded_def)
qed

lemma uri_read_rest_all:
  "\<not> eof (uri_ss s) \<Longrightarrow>
   \<exists>s'. uri_read_rest s = Ret s' \<and> eof (uri_ss s') \<and>
     concat (uri_subvectors s') = concat (uri_subvectors s) @ linear16 (zero_padded (rest (uri_ss s)))"
proof (induction s rule: uri_read_rest.induct)
  case (1 s)
  show ?case
  proof (cases "length (rest (uri_ss s)) < 800")
    case True
    then show ?thesis
      using 1(2) uri_GetMoreData_last [OF 1(2) True]
      by (simp add: uri_read_rest.simps [of s] uri_read_rest.simps [of "s\<lparr>uri_ss := \<lparr>rest = [], eof = True\<rparr>, uri_subvectors := _\<rparr>"])
  next
    case False
    then have long: "800 \<le> length (rest (uri_ss s))" by simp
    note more = uri_GetMoreData_more [OF 1(2) long]
    from 1(1) [OF 1(2) more refl] zero_padded_chunk [OF long] show ?thesis
      using 1(2) more by (simp add: uri_read_rest.simps [of s] linear16_append long)
  qed
qed

section \<open>The string stream between decoder and reader\<close>

text \<open>
  Of what was written and not yet read, the get area of a \<open>std::stringbuf\<close> may show only a part:
  writing need not move its end. \<open>in_avail\<close> reports the visible part and looks further only when
  that is empty; \<open>tellg\<close> makes everything visible. How much a write makes visible is up to the
  library and is the parameter \<open>sync\<close>.
\<close>

record stringbuf =
  sb_pending :: string
  sb_visible :: nat

definition sb_write :: "(nat \<Rightarrow> nat \<Rightarrow> nat) \<Rightarrow> string \<Rightarrow> stringbuf \<Rightarrow> stringbuf" where
  "sb_write sync bytes sb =
     (let pending = sb_pending sb @ bytes in
      sb\<lparr>sb_pending := pending,
         sb_visible := max (sb_visible sb) (min (length pending) (sync (sb_visible sb) (length pending)))\<rparr>)"

definition sb_in_avail :: "stringbuf \<Rightarrow> nat \<times> stringbuf" where
  "sb_in_avail sb =
     (if 0 < sb_visible sb then (sb_visible sb, sb)
      else (length (sb_pending sb), sb\<lparr>sb_visible := length (sb_pending sb)\<rparr>))"

definition sb_readsome :: "nat \<Rightarrow> stringbuf \<Rightarrow> string \<times> stringbuf" where
  "sb_readsome n sb =
     (let (avail, sb1) = sb_in_avail sb; k = min n avail in
      (take k (sb_pending sb1),
       sb1\<lparr>sb_pending := drop k (sb_pending sb1), sb_visible := sb_visible sb1 - k\<rparr>))"

definition sb_tellg :: "stringbuf \<Rightarrow> stringbuf" where
  "sb_tellg sb = sb\<lparr>sb_visible := length (sb_pending sb)\<rparr>"

definition sb_inv :: "stringbuf \<Rightarrow> bool" where
  "sb_inv sb \<longleftrightarrow> sb_visible sb \<le> length (sb_pending sb)"

section \<open>StreamingUriAudioSource\<close>

record 'd streaming_source =
  str_chunk_size :: int
  str_max_buffer_size :: int
  str_seen :: int
  str_opened :: bool
  no_more_to_decode :: bool
  no_more_chunks :: bool
  str_ss :: stringbuf
  str_uri :: string
  str_encoding :: audio_encoding
  str_data :: waveform
  str_target_rate :: int
  str_decoder :: "'d av_decoder option"

definition StreamingUriAudioSource :: "audio_source_info \<Rightarrow> string \<Rightarrow> int \<Rightarrow> int \<Rightarrow> 'd streaming_source" where
  "StreamingUriAudioSource info uri target_sample_rate chunk_size_in_samples =
     \<lparr>str_chunk_size = chunk_size_in_samples, str_max_buffer_size = 2 * chunk_size_in_samples,
      str_seen = 0, str_opened = False, no_more_to_decode = False, no_more_chunks = False,
      str_ss = \<lparr>sb_pending = [], sb_visible = 0\<rparr>, str_uri = uri, str_encoding = info_encoding info,
      str_data = [], str_target_rate = target_sample_rate, str_decoder = None\<rparr>"

definition CreateAudioSourceFromUri :: "audio_source_info \<Rightarrow> string \<Rightarrow> 'd streaming_source option" where
  "CreateAudioSourceFromUri info uri =
     (if info_type info \<noteq> KUri then None
      else Some (StreamingUriAudioSource info uri 16000 2048))"

definition streaming_Open ::
    "'d av_lib \<Rightarrow> (int \<Rightarrow> string) \<Rightarrow> 'd \<Rightarrow> 'd streaming_source \<Rightarrow> 'd streaming_source outcome" where
  "streaming_Open lib str_error env s =
     (if str_opened s then Ret s
      else
        rethrow_av str_error
          (obind (streaming_codec (str_encoding s)) (\<lambda>codec.
           obind (UrlIoContext lib (str_uri s) env) (\<lambda>io_ctx.
           omap (\<lambda>dec. s\<lparr>str_decoder := Some dec, str_opened := True\<rparr>)
             (IoContextDecoder lib codec io_ctx (str_target_rate s))))))"

definition streaming_HasMoreChunks :: "'d streaming_source \<Rightarrow> bool" where
  "streaming_HasMoreChunks s \<longleftrightarrow> \<not> no_more_chunks s"

text \<open>The loop at the start of \<open>NextChunk\<close>: decode until a buffer full is available or all is decoded.\<close>

fun fill_buffer ::
    "'d av_lib \<Rightarrow> (nat \<Rightarrow> nat \<Rightarrow> nat) \<Rightarrow> nat \<Rightarrow> nat \<Rightarrow> 'd av_decoder \<Rightarrow> 'd streaming_source \<Rightarrow>
     ('d streaming_source) outcome option" where
  "fill_buffer lib sync fuel 0 dec s = None"
| "fill_buffer lib sync fuel (Suc n) dec s =
     (if no_more_to_decode s then Some (Ret (s\<lparr>str_decoder := Some dec\<rparr>))
      else
        fbind (IoPartialDecode lib fuel dec []) (\<lambda>(again, dec1, out1).
          let ss1 = sb_write sync out1 (str_ss s) in
          if \<not> again then
            fbind (IoFlush lib fuel dec1 []) (\<lambda>(dec2, out2).
              Some (Ret (s\<lparr>str_ss := sb_write sync out2 ss1, str_decoder := Some dec2,
                no_more_to_decode := True\<rparr>)))
          else
            (let (avail, ss2) = sb_in_avail ss1; s1 = s\<lparr>str_ss := ss2, str_decoder := Some dec1\<rparr> in
             if str_max_buffer_size s \<le> int avail then Some (Ret s1)
             else fill_buffer lib sync fuel n dec1 s1)))"

text \<open>The rest of \<open>NextChunk\<close>, once the buffer is filled.\<close>

definition take_chunk :: "'d streaming_source \<Rightarrow> (waveform \<times> 'd streaming_source) outcome" where
  "take_chunk s =
     (let (n_bytes_ready, ss1) = sb_in_avail (str_ss s);
          n_samples_ready = n_bytes_ready div 2;
          n_bytes_to_read = min (2 * int n_samples_ready) (str_max_buffer_size s)
      in if n_bytes_to_read mod 2 \<noteq> 0 then Fault Assertion_failed
      else if n_bytes_to_read < 0 then Throw Length_error
      else
        (let (content, ss2) = sb_readsome (nat n_bytes_to_read) ss1 in
         if length content = 0 then
           (if n_bytes_ready = 1 then
              omap (\<lambda>c. (c, s\<lparr>str_ss := sb_tellg ss2\<rparr>)) (Range (str_data s) 0 0)
            else if no_more_to_decode s then
              omap (\<lambda>c. (c, s\<lparr>str_ss := ss2, no_more_chunks := True\<rparr>)) (Range (str_data s) 0 0)
            else omap (\<lambda>c. (c, s\<lparr>str_ss := ss2\<rparr>)) (Range (str_data s) 0 0))
         else
           (let actual = length content div 2 in
            obind (Linear16BytesToWaveVectorBase content actual) (\<lambda>v.
            omap (\<lambda>c. (c, s\<lparr>str_ss := ss2, str_data := v, str_seen := str_seen s + int actual\<rparr>))
              (Range v 0 (int actual))))))"

definition streaming_NextChunk ::
    "'d av_lib \<Rightarrow> (nat \<Rightarrow> nat \<Rightarrow> nat) \<Rightarrow> nat \<Rightarrow> 'd streaming_source \<Rightarrow>
     (waveform \<times> 'd streaming_source) outcome option" where
  "streaming_NextChunk lib sync fuel s =
     (if no_more_to_decode s then Some (take_chunk s)
      else
        (case str_decoder s of
           None \<Rightarrow> Some (Fault Null_dereference)
         | Some dec \<Rightarrow> fbind (fill_buffer lib sync fuel fuel dec s) (\<lambda>s1. Some (take_chunk s1))))"

definition streaming_ChunksSeen :: "'d streaming_source \<Rightarrow> int outcome" where
  "streaming_ChunksSeen s =
     (if str_chunk_size s = 0 then Fault Division_by_zero
      else Ret (to_int32 (cdiv (str_seen s) (str_chunk_size s))))"

definition streaming_TotalChunks :: "'d av_lib \<Rightarrow> 'd streaming_source \<Rightarrow> int outcome" where
  "streaming_TotalChunks lib s =
     (case str_decoder s of
        None \<Rightarrow> Fault Null_dereference
      | Some dec \<Rightarrow>
          let n_samples = to_int32 (cdiv (Duration lib dec) 1000 * str_target_rate s) in
          if str_chunk_size s = 0 then Fault Division_by_zero
          else Ret (cdiv n_samples (str_chunk_size s)))"

definition streaming_TimePassed :: "'d streaming_source \<Rightarrow> int outcome" where
  "streaming_TimePassed s =
     (if str_target_rate s = 0 then Fault Division_by_zero
      else Ret (cdiv (1000 * str_seen s) (str_target_rate s)))"

section \<open>Nothing is lost in the stream\<close>

lemma sb_write_inv: "sb_inv sb \<Longrightarrow> sb_inv (sb_write sync bytes sb)"
  by (auto simp: sb_inv_def sb_write_def Let_def)

lemma sb_write_pending [simp]: "sb_pending (sb_write sync bytes sb) = sb_pending sb @ bytes"
  by (simp add: sb_write_def Let_def)

lemma sb_in_avail_correct:
  assumes "sb_inv sb" "sb_in_avail sb = (n, sb')"
  shows "sb_inv sb' \<and> sb_pending sb' = sb_pending sb \<and> sb_visible sb' = n \<and> n \<le> length (sb_pending sb) \<and>
    (n = 0 \<longleftrightarrow> sb_pending sb = [])"
  using assms by (auto simp: sb_in_avail_def sb_inv_def split: if_split_asm)

lemma sb_readsome_correct:
  assumes "sb_inv sb" "sb_visible sb = avail" "0 < avail \<or> sb_pending sb = []" "n \<le> avail"
  shows "\<exists>sb'. sb_readsome n sb = (take n (sb_pending sb), sb') \<and> sb_inv sb' \<and>
    sb_pending sb' = drop n (sb_pending sb)"
  using assms by (auto simp: sb_readsome_def sb_in_avail_def sb_inv_def Let_def)

definition streaming_inv :: "'d streaming_source \<Rightarrow> bool" where
  "streaming_inv s \<longleftrightarrow> sb_inv (str_ss s) \<and> 0 < str_chunk_size s \<and>
     str_max_buffer_size s = 2 * str_chunk_size s"

abbreviation str_pending :: "'d streaming_source \<Rightarrow> string" where
  "str_pending s \<equiv> sb_pending (str_ss s)"

text \<open>
  A chunk is made of an even number of pending bytes. It is empty only when nothing is left, which
  is then noted if all is decoded, or when one byte is visible, and then all bytes become visible.
\<close>

lemma take_chunk_correct:
  assumes "streaming_inv s"
  obtains bytes s' where "take_chunk s = Ret (linear16 bytes, s')" "streaming_inv s'"
    "str_pending s = bytes @ str_pending s'" "even (length bytes)"
    "no_more_to_decode s' = no_more_to_decode s"
    "no_more_chunks s' = (no_more_chunks s \<or> no_more_to_decode s \<and> str_pending s = [])"
    "bytes = [] \<Longrightarrow> str_pending s \<noteq> [] \<Longrightarrow>
       sb_visible (str_ss s) \<le> 1 \<and> sb_visible (str_ss s') = length (str_pending s)"
proof -
  let ?m = "str_max_buffer_size s"
  obtain n ss1 where avail: "sb_in_avail (str_ss s) = (n, ss1)" by force
  have ss1: "sb_inv ss1" "sb_pending ss1 = str_pending s" "sb_visible ss1 = n"
      "n \<le> length (str_pending s)" "(n = 0) = (str_pending s = [])"
    using sb_in_avail_correct [OF _ avail] assms by (auto simp: streaming_inv_def)
  define r where "r = min (2 * (n div 2)) (2 * nat (str_chunk_size s))"
  have r: "r = min (2 * (n div 2)) (2 * nat (str_chunk_size s))" "even r" "r \<le> n"
    by (auto simp: r_def min_def)
  obtain ss2 where ss2: "sb_readsome r ss1 = (take r (str_pending s), ss2)" "sb_inv ss2"
      "sb_pending ss2 = drop r (str_pending s)"
    using sb_readsome_correct [OF ss1(1,3) _ r(3)] ss1(2,5) by auto
  have len: "length (take r (str_pending s)) = r" using r(3) ss1(4) by simp
  have tc: "take_chunk s = (if r = 0 then
        (if n = 1 then Ret ([], s\<lparr>str_ss := sb_tellg ss2\<rparr>)
         else if no_more_to_decode s then Ret ([], s\<lparr>str_ss := ss2, no_more_chunks := True\<rparr>)
         else Ret ([], s\<lparr>str_ss := ss2\<rparr>))
      else Ret (linear16 (take r (str_pending s)), s\<lparr>str_ss := ss2,
        str_data := linear16 (take r (str_pending s)), str_seen := str_seen s + int (r div 2)\<rparr>))"
  proof -
    have "?m = int (2 * nat (str_chunk_size s))" using assms by (simp add: streaming_inv_def)
    then have "min (2 * int (n div 2)) ?m = int r" unfolding r_def by (simp add: of_nat_min)
    moreover have "\<not> int r < 0" "int r mod 2 = 0" using r(2) by presburger+
    ultimately show ?thesis
      unfolding take_chunk_def avail Let_def prod.case
      by (simp add: ss2(1) len Range_def Linear16BytesToWaveVectorBase_def linear16_def
          del: length_take length_0_conv take_eq_Nil)
  qed
  show ?thesis
  proof (cases "r = 0")
    case False
    let ?s = "s\<lparr>str_ss := ss2, str_data := linear16 (take r (str_pending s)),
        str_seen := str_seen s + int (r div 2)\<rparr>"
    have "take_chunk s = Ret (linear16 (take r (str_pending s)), ?s)"
      using tc False by simp
    moreover have "streaming_inv ?s" using assms ss2(2) by (simp add: streaming_inv_def)
    moreover have "str_pending s = take r (str_pending s) @ str_pending ?s" using ss2(3) by simp
    moreover have "even (length (take r (str_pending s)))" using len r(2) by simp
    moreover have "str_pending s \<noteq> []" using False r(3) ss1(4) by auto
    ultimately show ?thesis using False by (intro that [of "take r (str_pending s)" ?s]) simp_all
  next
    case True
    then have n: "n \<le> 1" using assms r(1) by (auto simp: streaming_inv_def min_def split: if_split_asm)
    have pend: "sb_pending ss2 = str_pending s" using ss2(3) True by simp
    have vis: "sb_visible (str_ss s) \<le> 1"
      using avail n by (auto simp: sb_in_avail_def split: if_split_asm)
    show ?thesis
    proof (cases "n = 1")
      case True
      let ?s = "s\<lparr>str_ss := sb_tellg ss2\<rparr>"
      have "take_chunk s = Ret (linear16 [], ?s)" using tc \<open>r = 0\<close> True by simp
      moreover have "streaming_inv ?s" using assms by (simp add: streaming_inv_def sb_tellg_def sb_inv_def)
      moreover have "str_pending s \<noteq> []" using True ss1(5) by simp
      ultimately show ?thesis using pend vis by (intro that [of "[]" ?s]) (simp_all add: sb_tellg_def)
    next
      case False
      let ?s = "if no_more_to_decode s then s\<lparr>str_ss := ss2, no_more_chunks := True\<rparr> else s\<lparr>str_ss := ss2\<rparr>"
      have empty: "str_pending s = []" using False n ss1(5) by simp
      have "take_chunk s = Ret (linear16 [], ?s)" using tc \<open>r = 0\<close> False by simp
      moreover have "streaming_inv ?s" using assms ss2(2) by (simp add: streaming_inv_def)
      ultimately show ?thesis using pend empty by (intro that [of "[]" ?s]) simp_all
    qed
  qed
qed

lemma fill_buffer_correct:
  "fill_buffer lib sync fuel n dec s = Some (Ret s') \<Longrightarrow> streaming_inv s \<Longrightarrow>
     streaming_inv s' \<and> no_more_chunks s' = no_more_chunks s \<and> (\<exists>new. str_pending s' = str_pending s @ new)"
proof (induction n arbitrary: dec s)
  case (Suc n)
  have w: "sb_inv (sb_write sync out (str_ss s))" for out
    using Suc.prems(2) by (simp add: streaming_inv_def sb_write_inv)
  show ?case
  proof (cases "no_more_to_decode s")
    case True
    with Suc.prems show ?thesis by (auto simp: streaming_inv_def)
  next
    case False
    with Suc.prems(1) obtain again dec1 out1 where
      d: "IoPartialDecode lib fuel dec [] = Some (Ret (again, dec1, out1))"
      by (auto simp: fbind_Ret)
    obtain avail ss2 where a: "sb_in_avail (sb_write sync out1 (str_ss s)) = (avail, ss2)" by force
    note ss2 = sb_in_avail_correct [OF w a]
    show ?thesis
    proof (cases again)
      case False
      with Suc.prems \<open>\<not> no_more_to_decode s\<close> d obtain dec2 out2 where
        "s' = s\<lparr>str_ss := sb_write sync out2 (sb_write sync out1 (str_ss s)),
          str_decoder := Some dec2, no_more_to_decode := True\<rparr>"
        by (auto simp: fbind_Ret Let_def)
      with Suc.prems(2) show ?thesis by (simp add: streaming_inv_def sb_write_inv)
    next
      case True
      let ?s1 = "s\<lparr>str_ss := ss2, str_decoder := Some dec1\<rparr>"
      have inv: "streaming_inv ?s1" using Suc.prems(2) ss2 by (simp add: streaming_inv_def)
      have "s' = ?s1 \<or> fill_buffer lib sync fuel n dec1 ?s1 = Some (Ret s')"
        using Suc.prems(1) True \<open>\<not> no_more_to_decode s\<close> d a by (auto simp: Let_def split: if_split_asm)
      with Suc.IH [OF _ inv] inv ss2 show ?thesis by auto
    qed
  qed
qed simp

lemma streaming_NextChunk_cases:
  assumes "streaming_NextChunk lib sync fuel s = Some (Ret (c, s'))" "streaming_inv s"
  obtains s1 new where "take_chunk s1 = Ret (c, s')" "streaming_inv s1"
    "no_more_chunks s1 = no_more_chunks s" "str_pending s1 = str_pending s @ new"
proof (cases "no_more_to_decode s")
  case True
  with assms that [of s "[]"] show ?thesis by (simp add: streaming_NextChunk_def)
next
  case False
  with assms(1) obtain dec s1 where "fill_buffer lib sync fuel fuel dec s = Some (Ret s1)"
      "take_chunk s1 = Ret (c, s')"
    by (auto simp: streaming_NextChunk_def fbind_Ret split: option.split_asm)
  with fill_buffer_correct [OF this(1) assms(2)] that show ?thesis by blast
qed


definition buffered_source :: "string \<Rightarrow> session streaming_source" where
  "buffered_source bytes =
     (StreamingUriAudioSource \<lparr>info_type = KUri, info_encoding = AE_MP3, info_sample_rate_hertz = 16000\<rparr>
        ''http://a'' 16000 2048)
     \<lparr>no_more_to_decode := True, str_ss := \<lparr>sb_pending = bytes, sb_visible = 3\<rparr>\<rparr>"

lemma buffered_source_inv: "3 \<le> length bytes \<Longrightarrow> streaming_inv (buffered_source bytes)"
  by (simp add: streaming_inv_def buffered_source_def StreamingUriAudioSource_def sb_inv_def)


section \<open>Draining the stream\<close>

text \<open>The reading loop of the interface, once everything is decoded.\<close>

definition drain_loop :: "nat \<Rightarrow> 'd streaming_source \<Rightarrow> waveform \<Rightarrow> ('d streaming_source \<times> waveform) outcome option" where
  "drain_loop = chunk_loop streaming_HasMoreChunks take_chunk (\<lambda>c _ acc. Ret (acc @ c))"

lemma drain_loop_Suc:
  "drain_loop (Suc n) s acc =
     (if streaming_HasMoreChunks s then
        (case take_chunk s of Throw e \<Rightarrow> Some (Throw e) | Fault b \<Rightarrow> Some (Fault b)
         | Ret (c, s') \<Rightarrow> drain_loop n s' (acc @ c))
      else Some (Ret (s, acc)))"
  by (simp add: drain_loop_def split: outcome.split)

lemma drain_even:
  assumes "streaming_inv s" "no_more_to_decode s" "streaming_HasMoreChunks s" "even (length (str_pending s))"
  shows "\<exists>n s'. drain_loop n s acc = Some (Ret (s', acc @ linear16 (str_pending s)))"
  using assms
proof (induction "2 * length (str_pending s) + (if sb_visible (str_ss s) \<le> 1 then 1 else 0)"
    arbitrary: s acc rule: less_induct)
  case less
  obtain bytes s' where t: "take_chunk s = Ret (linear16 bytes, s')" "streaming_inv s'"
      "str_pending s = bytes @ str_pending s'" "even (length bytes)" "no_more_to_decode s'"
      "no_more_chunks s' = (str_pending s = [])"
      "bytes = [] \<Longrightarrow> str_pending s \<noteq> [] \<Longrightarrow>
         sb_visible (str_ss s) \<le> 1 \<and> sb_visible (str_ss s') = length (str_pending s)"
    using take_chunk_correct [OF less.prems(1)] less.prems(2,3) by (metis streaming_HasMoreChunks_def)
  show ?case
  proof (cases "str_pending s = []")
    case True
    then have "drain_loop (Suc (Suc 0)) s acc = Some (Ret (s', acc @ linear16 (str_pending s)))"
      using t less.prems(3) by (simp add: drain_loop_Suc streaming_HasMoreChunks_def)
    then show ?thesis by blast
  next
    case False
    have even': "even (length (str_pending s'))" using less.prems(4) t(3,4) by simp
    have "length (str_pending s) \<noteq> 0" using False by simp
    with less.prems(4) have "2 \<le> length (str_pending s)" by presburger
    then have "2 * length (str_pending s') + (if sb_visible (str_ss s') \<le> 1 then 1 else 0)
        < 2 * length (str_pending s) + (if sb_visible (str_ss s) \<le> 1 then 1 else 0)"
    proof (cases "bytes = []")
      case False
      then have "length bytes \<noteq> 0" by simp
      with t(4) have "2 \<le> length bytes" by presburger
      then show ?thesis using t(3) by auto
    qed (use t(3,7) \<open>str_pending s \<noteq> []\<close> \<open>2 \<le> length (str_pending s)\<close> in auto)
    from less.hyps [OF this t(2,5) _ even', of "acc @ linear16 bytes"] obtain n s'' where
      "drain_loop n s' (acc @ linear16 bytes) =
         Some (Ret (s'', (acc @ linear16 bytes) @ linear16 (str_pending s')))"
      using t(6) False by (auto simp: streaming_HasMoreChunks_def)
    then have "drain_loop (Suc n) s acc = Some (Ret (s'', acc @ linear16 (str_pending s)))"
      using t(1,3,4) less.prems(3) by (simp add: drain_loop_Suc linear16_append)
    then show ?thesis by blast
  qed
qed

lemma drain_odd:
  "streaming_inv s \<Longrightarrow> streaming_HasMoreChunks s \<Longrightarrow> odd (length (str_pending s)) \<Longrightarrow>
     drain_loop n s acc = None"
proof (induction n arbitrary: s acc)
  case 0
  then show ?case by (simp add: drain_loop_def)
next
  case (Suc n)
  obtain bytes s' where t: "take_chunk s = Ret (linear16 bytes, s')" "streaming_inv s'"
      "str_pending s = bytes @ str_pending s'" "even (length bytes)"
      "no_more_chunks s' = (no_more_chunks s \<or> no_more_to_decode s \<and> str_pending s = [])"
    using take_chunk_correct [OF Suc.prems(1)] by metis
  have "streaming_HasMoreChunks s'" "odd (length (str_pending s'))"
    using Suc.prems t(3-5) by (auto simp: streaming_HasMoreChunks_def)
  with Suc.IH [OF t(2)] t(1) Suc.prems(2) show ?case by (simp add: drain_loop_Suc)
qed

lemma drain_loop_NextChunk:
  "streaming_inv s \<Longrightarrow> no_more_to_decode s \<Longrightarrow>
     chunk_loop streaming_HasMoreChunks (\<lambda>s. the (streaming_NextChunk lib sync fuel s))
       (\<lambda>c _ acc. Ret (acc @ c)) n s acc = drain_loop n s acc"
proof (induction n arbitrary: s acc)
  case 0
  then show ?case by (simp add: drain_loop_def)
next
  case (Suc n)
  obtain c s' where t: "take_chunk s = Ret (c, s')" "streaming_inv s'" "no_more_to_decode s'"
    using take_chunk_correct [OF Suc.prems(1)] Suc.prems(2) by metis
  have "the (streaming_NextChunk lib sync fuel s) = take_chunk s"
    using Suc.prems(2) by (simp add: streaming_NextChunk_def)
  with Suc.IH [OF t(2,3)] t(1) show ?case by (simp add: drain_loop_Suc)
qed

text \<open>
  C20. Once all audio is decoded, the client's reading loop ends exactly when the number of bytes
  left is even, as it is with the 16-bit samples that \<open>WriteFrame\<close> writes, and then it has
  received exactly the samples of those bytes; a single odd byte would make \<open>HasMoreChunks\<close> stay
  true for ever.
\<close>

theorem streaming_drains:
  assumes "streaming_inv s" "no_more_to_decode s" "streaming_HasMoreChunks s"
  shows "if even (length (str_pending s))
    then \<exists>n s'. chunk_loop streaming_HasMoreChunks (\<lambda>s. the (streaming_NextChunk lib sync fuel s))
        (\<lambda>c _ acc. Ret (acc @ c)) n s [] = Some (Ret (s', linear16 (str_pending s)))
    else \<forall>n. chunk_loop streaming_HasMoreChunks (\<lambda>s. the (streaming_NextChunk lib sync fuel s))
        (\<lambda>c _ acc. Ret (acc @ c)) n s [] = None"
  using drain_even [OF assms, of "[]"] drain_odd [OF assms(1,3), of _ "[]"]
  by (simp add: drain_loop_NextChunk [OF assms(1,2)])

theorem streaming_drains_witness:
  "\<exists>n s'. chunk_loop streaming_HasMoreChunks
      (\<lambda>s. the (streaming_NextChunk scripted (\<lambda>a b. a) 1 s)) (\<lambda>c _ acc. Ret (acc @ c)) n
      (buffered_source ''abcd'') [] = Some (Ret (s', linear16 ''abcd''))"
proof -
  have "streaming_inv (buffered_source ''abcd'')" by (rule buffered_source_inv) simp
  from streaming_drains [OF this, of scripted "\<lambda>a b. a" 1] show ?thesis
    by (simp add: buffered_source_def streaming_HasMoreChunks_def StreamingUriAudioSource_def)
qed

end
