(* ===== verification/Timing_Weight.thy ===== *)
theory Timing_Weight
  imports Float_Rounding
begin

text \<open>
  The weights that carry word times through the formatter: \<open>MaxMinWeightTpl\<close> of
  \<open>src/itn/maxmin-weight.h\<close> and \<open>TimingWeight\<close> of \<open>src/itn/timing-weight.h\<close>. A \<open>float\<close> is a finite
  value, an infinity or not a number; comparisons follow IEEE-754. OpenFst's own
  \<open>MinMaxWeight\<close>, the second component of a timing weight, is a parameter.
\<close>

datatype fval = Neg_inf | Fin rat | Pos_inf | NaN

fun fle :: "fval \<Rightarrow> fval \<Rightarrow> bool" where
  "fle NaN y = False"
| "fle x NaN = False"
| "fle Neg_inf y = True"
| "fle x Pos_inf = True"
| "fle (Fin a) (Fin b) = (a \<le> b)"
| "fle x y = False"

definition feq :: "fval \<Rightarrow> fval \<Rightarrow> bool" where
  "feq x y \<longleftrightarrow> fle x y \<and> fle y x"

definition fgt :: "fval \<Rightarrow> fval \<Rightarrow> bool" where
  "fgt x y \<longleftrightarrow> fle y x \<and> \<not> fle x y"

section \<open>MaxMinWeight\<close>

definition Member :: "fval \<Rightarrow> bool" where
  "Member w \<longleftrightarrow> feq w w"

definition MaxMin_Zero :: fval where "MaxMin_Zero = Neg_inf"
definition MaxMin_One :: fval where "MaxMin_One = Pos_inf"
definition MaxMin_NoWeight :: fval where "MaxMin_NoWeight = NaN"

definition MaxMin_Plus :: "fval \<Rightarrow> fval \<Rightarrow> fval" where
  "MaxMin_Plus w1 w2 =
     (if \<not> Member w1 \<or> \<not> Member w2 then MaxMin_NoWeight else if fgt w1 w2 then w1 else w2)"

definition MaxMin_Times :: "fval \<Rightarrow> fval \<Rightarrow> fval" where
  "MaxMin_Times w1 w2 =
     (if \<not> Member w1 \<or> \<not> Member w2 then MaxMin_NoWeight else if fle w1 w2 then w1 else w2)"

definition MaxMin_Divide :: "fval \<Rightarrow> fval \<Rightarrow> fval" where
  "MaxMin_Divide w1 w2 =
     (if \<not> Member w1 \<or> \<not> Member w2 then MaxMin_NoWeight else if fle w1 w2 then w1 else NaN)"

definition MaxMin_Reverse :: "fval \<Rightarrow> fval" where
  "MaxMin_Reverse w = w"

text \<open>
  The random weights for tests: \<open>n\<close> is computed in \<open>size_t\<close>, converted to \<open>int\<close>, and compared as
  \<open>size_t\<close> again. \<open>r\<close> is the value of \<open>rand()\<close>.
\<close>

definition WeightGenerate :: "bool \<Rightarrow> nat \<Rightarrow> nat \<Rightarrow> fval outcome" where
  "WeightGenerate allow_zero num_random_weights r =
     (let m = (2 * int num_random_weights + (if allow_zero then 1 else 0)) mod 2 ^ 64 in
      if m = 0 then Fault Division_by_zero
      else
        let n = to_int32 (to_size (int r mod m - int num_random_weights)) in
        if allow_zero \<and> to_size n = int num_random_weights then Ret MaxMin_Zero
        else if to_size n = to_size (- int num_random_weights) then Ret MaxMin_One
        else Ret (Fin (f32 (of_int n))))"

section \<open>Semirings\<close>

text \<open>What OpenFst demands of a commutative, idempotent weight with the path property.\<close>

locale path_semiring =
  fixes member :: "'w \<Rightarrow> bool" and plus :: "'w \<Rightarrow> 'w \<Rightarrow> 'w" and times :: "'w \<Rightarrow> 'w \<Rightarrow> 'w"
    and zero :: 'w and one :: 'w
  assumes member_zero: "member zero" and member_one: "member one"
    and member_plus: "member a \<Longrightarrow> member b \<Longrightarrow> member (plus a b)"
    and member_times: "member a \<Longrightarrow> member b \<Longrightarrow> member (times a b)"
    and plus_assoc: "member a \<Longrightarrow> member b \<Longrightarrow> member c \<Longrightarrow> plus (plus a b) c = plus a (plus b c)"
    and plus_commute: "member a \<Longrightarrow> member b \<Longrightarrow> plus a b = plus b a"
    and plus_zero: "member a \<Longrightarrow> plus zero a = a"
    and plus_path: "member a \<Longrightarrow> member b \<Longrightarrow> plus a b = a \<or> plus a b = b"
    and times_assoc: "member a \<Longrightarrow> member b \<Longrightarrow> member c \<Longrightarrow> times (times a b) c = times a (times b c)"
    and times_commute: "member a \<Longrightarrow> member b \<Longrightarrow> times a b = times b a"
    and times_one: "member a \<Longrightarrow> times one a = a"
    and times_zero: "member a \<Longrightarrow> times zero a = zero"
    and times_plus: "member a \<Longrightarrow> member b \<Longrightarrow> member c \<Longrightarrow> times a (plus b c) = plus (times a b) (times a c)"
begin

definition sum_paths :: "'w list \<Rightarrow> 'w" where
  "sum_paths ws = foldr plus ws zero"

definition along_path :: "'w list \<Rightarrow> 'w" where
  "along_path ws = foldr times ws one"

lemma member_sum_paths: "list_all member ws \<Longrightarrow> member (sum_paths ws)"
  by (induction ws) (simp_all add: sum_paths_def member_zero member_plus)

lemma member_along_path: "list_all member ws \<Longrightarrow> member (along_path ws)"
  by (induction ws) (simp_all add: along_path_def member_one member_times)

text \<open>A common prefix of several paths can be taken out of their sum.\<close>

lemma prefix_distributes:
  "member w \<Longrightarrow> list_all member ws \<Longrightarrow> times w (sum_paths ws) = sum_paths (map (times w) ws)"
proof (induction ws)
  case Nil
  then show ?case using times_commute [of w zero] by (simp add: sum_paths_def times_zero member_zero)
next
  case (Cons v ws)
  then show ?case using member_sum_paths [of ws] by (simp add: sum_paths_def times_plus)
qed

text \<open>The sum of finitely many paths is the weight of one of them.\<close>

lemma sum_is_path: "ws \<noteq> [] \<Longrightarrow> list_all member ws \<Longrightarrow> sum_paths ws \<in> set ws"
proof (induction ws)
  case (Cons v ws)
  show ?case
  proof (cases "ws = []")
    case True
    then show ?thesis
      using Cons.prems plus_zero [of v] plus_commute [of v zero] member_zero by (simp add: sum_paths_def)
  next
    case False
    with Cons plus_path [of v "sum_paths ws"] member_sum_paths [of ws] show ?thesis
      by (auto simp: sum_paths_def)
  qed
qed simp

lemma along_path_append:
  "list_all member us \<Longrightarrow> list_all member ws \<Longrightarrow> along_path (us @ ws) = times (along_path us) (along_path ws)"
proof (induction us)
  case Nil
  then show ?case using member_along_path [of ws] by (simp add: along_path_def times_one)
next
  case (Cons u us)
  then show ?case
    using member_along_path [of us] member_along_path [of ws] by (simp add: along_path_def times_assoc)
qed

end

lemma Member_iff: "Member w \<longleftrightarrow> w \<noteq> NaN"
  by (cases w) (simp_all add: Member_def feq_def)

interpretation max_min: path_semiring Member MaxMin_Plus MaxMin_Times MaxMin_Zero MaxMin_One
proof unfold_locales
  fix a b c :: fval
  assume m: "Member a" "Member b" "Member c"
  show "MaxMin_Plus (MaxMin_Plus a b) c = MaxMin_Plus a (MaxMin_Plus b c)"
    "MaxMin_Times (MaxMin_Times a b) c = MaxMin_Times a (MaxMin_Times b c)"
    "MaxMin_Times a (MaxMin_Plus b c) = MaxMin_Plus (MaxMin_Times a b) (MaxMin_Times a c)"
    using m by (cases a; cases b; cases c;
      auto simp: MaxMin_Plus_def MaxMin_Times_def Member_iff fgt_def)+
next
  fix a b :: fval
  assume m: "Member a" "Member b"
  show "Member (MaxMin_Plus a b)" "Member (MaxMin_Times a b)"
    "MaxMin_Plus a b = MaxMin_Plus b a" "MaxMin_Times a b = MaxMin_Times b a"
    "MaxMin_Plus a b = a \<or> MaxMin_Plus a b = b"
    using m by (cases a; cases b; auto simp: MaxMin_Plus_def MaxMin_Times_def Member_iff fgt_def)+
next
  fix a :: fval
  assume m: "Member a"
  show "MaxMin_Plus MaxMin_Zero a = a" "MaxMin_Times MaxMin_One a = a"
    "MaxMin_Times MaxMin_Zero a = MaxMin_Zero"
    using m by (cases a; simp add: MaxMin_Plus_def MaxMin_Times_def MaxMin_Zero_def MaxMin_One_def
        Member_iff fgt_def)+
qed (simp_all add: Member_iff MaxMin_Zero_def MaxMin_One_def)

text \<open>
  Over the max-min weight a common prefix can be factored out of a sum over several paths, and
  the sum of the weights of some paths is the weight of one of them, for any weights but NaN: the
  laws of a path semiring that the weight's \<open>Properties()\<close> announce and that shortest-path and
  composition algorithms rely on.
\<close>

theorem MaxMin_path_semiring:
  assumes "w \<noteq> NaN" "NaN \<notin> set ws" "ws \<noteq> []"
  shows "MaxMin_Times w (foldr MaxMin_Plus ws MaxMin_Zero) =
      foldr MaxMin_Plus (map (MaxMin_Times w) ws) MaxMin_Zero \<and>
    foldr MaxMin_Plus ws MaxMin_Zero \<in> set ws"
proof -
  have "Member w" "list_all Member ws" using assms by (auto simp: Member_iff list_all_iff)
  then show ?thesis
    using max_min.prefix_distributes [of w ws] max_min.sum_is_path [of ws] assms(3)
    by (simp add: max_min.sum_paths_def)
qed

theorem MaxMin_path_semiring_witness:
  "MaxMin_Times (Fin 3) (foldr MaxMin_Plus [Fin 1, Pos_inf] MaxMin_Zero) =
      foldr MaxMin_Plus (map (MaxMin_Times (Fin 3)) [Fin 1, Pos_inf]) MaxMin_Zero \<and>
    foldr MaxMin_Plus [Fin 1, Pos_inf] MaxMin_Zero \<in> set [Fin 1, Pos_inf]"
  by (rule MaxMin_path_semiring) simp_all

section \<open>TimingWeight\<close>

text \<open>
  A pair, combined componentwise by \<open>ProductWeight\<close>; the operations of the second component are
  OpenFst's and come as parameters.
\<close>

type_synonym timing_weight = "fval \<times> fval"

record minmax =
  minmax_times :: "fval \<Rightarrow> fval \<Rightarrow> fval"
  minmax_one :: fval

definition Timing_One :: "minmax \<Rightarrow> timing_weight" where
  "Timing_One mm = (MaxMin_One, minmax_one mm)"

definition Timing_Times :: "minmax \<Rightarrow> timing_weight \<Rightarrow> timing_weight \<Rightarrow> timing_weight" where
  "Timing_Times mm w1 w2 = (MaxMin_Times (fst w1) (fst w2), minmax_times mm (snd w1) (snd w2))"

definition timing_eq :: "timing_weight \<Rightarrow> timing_weight \<Rightarrow> bool" where
  "timing_eq w1 w2 \<longleftrightarrow> feq (fst w1) (fst w2) \<and> feq (snd w1) (snd w2)"

text \<open>The conversions between tropical and timing weights ignore the weight.\<close>

definition Tropical_to_Timing :: "minmax \<Rightarrow> 'tropical \<Rightarrow> timing_weight" where
  "Tropical_to_Timing mm w = Timing_One mm"

definition Timing_to_Tropical :: "'tropical \<Rightarrow> timing_weight \<Rightarrow> 'tropical" where
  "Timing_to_Tropical tropical_one w = tropical_one"

end
