(* ===== verification/Converters.thy ===== *)
theory Converters
  imports Timing_Weight Text_Utils
begin

text \<open>
  \<open>src/aligned-word.h\<close> and \<open>src/itn/converters.cc\<close>: a transcript with word times as a linear
  transducer, over word symbols or over bytes, and back. A \<open>VectorFst\<close> is the container it is used
  as: the arcs of each state in the order they were added, the start state and the final weights.
\<close>

record aligned_word =
  aw_start_time :: int
  aw_duration :: int
  aw_symbol :: string

definition AlignedWord_default :: aligned_word where
  "AlignedWord_default = \<lparr>aw_start_time = 0, aw_duration = 0, aw_symbol = []\<rparr>"

text \<open>\<open>operator!=\<close>\<close>

definition aligned_neq :: "aligned_word \<Rightarrow> aligned_word \<Rightarrow> bool" where
  "aligned_neq a b \<longleftrightarrow>
     \<not> (aw_start_time a = aw_start_time b \<and> aw_duration a = aw_duration b \<and> aw_symbol a = aw_symbol b)"

lemma aligned_neq_iff: "aligned_neq a b \<longleftrightarrow> a \<noteq> b"
  by (cases a; cases b) (auto simp: aligned_neq_def)

section \<open>Transducers\<close>

record 'w arc =
  ilabel :: int
  olabel :: int
  weight :: 'w
  nextstate :: nat

record 'w vector_fst =
  fst_start :: "nat option"
  fst_arcs :: "'w arc list list"
  fst_final :: "nat \<rightharpoonup> 'w"

definition empty_fst :: "'w vector_fst" where
  "empty_fst = \<lparr>fst_start = None, fst_arcs = [], fst_final = Map.empty\<rparr>"

definition AddStates :: "nat \<Rightarrow> 'w vector_fst \<Rightarrow> 'w vector_fst" where
  "AddStates n f = f\<lparr>fst_arcs := fst_arcs f @ replicate n []\<rparr>"

definition AddState :: "'w vector_fst \<Rightarrow> nat \<times> 'w vector_fst" where
  "AddState f = (length (fst_arcs f), AddStates 1 f)"

definition AddArc :: "nat \<Rightarrow> 'w arc \<Rightarrow> 'w vector_fst \<Rightarrow> 'w vector_fst" where
  "AddArc s a f = f\<lparr>fst_arcs := (fst_arcs f)[s := fst_arcs f ! s @ [a]]\<rparr>"

definition SetStart :: "nat \<Rightarrow> 'w vector_fst \<Rightarrow> 'w vector_fst" where
  "SetStart s f = f\<lparr>fst_start := Some s\<rparr>"

definition SetFinal :: "nat \<Rightarrow> 'w \<Rightarrow> 'w vector_fst \<Rightarrow> 'w vector_fst" where
  "SetFinal s w f = f\<lparr>fst_final := (fst_final f)(s \<mapsto> w)\<rparr>"

definition acceptor_arc :: "int \<Rightarrow> 'w \<Rightarrow> nat \<Rightarrow> 'w arc" where
  "acceptor_arc l w s = \<lparr>ilabel = l, olabel = l, weight = w, nextstate = s\<rparr>"

section \<open>From words to transducers\<close>

text \<open>\<open>TimingWeight(start, end)\<close> converts the two 64-bit times to \<open>float\<close>.\<close>

definition timing_of :: "aligned_word \<Rightarrow> timing_weight" where
  "timing_of ali =
     (Fin (f32 (of_int (aw_start_time ali))),
      Fin (f32 (of_int (aw_start_time ali + aw_duration ali))))"

definition kNoLabel :: int where "kNoLabel = - 1"

text \<open>
  The symbol table maps symbols to labels; \<open>Find\<close> gives \<open>kNoLabel\<close> for an unknown one. One word
  adds an arc for itself and one for \<open><space>\<close>.
\<close>

definition Find :: "(string \<rightharpoonup> int) \<Rightarrow> string \<Rightarrow> int" where
  "Find syms s = (case syms s of None \<Rightarrow> kNoLabel | Some l \<Rightarrow> l)"

definition add_word ::
    "(string \<rightharpoonup> int) \<Rightarrow> int \<Rightarrow> (aligned_word \<Rightarrow> 'w) \<Rightarrow> 'w \<Rightarrow> 'w vector_fst \<times> nat \<Rightarrow> aligned_word \<Rightarrow>
     'w vector_fst \<times> nat" where
  "add_word syms space_id weight_of one st ali =
     (let (f, cur) = st;
          (next1, f1) = AddState f;
          word_id = Find syms (aw_symbol ali);
          f2 = AddArc cur (acceptor_arc word_id (weight_of ali) next1) f1;
          (next2, f3) = AddState f2
      in (AddArc next1 (acceptor_arc space_id one next2) f3, next2))"

definition words_fst ::
    "(string \<rightharpoonup> int) \<Rightarrow> (aligned_word \<Rightarrow> 'w) \<Rightarrow> 'w \<Rightarrow> aligned_word list \<Rightarrow> 'w vector_fst outcome" where
  "words_fst syms weight_of one word_alis =
     (let (cur, f) = AddState empty_fst;
          f1 = SetStart cur f;
          space_id = Find syms ''<space>''
      in if space_id = kNoLabel then Fault Assertion_failed
         else
           (let (f2, cur2) = foldl (add_word syms space_id weight_of one) (f1, cur) word_alis
            in Ret (SetFinal cur2 one f2)))"

definition Convert :: "minmax \<Rightarrow> (string \<rightharpoonup> int) \<Rightarrow> aligned_word list \<Rightarrow> timing_weight vector_fst outcome" where
  "Convert mm syms word_alis = words_fst syms timing_of (Timing_One mm) word_alis"

definition ConvertToTropical ::
    "('w vector_fst \<Rightarrow> 'w vector_fst) \<Rightarrow> 'w \<Rightarrow> (string \<rightharpoonup> int) \<Rightarrow> aligned_word list \<Rightarrow> 'w vector_fst outcome" where
  "ConvertToTropical TopSort one syms word_alis =
     omap TopSort (words_fst syms (\<lambda>_. one) one word_alis)"

text \<open>The byte variants: one arc per byte and one for the separator, which carries the weight.\<close>

definition separator :: int where "separator = 32"

definition byte_labels :: "string \<Rightarrow> int list" where
  "byte_labels s = map of_char s"

definition add_label :: "'w \<Rightarrow> 'w vector_fst \<times> nat \<Rightarrow> int \<Rightarrow> 'w vector_fst \<times> nat" where
  "add_label one st l = (AddArc (snd st) (acceptor_arc l one (snd st + 1)) (fst st), snd st + 1)"

definition add_byte_word ::
    "(aligned_word \<Rightarrow> 'w) \<Rightarrow> 'w \<Rightarrow> 'w vector_fst \<times> nat \<Rightarrow> aligned_word \<Rightarrow> 'w vector_fst \<times> nat" where
  "add_byte_word weight_of one st ali =
     (let labels = byte_labels (aw_symbol ali);
          f1 = AddStates (length labels + 1) (fst st)
      in add_label (weight_of ali) (foldl (add_label one) (f1, snd st) labels) separator)"

definition bytes_fst :: "(aligned_word \<Rightarrow> 'w) \<Rightarrow> 'w \<Rightarrow> aligned_word list \<Rightarrow> 'w vector_fst" where
  "bytes_fst weight_of one word_alis =
     (let (cur, f) = AddState empty_fst;
          (f2, cur2) = foldl (add_byte_word weight_of one) (SetStart cur f, cur) word_alis
      in SetFinal cur2 one f2)"

definition ConvertToByteFst :: "minmax \<Rightarrow> aligned_word list \<Rightarrow> timing_weight vector_fst" where
  "ConvertToByteFst mm word_alis = bytes_fst timing_of (Timing_One mm) word_alis"

definition ConvertToTropicalByteFst ::
    "('w vector_fst \<Rightarrow> 'w vector_fst) \<Rightarrow> 'w \<Rightarrow> aligned_word list \<Rightarrow> 'w vector_fst" where
  "ConvertToTropicalByteFst TopSort one word_alis = TopSort (bytes_fst (\<lambda>_. one) one word_alis)"

section \<open>From transducers to words\<close>

text \<open>
  A \<open>float\<close> that is not finite has no conversion to \<open>int64_t\<close>: the behaviour is undefined, and
  \<open>bad_cast\<close> is what the target does (a fault for the standard, the least integer on x86-64).
\<close>

definition to_int64 :: "int outcome \<Rightarrow> fval \<Rightarrow> int outcome" where
  "to_int64 bad_cast v =
     (case v of
        Fin r \<Rightarrow> if - (2 ^ 63) \<le> trunc r \<and> trunc r < 2 ^ 63 then Ret (trunc r) else bad_cast
      | _ \<Rightarrow> bad_cast)"

fun fminus :: "fval \<Rightarrow> fval \<Rightarrow> fval" where
  "fminus (Fin a) (Fin b) = Fin (f32 (a - b))"
| "fminus Pos_inf (Fin b) = Pos_inf"
| "fminus Neg_inf (Fin b) = Neg_inf"
| "fminus (Fin a) Pos_inf = Neg_inf"
| "fminus (Fin a) Neg_inf = Pos_inf"
| "fminus Pos_inf Neg_inf = Pos_inf"
| "fminus Neg_inf Pos_inf = Neg_inf"
| "fminus _ _ = NaN"

definition StartTimeFromTimingWeight :: "int outcome \<Rightarrow> timing_weight \<Rightarrow> int outcome" where
  "StartTimeFromTimingWeight bad_cast w = to_int64 bad_cast (fst w)"

definition DurationFromTimingWeight :: "int outcome \<Rightarrow> timing_weight \<Rightarrow> int outcome" where
  "DurationFromTimingWeight bad_cast w = to_int64 bad_cast (fminus (snd w) (fst w))"

record convert_state =
  cv_alis :: "aligned_word list"
  cv_symbol :: string
  cv_weight :: timing_weight
  cv_missing :: bool

definition set_last_times :: "int \<Rightarrow> int \<Rightarrow> aligned_word list \<Rightarrow> aligned_word list outcome" where
  "set_last_times s d alis =
     (if alis = [] then Fault Index_out_of_bounds
      else Ret (butlast alis @ [(last alis)\<lparr>aw_start_time := s, aw_duration := d\<rparr>]))"

definition convert_arc ::
    "minmax \<Rightarrow> int outcome \<Rightarrow> timing_weight arc \<Rightarrow> convert_state \<Rightarrow> convert_state outcome" where
  "convert_arc mm bad_cast a st =
     (let one = Timing_One mm;
          w = (if \<not> timing_eq (weight a) one then
                 (if timing_eq (cv_weight st) one then weight a
                  else Timing_Times mm (cv_weight st) (weight a))
               else cv_weight st)
      in if olabel a = separator then
           obind (StartTimeFromTimingWeight bad_cast w) (\<lambda>s.
           omap (\<lambda>d. \<lparr>cv_alis = cv_alis st @ [\<lparr>aw_start_time = s, aw_duration = d, aw_symbol = cv_symbol st\<rparr>],
                   cv_symbol = [], cv_weight = one, cv_missing = cv_missing st \<or> timing_eq w one\<rparr>)
             (DurationFromTimingWeight bad_cast w))
         else
           (let sym = (if olabel a \<noteq> 0 then cv_symbol st @ [char_of (olabel a)] else cv_symbol st) in
            if cv_missing st \<and> \<not> timing_eq w one then
              obind (StartTimeFromTimingWeight bad_cast w) (\<lambda>s.
              obind (DurationFromTimingWeight bad_cast w) (\<lambda>d.
              omap (\<lambda>alis. \<lparr>cv_alis = alis, cv_symbol = sym, cv_weight = one, cv_missing = False\<rparr>)
                (set_last_times s d (cv_alis st))))
            else Ret (st\<lparr>cv_symbol := sym, cv_weight := w\<rparr>)))"

fun convert_arcs ::
    "minmax \<Rightarrow> int outcome \<Rightarrow> timing_weight arc list \<Rightarrow> convert_state \<Rightarrow> convert_state outcome" where
  "convert_arcs mm bad_cast [] st = Ret st"
| "convert_arcs mm bad_cast (a # as) st = obind (convert_arc mm bad_cast a st) (convert_arcs mm bad_cast as)"

definition ConvertFst ::
    "minmax \<Rightarrow> int outcome \<Rightarrow> timing_weight vector_fst \<Rightarrow> aligned_word list outcome" where
  "ConvertFst mm bad_cast f =
     omap cv_alis (convert_arcs mm bad_cast (concat (fst_arcs f))
       \<lparr>cv_alis = [], cv_symbol = [], cv_weight = Timing_One mm, cv_missing = False\<rparr>)"

definition ByteFstToString :: "'w vector_fst \<Rightarrow> string" where
  "ByteFstToString f =
     map (\<lambda>a. char_of (olabel a)) (filter (\<lambda>a. olabel a \<noteq> 0) (concat (fst_arcs f)))"

section \<open>The words are the pieces between spaces\<close>

definition arc_bytes :: "'w arc list \<Rightarrow> string" where
  "arc_bytes as = map (\<lambda>a. char_of (olabel a)) (filter (\<lambda>a. olabel a \<noteq> 0) as)"

lemma arc_bytes_simps [simp]:
  "arc_bytes [] = []"
  "arc_bytes (a # as) = (if olabel a \<noteq> 0 then char_of (olabel a) # arc_bytes as else arc_bytes as)"
  by (simp_all add: arc_bytes_def)

definition byte_label :: "int \<Rightarrow> bool" where
  "byte_label l \<longleftrightarrow> 0 \<le> l \<and> l < 256"

lemma char_of_space: "byte_label l \<Longrightarrow> char_of l = CHR '' '' \<longleftrightarrow> l = 32"
proof -
  assume "byte_label l"
  then have "of_char (char_of l) = l" by (simp add: byte_label_def of_char_of)
  moreover have "(char_of l = CHR '' '') = (of_char (char_of l) = (of_char (CHR '' '') :: int))"
    by (simp only: of_char_eq_iff)
  ultimately show ?thesis by simp
qed

lemma map_symbol_set_last:
  "set_last_times s d alis = Ret alis' \<Longrightarrow> map aw_symbol alis' = map aw_symbol alis"
  by (cases alis rule: rev_cases) (auto simp: set_last_times_def)

lemma convert_arc_symbols:
  assumes "convert_arc mm bad_cast a st = Ret st'"
  shows "if olabel a = separator
    then map aw_symbol (cv_alis st') = map aw_symbol (cv_alis st) @ [cv_symbol st] \<and> cv_symbol st' = []
    else map aw_symbol (cv_alis st') = map aw_symbol (cv_alis st) \<and>
      cv_symbol st' = cv_symbol st @ arc_bytes [a]"
  using assms
  by (auto simp: convert_arc_def Let_def outcome_simps separator_def dest: map_symbol_set_last
      split: if_split_asm)

lemma convert_arcs_symbols:
  "convert_arcs mm bad_cast as st = Ret st' \<Longrightarrow> list_all (\<lambda>a. byte_label (olabel a)) as \<Longrightarrow>
   CHR '' '' \<notin> set (cv_symbol st) \<Longrightarrow>
   map aw_symbol (cv_alis st') @ [cv_symbol st'] =
     map aw_symbol (cv_alis st) @ Split (cv_symbol st @ arc_bytes as) (CHR '' '')"
proof (induction as arbitrary: st)
  case Nil
  then show ?case by (simp add: Split_no_sep)
next
  case (Cons a as)
  from Cons.prems(1) obtain st1 where st1: "convert_arc mm bad_cast a st = Ret st1"
      "convert_arcs mm bad_cast as st1 = Ret st'"
    by (auto simp: outcome_simps)
  note sym = convert_arc_symbols [OF st1(1)]
  show ?case
  proof (cases "olabel a = separator")
    case True
    with sym Cons.IH [OF st1(2)] Cons.prems(2,3) char_of_space [of "olabel a"] show ?thesis
      by (simp add: Split_sep separator_def)
  next
    case False
    with sym Cons.IH [OF st1(2)] Cons.prems(2,3) char_of_space [of "olabel a"] show ?thesis
      by (auto simp: separator_def)
  qed
qed

text \<open>
  Whatever its weights, a transducer over bytes is cut into words at its spaces: when the
  conversion returns, the symbols of the words are the pieces of its byte string between spaces.
  What follows the last space is dropped.
\<close>

theorem ConvertFst_symbols:
  assumes "ConvertFst mm bad_cast f = Ret ws"
    and "list_all (\<lambda>a. byte_label (olabel a)) (concat (fst_arcs f))"
  shows "map aw_symbol ws = butlast (Split (ByteFstToString f) (CHR '' ''))"
proof -
  obtain st where st: "convert_arcs mm bad_cast (concat (fst_arcs f))
      \<lparr>cv_alis = [], cv_symbol = [], cv_weight = Timing_One mm, cv_missing = False\<rparr> = Ret st"
      "ws = cv_alis st"
    using assms(1) by (auto simp: ConvertFst_def outcome_simps)
  from convert_arcs_symbols [OF st(1) assms(2)]
  have "map aw_symbol ws @ [cv_symbol st] = Split (ByteFstToString f) (CHR '' '')"
    by (simp add: st(2) ByteFstToString_def arc_bytes_def)
  then show ?thesis by (metis butlast_snoc)
qed

section \<open>Round trip\<close>

lemma fst_arcs_AddArc:
  "fst_arcs f = pre @ replicate (Suc k) [] \<Longrightarrow> length pre = c \<Longrightarrow>
     fst_arcs (AddArc c a f) = (pre @ [[a]]) @ replicate k []"
  by (simp add: AddArc_def nth_append list_update_append)

definition arc_labels :: "'w arc list \<Rightarrow> (int \<times> 'w) list" where
  "arc_labels as = map (\<lambda>a. (olabel a, weight a)) as"

lemma arc_labels_simps [simp]:
  "arc_labels [] = []" "arc_labels (a # as) = (olabel a, weight a) # arc_labels as"
  "arc_labels (as @ bs) = arc_labels as @ arc_labels bs"
  by (simp_all add: arc_labels_def)

lemma acceptor_arc_fields [simp]: "olabel (acceptor_arc l w s) = l" "weight (acceptor_arc l w s) = w"
  by (simp_all add: acceptor_arc_def)

text \<open>The state of the construction: \<open>c\<close> states done, then states without arcs.\<close>

definition linear_upto :: "'w vector_fst \<Rightarrow> nat \<Rightarrow> nat \<Rightarrow> (int \<times> 'w) list \<Rightarrow> bool" where
  "linear_upto f c k ls \<longleftrightarrow>
     (\<exists>pre. fst_arcs f = pre @ replicate k [] \<and> length pre = c \<and> arc_labels (concat pre) = ls)"

lemma add_label_linear:
  "linear_upto f c (Suc k) ls \<Longrightarrow>
   \<exists>f'. add_label w (f, c) l = (f', Suc c) \<and> linear_upto f' (Suc c) k (ls @ [(l, w)])"
  using fst_arcs_AddArc [of f _ k c "acceptor_arc l w (Suc c)"]
  by (fastforce simp: linear_upto_def add_label_def)

lemma foldl_add_label_linear:
  "linear_upto f c (length ms + k) ls \<Longrightarrow>
   \<exists>f'. foldl (add_label w) (f, c) ms = (f', c + length ms) \<and>
     linear_upto f' (c + length ms) k (ls @ map (\<lambda>l. (l, w)) ms)"
proof (induction ms arbitrary: f c ls)
  case (Cons m ms)
  then obtain f1 where "add_label w (f, c) m = (f1, Suc c)"
      "linear_upto f1 (Suc c) (length ms + k) (ls @ [(m, w)])"
    using add_label_linear [of f c "length ms + k" ls w m] by auto
  with Cons.IH [of f1 "Suc c" "ls @ [(m, w)]"] show ?case by simp
qed simp

definition word_labels :: "(aligned_word \<Rightarrow> 'w) \<Rightarrow> 'w \<Rightarrow> aligned_word \<Rightarrow> (int \<times> 'w) list" where
  "word_labels weight_of one ali =
     map (\<lambda>l. (l, one)) (byte_labels (aw_symbol ali)) @ [(separator, weight_of ali)]"

lemma AddStates_linear: "linear_upto f c k ls \<Longrightarrow> linear_upto (AddStates n f) c (k + n) ls"
  by (auto simp: linear_upto_def AddStates_def replicate_add)

lemma add_byte_word_linear:
  assumes "linear_upto f c 1 ls"
  shows "\<exists>f' c'. add_byte_word weight_of one (f, c) ali = (f', c') \<and>
    linear_upto f' c' 1 (ls @ word_labels weight_of one ali)"
proof -
  let ?ms = "byte_labels (aw_symbol ali)"
  have "linear_upto (AddStates (length ?ms + 1) f) c (length ?ms + 2) ls"
    using AddStates_linear [OF assms, of "length ?ms + 1"] by (simp add: add.commute)
  from foldl_add_label_linear [OF this, of one] obtain f1 where f1:
    "foldl (add_label one) (AddStates (length ?ms + 1) f, c) ?ms = (f1, c + length ?ms)"
    "linear_upto f1 (c + length ?ms) (Suc 1) (ls @ map (\<lambda>l. (l, one)) ?ms)"
    by (auto simp: numeral_2_eq_2)
  from add_label_linear [OF f1(2), of "weight_of ali" separator] f1(1) show ?thesis
    by (auto simp: add_byte_word_def word_labels_def Let_def)
qed

lemma bytes_fst_labels:
  "arc_labels (concat (fst_arcs (bytes_fst weight_of one alis))) = concat (map (word_labels weight_of one) alis)"
proof -
  have "linear_upto f c 1 ls \<Longrightarrow> \<exists>f' c'. foldl (add_byte_word weight_of one) (f, c) alis = (f', c') \<and>
      linear_upto f' c' 1 (ls @ concat (map (word_labels weight_of one) alis))" for f c ls
  proof (induction alis arbitrary: f c ls)
    case (Cons ali alis)
    from add_byte_word_linear [OF Cons.prems, of weight_of one ali] obtain f1 c1 where
      "add_byte_word weight_of one (f, c) ali = (f1, c1)"
      "linear_upto f1 c1 1 (ls @ word_labels weight_of one ali)" by blast
    with Cons.IH [OF this(2)] show ?case by simp
  qed simp
  moreover have "linear_upto (SetStart 0 (AddStates 1 empty_fst)) 0 1 []"
    by (simp add: linear_upto_def SetStart_def AddStates_def empty_fst_def)
  ultimately obtain f c where
    "foldl (add_byte_word weight_of one) (SetStart 0 (AddStates 1 empty_fst), 0) alis = (f, c)"
    "linear_upto f c 1 (concat (map (word_labels weight_of one) alis))"
    by fastforce
  then show ?thesis
    by (auto simp: bytes_fst_def AddState_def empty_fst_def linear_upto_def SetFinal_def Let_def)
qed

text \<open>Reading depends on the labels and weights only.\<close>

lemma convert_arcs_cong:
  "arc_labels as = arc_labels bs \<Longrightarrow> convert_arcs mm bad_cast as st = convert_arcs mm bad_cast bs st"
proof (induction as arbitrary: bs st)
  case (Cons a as)
  then obtain b bs' where "bs = b # bs'" "olabel a = olabel b" "weight a = weight b"
      "arc_labels as = arc_labels bs'"
    by (cases bs) auto
  moreover from this have "convert_arc mm bad_cast a = convert_arc mm bad_cast b"
    by (simp add: convert_arc_def fun_eq_iff Let_def)
  ultimately show ?case using Cons.IH by (cases "convert_arc mm bad_cast b st") auto
qed (simp add: arc_labels_def)

lemma convert_arcs_append:
  "convert_arcs mm bad_cast (as @ bs) st = obind (convert_arcs mm bad_cast as st) (convert_arcs mm bad_cast bs)"
proof (induction as arbitrary: st)
  case (Cons a as)
  then show ?case by (cases "convert_arc mm bad_cast a st") simp_all
qed simp

text \<open>A word whose symbol can be spelled in bytes and whose times a \<open>float\<close> holds exactly.\<close>

definition exact_word :: "aligned_word \<Rightarrow> bool" where
  "exact_word ali \<longleftrightarrow> CHR '' '' \<notin> set (aw_symbol ali) \<and> CHR 0x00 \<notin> set (aw_symbol ali) \<and>
     0 \<le> aw_start_time ali \<and> 0 \<le> aw_duration ali \<and> aw_start_time ali + aw_duration ali < 2 ^ 24"

definition arcs_of :: "(int \<times> 'w) list \<Rightarrow> 'w arc list" where
  "arcs_of ls = map (\<lambda>(l, w). acceptor_arc l w 0) ls"

lemma arcs_of_simps [simp]:
  "arcs_of [] = []" "arcs_of (p # ls) = acceptor_arc (fst p) (snd p) 0 # arcs_of ls"
  "arcs_of (ls @ ms) = arcs_of ls @ arcs_of ms" "arc_labels (arcs_of ls) = ls"
  by (simp_all add: arcs_of_def arc_labels_def split_beta comp_def)

lemma timing_One_eq: "minmax_one mm \<noteq> NaN \<Longrightarrow> timing_eq (Timing_One mm) (Timing_One mm)"
  by (cases "minmax_one mm") (simp_all add: timing_eq_def Timing_One_def MaxMin_One_def feq_def)

lemma timing_of_not_One: "\<not> timing_eq (timing_of ali) (Timing_One mm)"
  by (simp add: timing_eq_def timing_of_def Timing_One_def MaxMin_One_def feq_def)

lemma convert_letters:
  assumes "minmax_one mm \<noteq> NaN"
  shows "CHR '' '' \<notin> set cs \<Longrightarrow> CHR 0x00 \<notin> set cs \<Longrightarrow>
   convert_arcs mm bad_cast (arcs_of (map (\<lambda>l. (l, Timing_One mm)) (byte_labels cs)))
     \<lparr>cv_alis = alis, cv_symbol = s, cv_weight = Timing_One mm, cv_missing = False\<rparr> =
   Ret \<lparr>cv_alis = alis, cv_symbol = s @ cs, cv_weight = Timing_One mm, cv_missing = False\<rparr>"
proof (induction cs arbitrary: s)
  case (Cons c cs)
  have sp: "of_char c \<noteq> (32 :: int)"
  proof
    assume "of_char c = (32 :: int)"
    then have "of_char c = (of_char (CHR '' '') :: int)" by simp
    with Cons.prems(1) show False by (simp only: of_char_eq_iff) simp
  qed
  have nul: "of_char c \<noteq> (0 :: int)"
  proof
    assume "of_char c = (0 :: int)"
    then have "of_char c = (of_char (CHR 0x00) :: int)" by simp
    with Cons.prems(2) show False by (simp only: of_char_eq_iff) simp
  qed
  from Cons sp nul timing_One_eq [OF assms] show ?case
    by (simp add: byte_labels_def convert_arc_def separator_def)
qed (simp add: byte_labels_def)

lemma exact_times:
  assumes "exact_word ali"
  shows "StartTimeFromTimingWeight bad_cast (timing_of ali) = Ret (aw_start_time ali)"
    and "DurationFromTimingWeight bad_cast (timing_of ali) = Ret (aw_duration ali)"
proof -
  have r: "f32 (of_int (aw_start_time ali)) = of_int (aw_start_time ali)"
    "f32 (of_int (aw_start_time ali + aw_duration ali)) = of_int (aw_start_time ali + aw_duration ali)"
    "f32 (of_int (aw_duration ali)) = of_int (aw_duration ali)"
    using assms by (intro f32_of_int; simp add: exact_word_def)+
  show "StartTimeFromTimingWeight bad_cast (timing_of ali) = Ret (aw_start_time ali)"
    using assms r by (simp add: StartTimeFromTimingWeight_def timing_of_def to_int64_def exact_word_def)
  have "fminus (snd (timing_of ali)) (fst (timing_of ali)) = Fin (of_int (aw_duration ali))"
    unfolding timing_of_def snd_conv fst_conv r fminus.simps by (simp add: r(3))
  then show "DurationFromTimingWeight bad_cast (timing_of ali) = Ret (aw_duration ali)"
    using assms by (simp add: DurationFromTimingWeight_def to_int64_def exact_word_def)
qed

lemma convert_word:
  assumes "minmax_one mm \<noteq> NaN" "exact_word ali"
  shows "convert_arcs mm bad_cast (arcs_of (word_labels timing_of (Timing_One mm) ali))
     \<lparr>cv_alis = alis, cv_symbol = [], cv_weight = Timing_One mm, cv_missing = False\<rparr> =
   Ret \<lparr>cv_alis = alis @ [ali], cv_symbol = [], cv_weight = Timing_One mm, cv_missing = False\<rparr>"
proof -
  have "convert_arcs mm bad_cast (arcs_of (map (\<lambda>l. (l, Timing_One mm)) (byte_labels (aw_symbol ali))))
     \<lparr>cv_alis = alis, cv_symbol = [], cv_weight = Timing_One mm, cv_missing = False\<rparr> =
   Ret \<lparr>cv_alis = alis, cv_symbol = aw_symbol ali, cv_weight = Timing_One mm, cv_missing = False\<rparr>"
    using convert_letters [OF assms(1), of "aw_symbol ali" bad_cast alis "[]"] assms(2)
    by (simp add: exact_word_def)
  then show ?thesis
    using exact_times [OF assms(2), of bad_cast] timing_of_not_One [of ali mm] timing_One_eq [OF assms(1)]
    by (simp add: word_labels_def convert_arcs_append convert_arc_def Let_def)
qed

lemma byte_fst_round_trip:
  assumes "minmax_one mm \<noteq> NaN" and "list_all exact_word alis"
  shows "ConvertFst mm bad_cast (ConvertToByteFst mm alis) = Ret alis"
proof -
  let ?ls = "concat (map (word_labels timing_of (Timing_One mm)) alis)"
  let ?st = "\<lambda>acc. \<lparr>cv_alis = acc, cv_symbol = [], cv_weight = Timing_One mm, cv_missing = False\<rparr>"
  have "convert_arcs mm bad_cast (arcs_of ?ls) (?st acc) = Ret (?st (acc @ alis))" for acc
    using assms(2)
  proof (induction alis arbitrary: acc)
    case (Cons ali alis)
    with convert_word [OF assms(1), of ali bad_cast acc] show ?case
      by (simp add: convert_arcs_append)
  qed simp
  moreover have "convert_arcs mm bad_cast (concat (fst_arcs (ConvertToByteFst mm alis))) (?st []) =
      convert_arcs mm bad_cast (arcs_of ?ls) (?st [])"
    by (rule convert_arcs_cong) (simp add: ConvertToByteFst_def bytes_fst_labels)
  ultimately show ?thesis by (simp add: ConvertFst_def)
qed

text \<open>
  C21. Converting words with times to a byte transducer and back returns them unchanged, symbols and
  times: for symbols without space and NUL bytes and times below \<open>2 ^ 24\<close> milliseconds (four and
  a half hours), where the \<open>float\<close> weights are exact, and for any behaviour of OpenFst's
  \<open>MinMaxWeight\<close> whose \<open>One\<close> is not NaN.
\<close>

theorem ConvertFst_ConvertToByteFst:
  assumes "minmax_one mm \<noteq> NaN" and "list_all exact_word alis"
  shows "ConvertFst mm bad_cast (ConvertToByteFst mm alis) = Ret alis"
  using assms by (rule byte_fst_round_trip)

definition sample_words :: "aligned_word list" where
  "sample_words = [\<lparr>aw_start_time = 0, aw_duration = 100, aw_symbol = ''AB''\<rparr>,
     \<lparr>aw_start_time = 105, aw_duration = 95, aw_symbol = ''CD''\<rparr>]"

definition sample_minmax :: minmax where
  "sample_minmax = \<lparr>minmax_times = \<lambda>a b. if fle a b then b else a, minmax_one = Neg_inf\<rparr>"

theorem ConvertFst_ConvertToByteFst_witness:
  "ConvertFst sample_minmax (Fault Invalid_conversion) (ConvertToByteFst sample_minmax sample_words) =
     Ret sample_words"
  by (rule ConvertFst_ConvertToByteFst) (simp_all add: sample_minmax_def sample_words_def exact_word_def)

text \<open>
  The transducer of the example in \<open>converters.h\<close>: the bytes \<open>ABCD\<close> with weights on \<open>A\<close> and \<open>C\<close>.
\<close>

definition doc_example :: "timing_weight vector_fst" where
  "doc_example = (let one = Timing_One sample_minmax in
     empty_fst\<lparr>fst_arcs := [[acceptor_arc 65 (Fin 0, Fin 100) 1], [acceptor_arc 66 one 2],
       [acceptor_arc 67 (Fin 105, Fin 200) 3], [acceptor_arc 68 one 4], []]\<rparr>)"

lemma doc_example_has_no_words: "ConvertFst sample_minmax bad_cast doc_example = Ret []"
  by (simp add: ConvertFst_def doc_example_def Let_def convert_arc_def separator_def timing_eq_def
      Timing_One_def sample_minmax_def MaxMin_One_def feq_def empty_fst_def)

theorem ConvertFst_symbols_witness: "butlast (Split (ByteFstToString doc_example) (CHR '' '')) = []"
  using ConvertFst_symbols [OF doc_example_has_no_words]
  by (simp add: doc_example_def Let_def byte_label_def empty_fst_def)

text \<open>Above \<open>2 ^ 24\<close> milliseconds the start time moves.\<close>

lemma late_word_moves:
  "StartTimeFromTimingWeight bad_cast
     (timing_of \<lparr>aw_start_time = 16777217, aw_duration = 0, aw_symbol = ''x''\<rparr>) = Ret 16777216"
proof -
  have "f32 16777217 = 16777216" by code_simp
  then show ?thesis by (simp add: StartTimeFromTimingWeight_def timing_of_def to_int64_def trunc_def)
qed

end
