(* ===== verification/Formatter.thy ===== *)
theory Formatter
  imports Converters
begin

text \<open>
  \<open>src/itn/formatter.cc\<close>: rewriting the words of a transcript with transducers while keeping their
  times, and building the lexicon transducer. OpenFst's and Thrax's algorithms are the parameter
  record \<open>fst_ops\<close>; \<open>'t\<close> is the tropical weight.
\<close>

record 't fst_ops =
  Relabel :: "(int \<times> int) list \<Rightarrow> 't vector_fst \<Rightarrow> 't vector_fst"
  ArcSort_olabel :: "'t vector_fst \<Rightarrow> 't vector_fst"
  ArcSort_ilabel :: "'t vector_fst \<Rightarrow> 't vector_fst"
  ArcSort_timing :: "timing_weight vector_fst \<Rightarrow> timing_weight vector_fst"
  Compose :: "'t vector_fst \<Rightarrow> 't vector_fst \<Rightarrow> 't vector_fst"
  Compose_timing :: "timing_weight vector_fst \<Rightarrow> timing_weight vector_fst \<Rightarrow> timing_weight vector_fst"
  ShortestPath :: "'t vector_fst \<Rightarrow> 't vector_fst"
  TopSort :: "'t vector_fst \<Rightarrow> 't vector_fst"
  StringMapCompile :: "string list list \<Rightarrow> 't vector_fst option"
  Concat :: "'t vector_fst \<Rightarrow> 't vector_fst \<Rightarrow> 't vector_fst"
  Closure_plus :: "'t vector_fst \<Rightarrow> 't vector_fst"
  RmEpsilon :: "'t vector_fst \<Rightarrow> 't vector_fst"
  Encode :: "'t vector_fst \<Rightarrow> 't vector_fst"
  Determinize :: "'t vector_fst \<Rightarrow> 't vector_fst"
  Minimize :: "'t vector_fst \<Rightarrow> 't vector_fst"
  Decode :: "'t vector_fst \<Rightarrow> 't vector_fst"
  RelabelPairs :: "'t vector_fst \<Rightarrow> (int \<times> int) list"
  LookAhead :: "'t vector_fst \<Rightarrow> 't vector_fst"
  tropical_One :: 't

text \<open>\<open>ArcMap\<close> with the weight converter of \<open>timing-weight.h\<close>: every weight becomes \<open>One\<close>.\<close>

definition to_timing :: "minmax \<Rightarrow> 't vector_fst \<Rightarrow> timing_weight vector_fst" where
  "to_timing mm f =
     \<lparr>fst_start = fst_start f,
      fst_arcs = map (map (\<lambda>a. \<lparr>ilabel = ilabel a, olabel = olabel a,
        weight = Tropical_to_Timing mm (weight a), nextstate = nextstate a\<rparr>)) (fst_arcs f),
      fst_final = (\<lambda>s. map_option (Tropical_to_Timing mm) (fst_final f s))\<rparr>"

section \<open>LookAheadFormatter\<close>

record 't look_ahead_formatter =
  relabel_pairs :: "(int \<times> int) list"
  lookahead_fst :: "'t vector_fst"

definition LookAheadFormatter ::
    "(string \<Rightarrow> (int \<times> int) list option) \<Rightarrow> (string \<Rightarrow> 't vector_fst option) \<Rightarrow> string \<Rightarrow> string \<Rightarrow>
     't look_ahead_formatter outcome" where
  "LookAheadFormatter ReadLabelPairs Read relabel_pairs_filename fst_filename =
     (case ReadLabelPairs relabel_pairs_filename of
        None \<Rightarrow> Throw (Runtime_error (''Could not read relabel pairs from file '' @ [CHR 0x27] @
          relabel_pairs_filename @ [CHR 0x27]))
      | Some pairs \<Rightarrow>
          (case Read fst_filename of
             None \<Rightarrow> Throw (Runtime_error (''Could not read look ahead FST from file '' @ [CHR 0x27] @
               fst_filename @ [CHR 0x27]))
           | Some f \<Rightarrow> Ret \<lparr>relabel_pairs = pairs, lookahead_fst = f\<rparr>))"

definition Format ::
    "'t fst_ops \<Rightarrow> 't vector_fst \<Rightarrow> (int \<times> int) list \<Rightarrow> 't vector_fst \<Rightarrow> 't vector_fst" where
  "Format ops ifst pairs rewrite_fst = Compose ops (ArcSort_olabel ops (Relabel ops pairs ifst)) rewrite_fst"

definition LookAhead_FormatWords ::
    "'t fst_ops \<Rightarrow> minmax \<Rightarrow> int outcome \<Rightarrow> 't look_ahead_formatter \<Rightarrow> (string \<rightharpoonup> int) \<Rightarrow>
     aligned_word list \<Rightarrow> aligned_word list outcome" where
  "LookAhead_FormatWords ops mm bad_cast fmt isyms words =
     obind (ConvertToTropical (TopSort ops) (tropical_One ops) isyms words) (\<lambda>words_fst.
     let formatted_words_fst = Format ops words_fst (relabel_pairs fmt) (lookahead_fst fmt);
         formatted_time_fst = to_timing mm formatted_words_fst
     in obind (Convert mm isyms words) (\<lambda>timing_symbol_fst.
        ConvertFst mm bad_cast (Compose_timing ops timing_symbol_fst formatted_time_fst)))"

section \<open>Formatter\<close>

definition Formatter_ctor ::
    "(string \<Rightarrow> 't vector_fst option) \<Rightarrow> string \<Rightarrow> 't vector_fst outcome" where
  "Formatter_ctor Read rewrite_fst_filename =
     (case Read rewrite_fst_filename of
        None \<Rightarrow> Throw (Runtime_error (''Could not read rewrite FST from file '' @ [CHR 0x27] @
          rewrite_fst_filename @ [CHR 0x27]))
      | Some f \<Rightarrow> Ret f)"

definition FormatWords ::
    "'t fst_ops \<Rightarrow> minmax \<Rightarrow> int outcome \<Rightarrow> 't vector_fst \<Rightarrow> aligned_word list \<Rightarrow> aligned_word list outcome" where
  "FormatWords ops mm bad_cast rewrite_fst words =
     (let words_byte_fst = ArcSort_olabel ops (ConvertToTropicalByteFst (TopSort ops) (tropical_One ops) words);
          formatted_candidates_fst = Compose ops words_byte_fst rewrite_fst;
          formatted_words_fst = ShortestPath ops formatted_candidates_fst;
          formatted_time_fst = to_timing mm formatted_words_fst;
          timing_symbol_fst = ArcSort_timing ops (ConvertToByteFst mm words);
          timing_byte_fst = Compose_timing ops timing_symbol_fst formatted_time_fst
      in ConvertFst mm bad_cast timing_byte_fst)"

section \<open>The lexicon\<close>

definition Optimize :: "'t fst_ops \<Rightarrow> 't vector_fst \<Rightarrow> 't vector_fst" where
  "Optimize ops f = Decode ops (Minimize ops (Determinize ops (Encode ops (RmEpsilon ops f))))"

definition default_filter :: "string list" where
  "default_filter = [''<eps>'', ''<s>'', ''</s>'', ''#0'', ''<space>'']"

definition lexicon_string_map :: "string list \<Rightarrow> string list \<Rightarrow> string list list" where
  "lexicon_string_map symbols filter_syms =
     map (\<lambda>s. [s, s]) (filter (\<lambda>s. \<not> list_ex (\<lambda>f. s = f) filter_syms) symbols)"

text \<open>\<open>TIRO_SPEECH_FATAL\<close> logs and aborts.\<close>

definition CreateLexiconFst :: "'t fst_ops \<Rightarrow> string list \<Rightarrow> string list \<Rightarrow> 't vector_fst outcome" where
  "CreateLexiconFst ops input_symbols filter_syms =
     (case StringMapCompile ops (lexicon_string_map input_symbols filter_syms) of
        None \<Rightarrow> Fault Aborted
      | Some lexicon_fst \<Rightarrow>
          (case StringMapCompile ops [[''<space>'', '' '']] of
             None \<Rightarrow> Fault Aborted
           | Some space_fst \<Rightarrow>
               Ret (ArcSort_ilabel ops (Optimize ops (Closure_plus ops (Concat ops lexicon_fst space_fst))))))"

definition CreateLookaheadFormatterFst ::
    "'t fst_ops \<Rightarrow> 't vector_fst \<Rightarrow> 't vector_fst \<Rightarrow> 't vector_fst \<times> (int \<times> int) list" where
  "CreateLookaheadFormatterFst ops lexicon_fst rewrite_fst =
     (let rewrite_from_syms_fst = Compose ops lexicon_fst rewrite_fst;
          lookahead = LookAhead ops rewrite_from_syms_fst
      in (lookahead, RelabelPairs ops lookahead))"

text \<open>
  A rewriting that does nothing gives the words back with their times: if composing the timing
  transducer with the rewritten one leaves its bytes and weights as they are, formatting is the
  identity on words the transducers can carry.
\<close>

lemma FormatWords_identity:
  assumes "minmax_one mm \<noteq> NaN" "list_all exact_word words"
    and "\<And>f. arc_labels (concat (fst_arcs
      (Compose_timing ops (ArcSort_timing ops (ConvertToByteFst mm words)) f))) =
      arc_labels (concat (fst_arcs (ConvertToByteFst mm words)))"
  shows "FormatWords ops mm bad_cast rewrite_fst words = Ret words"
proof -
  note same = convert_arcs_cong [OF assms(3), of mm bad_cast]
  have "ConvertFst mm bad_cast (ConvertToByteFst mm words) = Ret words"
    using assms(1,2) by (rule byte_fst_round_trip)
  then show ?thesis by (simp add: FormatWords_def Let_def ConvertFst_def same)
qed

end
