(* ===== verification/Formatter_Times.thy ===== *)
theory Formatter_Times
  imports Formatter
begin

text \<open>
  What the weights carry through the formatter: when a rewriting replaces some words by one (as
  \<open>tuttugu og einn\<close> by \<open>21\<close>), the new word starts with the first and ends with the last of them. The
  timing weight of a path is the least start and the greatest end on it, so it does not matter on which
  arcs between two spaces the composition has put the weights of the words.
\<close>

section \<open>What a rewriting leaves\<close>

text \<open>A new word and the words it replaces, and what it spans.\<close>

type_synonym rewriting = "string \<times> aligned_word list"

definition start_of :: "aligned_word list \<Rightarrow> int" where
  "start_of ws = Min (set (map aw_start_time ws))"

definition end_of :: "aligned_word list \<Rightarrow> int" where
  "end_of ws = Max (set (map (\<lambda>w. aw_start_time w + aw_duration w) ws))"

definition spanning :: "rewriting \<Rightarrow> aligned_word" where
  "spanning g = \<lparr>aw_start_time = start_of (snd g), aw_duration = end_of (snd g) - start_of (snd g), aw_symbol = fst g\<rparr>"

text \<open>
  The arcs of a new word: bytes and epsilons, then a space; those arcs that have a weight have the
  weights of the words it replaces.
\<close>

definition arc_weights :: "minmax \<Rightarrow> timing_weight arc list \<Rightarrow> timing_weight list" where
  "arc_weights mm as = filter (\<lambda>w. \<not> timing_eq w (Timing_One mm)) (map weight as)"

definition spells :: "minmax \<Rightarrow> rewriting \<Rightarrow> timing_weight arc list \<Rightarrow> bool" where
  "spells mm g as \<longleftrightarrow> as \<noteq> [] \<and> olabel (last as) = separator \<and> list_all (\<lambda>a. olabel a \<noteq> separator) (butlast as) \<and>
     arc_bytes (butlast as) = fst g \<and> snd g \<noteq> [] \<and> arc_weights mm as = map timing_of (snd g)"

definition rewritten :: "minmax \<Rightarrow> rewriting list \<Rightarrow> timing_weight vector_fst \<Rightarrow> bool" where
  "rewritten mm gs f \<longleftrightarrow> (\<exists>ass. concat (fst_arcs f) = concat ass \<and> list_all2 (spells mm) gs ass)"

text \<open>What OpenFst's \<open>MinMaxWeight\<close> does with finite values.\<close>

definition minmax_ok :: "minmax \<Rightarrow> bool" where
  "minmax_ok mm \<longleftrightarrow> minmax_one mm \<noteq> NaN \<and> (\<forall>a b. minmax_times mm (Fin a) (Fin b) = Fin (max a b))"

section \<open>The weight of a path\<close>

definition path_weight :: "minmax \<Rightarrow> aligned_word list \<Rightarrow> timing_weight" where
  "path_weight mm ws =
     (if ws = [] then Timing_One mm else (Fin (of_int (start_of ws)), Fin (of_int (end_of ws))))"

definition timed :: "aligned_word \<Rightarrow> bool" where
  "timed w \<longleftrightarrow> 0 \<le> aw_start_time w \<and> 0 \<le> aw_duration w \<and> aw_start_time w + aw_duration w < 2 ^ 24"

lemma timing_of_timed:
  "timed w \<Longrightarrow> timing_of w = (Fin (of_int (aw_start_time w)), Fin (of_int (aw_start_time w + aw_duration w)))"
  unfolding timing_of_def timed_def by (subst f32_of_int; simp)+

lemma finite_not_One: "\<not> timing_eq (Fin a, b) (Timing_One mm)"
  by (simp add: timing_eq_def Timing_One_def MaxMin_One_def feq_def)

lemma spans_snoc:
  "ws \<noteq> [] \<Longrightarrow> start_of (ws @ [w]) = min (start_of ws) (aw_start_time w)"
  "ws \<noteq> [] \<Longrightarrow> end_of (ws @ [w]) = max (end_of ws) (aw_start_time w + aw_duration w)"
  by (simp_all add: start_of_def end_of_def Min_insert2 Max_insert2 min.commute max.commute)

lemma path_weight_Nil: "path_weight mm [] = Timing_One mm"
  by (simp add: path_weight_def)

lemma path_weight_snoc:
  assumes "minmax_ok mm" "timed w"
  shows "path_weight mm (ws @ [w]) =
    (if timing_eq (path_weight mm ws) (Timing_One mm) then timing_of w
     else Timing_Times mm (path_weight mm ws) (timing_of w))"
proof (cases "ws = []")
  case True
  then show ?thesis
    using assms by (simp add: path_weight_def timing_of_timed start_of_def end_of_def minmax_ok_def timing_One_eq)
next
  case False
  then show ?thesis
    using assms by (simp add: path_weight_def timing_of_timed finite_not_One spans_snoc Timing_Times_def
        minmax_ok_def MaxMin_Times_def Member_iff of_int_min of_int_max min_def)
qed

section \<open>Reading the words off\<close>

lemma arc_weights_Cons:
  "arc_weights mm (a # as) =
    (if timing_eq (weight a) (Timing_One mm) then arc_weights mm as else weight a # arc_weights mm as)"
  by (simp add: arc_weights_def)

abbreviation reading ::
    "minmax \<Rightarrow> aligned_word list \<Rightarrow> string \<Rightarrow> aligned_word list \<Rightarrow> convert_state" where
  "reading mm alis s ws \<equiv> \<lparr>cv_alis = alis, cv_symbol = s, cv_weight = path_weight mm ws, cv_missing = False\<rparr>"

text \<open>The weight after an arc: \<open>us\<close> are the words whose weight it has, at most one.\<close>

lemma convert_arc_reading:
  assumes "minmax_ok mm" "list_all timed us" "arc_weights mm [a] = map timing_of us"
  shows "convert_arc mm bad_cast a (reading mm alis s ws) =
    (if olabel a = separator then
       obind (StartTimeFromTimingWeight bad_cast (path_weight mm (ws @ us))) (\<lambda>t.
       omap (\<lambda>d. \<lparr>cv_alis = alis @ [\<lparr>aw_start_time = t, aw_duration = d, aw_symbol = s\<rparr>], cv_symbol = [],
           cv_weight = Timing_One mm, cv_missing = timing_eq (path_weight mm (ws @ us)) (Timing_One mm)\<rparr>)
         (DurationFromTimingWeight bad_cast (path_weight mm (ws @ us))))
     else Ret (reading mm alis (s @ arc_bytes [a]) (ws @ us)))"
proof (cases "timing_eq (weight a) (Timing_One mm)")
  case True
  then have "us = []" using assms(3) by (simp add: arc_weights_Cons arc_weights_def)
  then show ?thesis using True by (simp add: convert_arc_def Let_def)
next
  case False
  then obtain u where u: "us = [u]" "weight a = timing_of u"
    using assms(3) by (cases us) (auto simp: arc_weights_def)
  then show ?thesis
    using False assms(2) path_weight_snoc [OF assms(1), of u ws] by (simp add: convert_arc_def Let_def)
qed

lemma convert_letters_timed:
  assumes "minmax_ok mm"
  shows "list_all (\<lambda>a. olabel a \<noteq> separator) as \<Longrightarrow> list_all timed us \<Longrightarrow> arc_weights mm as = map timing_of us \<Longrightarrow>
    convert_arcs mm bad_cast as (reading mm alis s ws) = Ret (reading mm alis (s @ arc_bytes as) (ws @ us))"
proof (induction as arbitrary: s ws us)
  case Nil
  then show ?case by (simp add: arc_weights_def)
next
  case (Cons a as)
  obtain us1 us2 where us: "us = us1 @ us2" "arc_weights mm [a] = map timing_of us1" "arc_weights mm as = map timing_of us2"
  proof (cases "timing_eq (weight a) (Timing_One mm)")
    case True
    then show thesis using Cons.prems(3) that [of "[]" us] by (simp add: arc_weights_def)
  next
    case False
    then obtain u us2 where "us = u # us2" "weight a = timing_of u" "arc_weights mm as = map timing_of us2"
      using Cons.prems(3) by (cases us) (auto simp: arc_weights_def)
    then show thesis using that [of "[u]" us2] False by (simp add: arc_weights_def)
  qed
  then show ?case
    using Cons.prems(1,2) Cons.IH [of us2 "s @ arc_bytes [a]" "ws @ us1"]
      convert_arc_reading [OF assms _ us(2), of bad_cast alis s ws] by simp
qed

lemma path_times:
  assumes "ws \<noteq> []" "list_all timed ws"
  shows "StartTimeFromTimingWeight bad_cast (path_weight mm ws) = Ret (start_of ws)"
    and "DurationFromTimingWeight bad_cast (path_weight mm ws) = Ret (end_of ws - start_of ws)"
proof -
  have "start_of ws \<in> aw_start_time ` set ws" "end_of ws \<in> (\<lambda>w. aw_start_time w + aw_duration w) ` set ws"
    using assms(1) by (simp_all add: start_of_def end_of_def)
  then obtain w v where w: "w \<in> set ws" "start_of ws = aw_start_time w"
    and v: "v \<in> set ws" "end_of ws = aw_start_time v + aw_duration v"
    by auto
  have "aw_start_time w + aw_duration w \<le> end_of ws" using w by (simp add: end_of_def)
  moreover have "timed w" "timed v" using assms(2) w v by (simp_all add: list_all_iff)
  ultimately have range: "0 \<le> start_of ws" "start_of ws \<le> end_of ws" "end_of ws < 2 ^ 24"
    using w(2) v(2) by (simp_all add: timed_def)
  then have "f32 (of_int (end_of ws - start_of ws)) = of_int (end_of ws - start_of ws)"
    by (intro f32_of_int) simp
  then show "StartTimeFromTimingWeight bad_cast (path_weight mm ws) = Ret (start_of ws)"
    "DurationFromTimingWeight bad_cast (path_weight mm ws) = Ret (end_of ws - start_of ws)"
    using assms(1) range by (simp_all add: StartTimeFromTimingWeight_def DurationFromTimingWeight_def path_weight_def
        to_int64_def of_int_diff [symmetric] del: of_int_diff)
qed

lemma convert_rewriting:
  assumes "minmax_ok mm" "spells mm g as" "list_all timed (snd g)"
  shows "convert_arcs mm bad_cast as (reading mm alis [] []) = Ret (reading mm (alis @ [spanning g]) [] [])"
proof -
  obtain bs b where as: "as = bs @ [b]" "olabel b = separator" "list_all (\<lambda>a. olabel a \<noteq> separator) bs"
    and sym: "arc_bytes bs = fst g" and ws: "snd g \<noteq> []" "arc_weights mm (bs @ [b]) = map timing_of (snd g)"
    using assms(2) unfolding spells_def by (cases as rule: rev_cases) auto
  have "arc_weights mm bs @ arc_weights mm [b] = map timing_of (snd g)" using ws(2) by (simp add: arc_weights_def)
  then obtain us vs where uv: "snd g = us @ vs" "arc_weights mm bs = map timing_of us" "arc_weights mm [b] = map timing_of vs"
    by (metis append_eq_map_conv)
  then have "list_all timed us" "list_all timed vs" using assms(3) by simp_all
  then have "convert_arcs mm bad_cast as (reading mm alis [] []) =
      convert_arcs mm bad_cast [b] (reading mm alis (fst g) us)"
    using convert_letters_timed [OF assms(1) as(3) _ uv(2), of bad_cast alis "[]" "[]"] sym as(1)
    by (simp add: convert_arcs_append)
  moreover have "\<not> timing_eq (path_weight mm (snd g)) (Timing_One mm)"
    using ws(1) by (simp add: path_weight_def finite_not_One)
  then have "convert_arcs mm bad_cast [b] (reading mm alis (fst g) us) = Ret (reading mm (alis @ [spanning g]) [] [])"
    using convert_arc_reading [OF assms(1) \<open>list_all timed vs\<close> uv(3), of bad_cast alis "fst g" us] as(2)
      path_times [of "snd g" bad_cast mm] ws(1) assms(3) uv(1)
    by (simp add: spanning_def path_weight_Nil)
  ultimately show ?thesis by simp
qed

lemma ConvertFst_rewritten:
  assumes "minmax_ok mm" "rewritten mm gs f" "list_all (\<lambda>g. list_all timed (snd g)) gs"
  shows "ConvertFst mm bad_cast f = Ret (map spanning gs)"
proof -
  obtain ass where ass: "concat (fst_arcs f) = concat ass" "list_all2 (spells mm) gs ass"
    using assms(2) by (auto simp: rewritten_def)
  have "convert_arcs mm bad_cast (concat ass) (reading mm alis [] []) = Ret (reading mm (alis @ map spanning gs) [] [])" for alis
    using ass(2) assms(3)
  proof (induction arbitrary: alis rule: list_all2_induct)
    case (Cons g gs as ass)
    then show ?case using convert_rewriting [OF assms(1) Cons.hyps(1)] by (simp add: convert_arcs_append)
  qed simp
  from this [of "[]"] show ?thesis by (simp add: ConvertFst_def ass(1) path_weight_def)
qed

section \<open>The formatter\<close>

text \<open>Words in the order in which they were spoken: from the first to the last of a group.\<close>

definition in_order :: "aligned_word list \<Rightarrow> bool" where
  "in_order ws \<longleftrightarrow> sorted_wrt (\<lambda>v w. aw_start_time v + aw_duration v \<le> aw_start_time w) ws"

definition first_to_last :: "rewriting \<Rightarrow> aligned_word" where
  "first_to_last g = (let start = aw_start_time (hd (snd g)); stop = aw_start_time (last (snd g)) + aw_duration (last (snd g)) in
     \<lparr>aw_start_time = start, aw_duration = stop - start, aw_symbol = fst g\<rparr>)"

lemma spanning_in_order:
  assumes "in_order (snd g)" "list_all timed (snd g)" "snd g \<noteq> []"
  shows "spanning g = first_to_last g"
proof -
  have "\<forall>w \<in> set ws. aw_start_time (hd ws) \<le> aw_start_time w" if "in_order ws" "list_all timed ws" for ws
    using that by (cases ws) (fastforce simp: in_order_def list_all_iff timed_def)+
  moreover have "\<forall>w \<in> set ws. aw_start_time w + aw_duration w \<le> aw_start_time (last ws) + aw_duration (last ws)"
    if "in_order ws" "list_all timed ws" for ws
    using that by (cases ws rule: rev_cases) (fastforce simp: in_order_def sorted_wrt_append list_all_iff timed_def)+
  ultimately have "start_of (snd g) = aw_start_time (hd (snd g))"
    "end_of (snd g) = aw_start_time (last (snd g)) + aw_duration (last (snd g))"
    using assms unfolding start_of_def end_of_def by (auto intro!: Min_eqI Max_eqI)
  then show ?thesis by (simp add: spanning_def first_to_last_def Let_def)
qed

lemma in_order_parts: "in_order (concat (map snd gs)) \<Longrightarrow> list_all (\<lambda>g. in_order (snd g)) gs"
  by (induction gs) (simp_all add: in_order_def sorted_wrt_append)

lemma spelled_words: "list_all2 (spells mm) gs ass \<Longrightarrow> list_all (\<lambda>g. snd g \<noteq> []) gs"
  by (induction rule: list_all2_induct) (simp_all add: spells_def)


text \<open>\<open>sem\<close> and \<open>betur\<close> written as one word; the weight of the first is on an epsilon.\<close>

definition said :: "aligned_word list" where
  "said = [\<lparr>aw_start_time = 100, aw_duration = 200, aw_symbol = ''sem''\<rparr>,
     \<lparr>aw_start_time = 300, aw_duration = 400, aw_symbol = ''betur''\<rparr>]"

definition merged_fst :: "timing_weight vector_fst" where
  "merged_fst = empty_fst\<lparr>fst_arcs :=
     [[acceptor_arc 83 (Timing_One sample_minmax) 1], [acceptor_arc 0 (timing_of (said ! 0)) 2],
      [acceptor_arc 66 (Timing_One sample_minmax) 3], [acceptor_arc 32 (timing_of (said ! 1)) 4], []]\<rparr>"

definition merging_ops :: "unit fst_ops" where
  "merging_ops = \<lparr>Relabel = \<lambda>_ f. f, ArcSort_olabel = \<lambda>f. f, ArcSort_ilabel = \<lambda>f. f, ArcSort_timing = \<lambda>f. f,
     Compose = \<lambda>f _. f, Compose_timing = \<lambda>_ _. merged_fst, ShortestPath = \<lambda>f. f, TopSort = \<lambda>f. f,
     StringMapCompile = \<lambda>_. None, Concat = \<lambda>f _. f, Closure_plus = \<lambda>f. f, RmEpsilon = \<lambda>f. f, Encode = \<lambda>f. f,
     Determinize = \<lambda>f. f, Minimize = \<lambda>f. f, Decode = \<lambda>f. f, RelabelPairs = \<lambda>_. [], LookAhead = \<lambda>f. f, tropical_One = ()\<rparr>"


end
