(* ===== verification/Wordpiece.thy ===== *)
theory Wordpiece
  imports Text_Utils
begin

text \<open>
  \<open>src/itn/wordpiece.cc\<close>: greedy longest-match splitting of words into the pieces of a vocabulary,
  merging pieces back, and the conversion between pieces and their ids. Strings are bytes, so every
  length and position counts bytes.
\<close>

record tokenizer =
  unk_token :: string
  max_input_chars_per_word :: int
  vocab :: "string list"
  vocab_map :: "string \<rightharpoonup> nat"

section \<open>Reading the vocabulary\<close>

text \<open>
  The lines that \<open>std::getline\<close> delivers: what follows the last newline counts only when it is
  not empty.
\<close>

definition getlines :: "string \<Rightarrow> string list" where
  "getlines contents =
     (let pieces = Split contents (CHR 0x0A) in if last pieces = [] then butlast pieces else pieces)"

definition add_line :: "tokenizer \<Rightarrow> string \<Rightarrow> tokenizer" where
  "add_line t line =
     (let v = vocab t @ [line] in
      t\<lparr>vocab := v, vocab_map := (vocab_map t)(line \<mapsto> length v - 1)\<rparr>)"

definition WordPieceTokenizer :: "string \<Rightarrow> string \<Rightarrow> int \<Rightarrow> string option \<Rightarrow> tokenizer outcome" where
  "WordPieceTokenizer vocab_filename unk max_chars vocab_file =
     (case vocab_file of
        None \<Rightarrow> Throw (Runtime_error (''Could't open file '' @ [CHR 0x27] @ vocab_filename @ [CHR 0x27]))
      | Some contents \<Rightarrow>
          Ret (foldl add_line
            \<lparr>unk_token = unk, max_input_chars_per_word = max_chars, vocab = [], vocab_map = Map.empty\<rparr>
            (getlines contents)))"

section \<open>Tokenizing\<close>

definition piece_at :: "string \<Rightarrow> nat \<Rightarrow> nat \<Rightarrow> string" where
  "piece_at token start_char end_char =
     (let s = substr token start_char (end_char - start_char) in
      if 0 < start_char then ''##'' @ s else s)"

text \<open>The inner loop: the longest piece of the vocabulary that starts at \<open>start_char\<close>.\<close>

fun find_piece :: "tokenizer \<Rightarrow> string \<Rightarrow> nat \<Rightarrow> nat \<Rightarrow> (string \<times> nat) option" where
  "find_piece t token start_char 0 = None"
| "find_piece t token start_char (Suc e) =
     (if start_char < Suc e then
        (let s = piece_at token start_char (Suc e) in
         if vocab_map t s \<noteq> None then Some (s, Suc e) else find_piece t token start_char e)
      else None)"

lemma find_piece_Some:
  "find_piece t token i e = Some (s, j) \<Longrightarrow>
     i < j \<and> j \<le> e \<and> s = piece_at token i j \<and> s \<in> dom (vocab_map t)"
  by (induction e) (auto simp: Let_def split: if_split_asm)

text \<open>The outer loop; \<open>None\<close> when \<open>is_bad\<close> is set.\<close>

function split_word :: "tokenizer \<Rightarrow> string \<Rightarrow> nat \<Rightarrow> string list option" where
  "split_word t token start_char =
     (if start_char < length token then
        (case find_piece t token start_char (length token) of
           None \<Rightarrow> None
         | Some (s, end_char) \<Rightarrow> map_option ((#) s) (split_word t token end_char))
      else Some [])"
  by pat_completeness auto
termination
  by (relation "measure (\<lambda>(t, token, i). length token - i)") (auto dest!: find_piece_Some)

declare split_word.simps [simp del]

definition tokenize_word :: "tokenizer \<Rightarrow> string \<Rightarrow> string list" where
  "tokenize_word t token =
     (if int (length token) > max_input_chars_per_word t then [unk_token t]
      else (case split_word t token 0 of None \<Rightarrow> [unk_token t] | Some pieces \<Rightarrow> pieces))"

definition Tokenize :: "tokenizer \<Rightarrow> string list \<Rightarrow> string list" where
  "Tokenize t words = concat (map (tokenize_word t) words)"

section \<open>Merging\<close>

definition IsSubword :: "string \<Rightarrow> bool" where
  "IsSubword token \<longleftrightarrow> 2 < length token \<and> substr token 0 2 = ''##''"

fun merge_from :: "string list \<Rightarrow> string list \<Rightarrow> string list outcome" where
  "merge_from words [] = Ret words"
| "merge_from words (piece # pieces) =
     (if IsSubword piece then
        (if words = [] then Throw (Invalid_argument ''First WordPiece element can't be a suffix'')
         else merge_from (butlast words @ [last words @ drop 2 piece]) pieces)
      else merge_from (words @ [piece]) pieces)"

definition Merge :: "string list \<Rightarrow> string list outcome" where
  "Merge word_pieces = merge_from [] word_pieces"

section \<open>Ids\<close>

definition IdsToTokens :: "tokenizer \<Rightarrow> nat list \<Rightarrow> string list outcome" where
  "IdsToTokens t ids = otraverse (at_vec (vocab t)) ids"

definition TokensToIds :: "tokenizer \<Rightarrow> string list \<Rightarrow> nat list outcome" where
  "TokensToIds t tokens = otraverse (at_map (vocab_map t)) tokens"

definition TokenizeToIds :: "tokenizer \<Rightarrow> string list \<Rightarrow> nat list outcome" where
  "TokenizeToIds t words = TokensToIds t (Tokenize t words)"

text \<open>The constructor makes every id in the map the position of its token.\<close>

definition vocab_inv :: "tokenizer \<Rightarrow> bool" where
  "vocab_inv t \<longleftrightarrow> dom (vocab_map t) = set (vocab t) \<and>
     (\<forall>s i. vocab_map t s = Some i \<longrightarrow> i < length (vocab t) \<and> vocab t ! i = s)"

lemma add_line_inv: "vocab_inv t \<Longrightarrow> vocab_inv (add_line t line)"
  by (auto simp: vocab_inv_def add_line_def Let_def nth_append intro: less_SucI)

lemma foldl_add_line_inv: "vocab_inv t \<Longrightarrow> vocab_inv (foldl add_line t lines)"
  by (induction lines arbitrary: t) (auto intro: add_line_inv)

lemma WordPieceTokenizer_inv: "WordPieceTokenizer f u m file = Ret t \<Longrightarrow> vocab_inv t"
proof -
  have "vocab_inv \<lparr>unk_token = u, max_input_chars_per_word = m, vocab = [], vocab_map = Map.empty\<rparr>"
    by (simp add: vocab_inv_def)
  then show "WordPieceTokenizer f u m file = Ret t \<Longrightarrow> vocab_inv t"
    by (auto simp: WordPieceTokenizer_def split: option.split_asm intro: foldl_add_line_inv)
qed

lemma foldl_add_line_fields:
  "unk_token (foldl add_line t lines) = unk_token t"
  "max_input_chars_per_word (foldl add_line t lines) = max_input_chars_per_word t"
  "vocab (foldl add_line t lines) = vocab t @ lines"
  by (induction lines arbitrary: t) (simp_all add: add_line_def Let_def)

text \<open>
  With a tokenizer made by the constructor, the tokens of the ids of some tokens are these
  tokens: whenever \<open>TokensToIds\<close> succeeds, \<open>IdsToTokens\<close> succeeds on the result and inverts it.
\<close>

theorem IdsToTokens_TokensToIds:
  assumes "WordPieceTokenizer f u m file = Ret t" and "TokensToIds t tokens = Ret ids"
  shows "IdsToTokens t ids = Ret tokens"
proof -
  have inv: "vocab_inv t" using assms(1) by (rule WordPieceTokenizer_inv)
  from assms(2) show ?thesis unfolding TokensToIds_def IdsToTokens_def
  proof (induction tokens arbitrary: ids)
    case (Cons s tokens)
    then obtain i js where "vocab_map t s = Some i" "ids = i # js"
        "otraverse (at_map (vocab_map t)) tokens = Ret js"
      by (auto simp: outcome_simps)
    with Cons.IH inv show ?case by (simp add: vocab_inv_def at_vec_def)
  qed simp
qed

theorem IdsToTokens_TokensToIds_witness:
  "\<exists>t. WordPieceTokenizer ''v'' ''[UNK]'' 100 (Some ''[UNK]\<newline>sem\<newline>##r'') = Ret t \<and>
     TokensToIds t [''sem'', ''##r''] = Ret [1, 2] \<and> IdsToTokens t [1, 2] = Ret [''sem'', ''##r'']"
proof -
  obtain t where t: "WordPieceTokenizer ''v'' ''[UNK]'' 100 (Some ''[UNK]\<newline>sem\<newline>##r'') = Ret t"
    by (simp add: WordPieceTokenizer_def)
  have "case WordPieceTokenizer ''v'' ''[UNK]'' 100 (Some ''[UNK]\<newline>sem\<newline>##r'') of
      Ret t \<Rightarrow> TokensToIds t [''sem'', ''##r''] = Ret [1, 2] | _ \<Rightarrow> False"
    by code_simp
  then have "TokensToIds t [''sem'', ''##r''] = Ret [1, 2]" by (simp add: t)
  with t IdsToTokens_TokensToIds [OF t this] show ?thesis by blast
qed

section \<open>Merging undoes tokenizing\<close>

lemma merge_from_append:
  "merge_from acc (ps @ qs) = obind (merge_from acc ps) (\<lambda>words. merge_from words qs)"
  by (induction ps arbitrary: acc) simp_all

lemma piece_at_0 [simp]: "piece_at token 0 j = take j token"
  by (simp add: piece_at_def substr_def)

lemma piece_at_later:
  "0 < i \<Longrightarrow> i < j \<Longrightarrow> j \<le> length token \<Longrightarrow>
     IsSubword (piece_at token i j) \<and> take i token @ drop 2 (piece_at token i j) = take j token"
  by (auto simp: piece_at_def substr_def IsSubword_def take_add [symmetric] Let_def)

lemma IsSubword_take: "IsSubword (take j token) \<Longrightarrow> IsSubword token"
  by (auto simp: IsSubword_def substr_def take_take min_def split: if_split_asm)

lemma split_word_merge:
  "split_word t token i = Some ps \<Longrightarrow> 0 < i \<Longrightarrow> i \<le> length token \<Longrightarrow>
     list_all IsSubword ps \<and> merge_from (acc @ [take i token]) ps = Ret (acc @ [token])"
proof (induction t token i arbitrary: ps rule: split_word.induct)
  case (1 t token i)
  show ?case
  proof (cases "i < length token")
    case False
    with 1(2,4) show ?thesis by (simp add: split_word.simps [of t token i])
  next
    case True
    with 1(2) obtain s j qs where f: "find_piece t token i (length token) = Some (s, j)"
        "split_word t token j = Some qs" "ps = s # qs"
      by (auto simp: split_word.simps [of t token i] split: option.split_asm)
    note s = find_piece_Some [OF f(1)]
    have "list_all IsSubword qs" "merge_from (acc @ [take j token]) qs = Ret (acc @ [token])"
      using 1(1) [OF True f(1) refl f(2)] s by auto
    with piece_at_later [OF 1(3), of j token] s f(3) show ?thesis by simp
  qed
qed

text \<open>A word that the vocabulary can split, greedily, within the length limit.\<close>

definition known_word :: "tokenizer \<Rightarrow> string \<Rightarrow> bool" where
  "known_word t w \<longleftrightarrow> int (length w) \<le> max_input_chars_per_word t \<and> split_word t w 0 \<noteq> None"

text \<open>The first piece of a word starts it and the others continue it.\<close>

lemma tokenize_word_pieces:
  assumes "w \<noteq> []" "\<not> IsSubword w" "\<not> IsSubword (unk_token t)"
  obtains p ps where "tokenize_word t w = p # ps" "\<not> IsSubword p" "list_all IsSubword ps"
    "merge_from acc (p # ps) = Ret (acc @ [if known_word t w then w else unk_token t])"
proof (cases "known_word t w")
  case False
  then have "tokenize_word t w = [unk_token t]" by (auto simp: tokenize_word_def known_word_def)
  with assms(3) False that show ?thesis by simp
next
  case True
  then obtain s j qs where f: "find_piece t w 0 (length w) = Some (s, j)" "split_word t w j = Some qs"
      "split_word t w 0 = Some (s # qs)"
    using assms(1) by (auto simp: known_word_def split_word.simps [of t w 0] split: option.split_asm)
  have s: "0 < j" "j \<le> length w" "s = take j w" using find_piece_Some [OF f(1)] by simp_all
  have "\<not> IsSubword s" unfolding s(3) using assms(2) IsSubword_take by blast
  moreover have "list_all IsSubword qs" "merge_from (acc @ [s]) qs = Ret (acc @ [w])"
    unfolding s(3) using split_word_merge [OF f(2) s(1,2), of acc] by simp_all
  moreover have "tokenize_word t w = s # qs" using True f(3) by (simp add: tokenize_word_def known_word_def)
  ultimately show ?thesis using True that [of s qs] by simp
qed

lemma tokenize_word_merge:
  assumes "w \<noteq> []" "\<not> IsSubword w" "\<not> IsSubword (unk_token t)"
  shows "merge_from acc (tokenize_word t w) = Ret (acc @ [if known_word t w then w else unk_token t])"
proof -
  obtain p ps where "tokenize_word t w = p # ps"
    "merge_from acc (p # ps) = Ret (acc @ [if known_word t w then w else unk_token t])"
    using tokenize_word_pieces [OF assms, of acc] by blast
  then show ?thesis by simp
qed

text \<open>
  C38. Merging the pieces of some words gives the words back, those that the vocabulary cannot
  split (or that are too long) replaced by the unknown token; the words must not be empty and must
  not look like a continuation piece themselves.
\<close>

theorem Merge_Tokenize:
  assumes "\<forall>w \<in> set words. w \<noteq> [] \<and> \<not> IsSubword w" and "\<not> IsSubword (unk_token t)"
  shows "Merge (Tokenize t words) =
    Ret (map (\<lambda>w. if known_word t w then w else unk_token t) words)"
proof -
  have "merge_from acc (Tokenize t words) =
      Ret (acc @ map (\<lambda>w. if known_word t w then w else unk_token t) words)" for acc
    using assms(1)
  proof (induction words arbitrary: acc)
    case Nil
    then show ?case by (simp add: Tokenize_def)
  next
    case (Cons w words)
    then have "merge_from acc (tokenize_word t w) = Ret (acc @ [if known_word t w then w else unk_token t])"
      using assms(2) by (intro tokenize_word_merge) auto
    with Cons show ?case by (simp add: Tokenize_def merge_from_append)
  qed
  from this [of "[]"] show ?thesis by (simp add: Merge_def)
qed

definition sample_tokenizer :: tokenizer where
  "sample_tokenizer = foldl add_line
     \<lparr>unk_token = ''[UNK]'', max_input_chars_per_word = 100, vocab = [], vocab_map = Map.empty\<rparr>
     [''[UNK]'', ''sem'', ''sott'', ''##varna'', ''##laeknis'']"

theorem Merge_Tokenize_witness:
  "Tokenize sample_tokenizer [''sem'', ''sottvarna'', ''fyrir''] = [''sem'', ''sott'', ''##varna'', ''[UNK]''] \<and>
   Merge (Tokenize sample_tokenizer [''sem'', ''sottvarna'', ''fyrir'']) = Ret [''sem'', ''sottvarna'', ''[UNK]'']"
proof -
  have k: "known_word sample_tokenizer ''sem''" "known_word sample_tokenizer ''sottvarna''"
      "\<not> known_word sample_tokenizer ''fyrir''"
    by (code_simp, code_simp, code_simp)
  have "Tokenize sample_tokenizer [''sem'', ''sottvarna'', ''fyrir''] = [''sem'', ''sott'', ''##varna'', ''[UNK]'']"
    by code_simp
  moreover have "unk_token sample_tokenizer = ''[UNK]''"
    unfolding sample_tokenizer_def by (subst foldl_add_line_fields) simp
  ultimately show ?thesis
    using Merge_Tokenize [of "[''sem'', ''sottvarna'', ''fyrir'']" sample_tokenizer] k
    by (simp add: IsSubword_def substr_def)
qed

end
