(* ===== verification/Punctuation.thy ===== *)
theory Punctuation
  imports Wordpiece
begin

text \<open>
  \<open>src/itn/punctuation.cc\<close>: the punctuator that runs a neural network over the word pieces of a
  transcript, and \<open>Capitalize\<close> of \<open>src/itn/formatter.cc\<close>. The network is the parameter
  \<open>forward\<close>, from the input ids to the predicted class of every position; ICU's conversions are the
  parameter record \<open>icu\<close>, with strings as 16-bit code units.
\<close>

record icu =
  fromUTF8 :: "string \<Rightarrow> 16 word list"
  toUpper :: "16 word list \<Rightarrow> 16 word list"
  toUTF8String :: "16 word list \<Rightarrow> string"

definition Capitalize :: "icu \<Rightarrow> string \<Rightarrow> string" where
  "Capitalize icu str =
     (let upiece = fromUTF8 icu str in toUTF8String icu (toUpper icu (take 1 upiece) @ drop 1 upiece))"

text \<open>The conversions restricted to ASCII, for concrete runs.\<close>

definition ascii_icu :: icu where
  "ascii_icu = \<lparr>fromUTF8 = map (\<lambda>c. word_of_nat (of_char c)),
     toUpper = map (\<lambda>u. if 97 \<le> u \<and> u \<le> 122 then u - 32 else u),
     toUTF8String = map (\<lambda>u. char_of (unat u))\<rparr>"

record punctuator =
  forward :: "int list \<Rightarrow> int list"
  punct_tokenizer :: tokenizer
  cls_token_id :: int
  sep_token_id :: int

section \<open>Punctuation classes\<close>

definition kIdToChar :: "string list" where
  "kIdToChar = [[], '','', ''.'', ''?'']"

definition kIdToCapitalizeNext :: "bool list" where
  "kIdToCapitalizeNext = [False, False, True, True]"

text \<open>
  The id is compared with \<open>size()\<close> as an unsigned 64-bit number, so a negative id is out of range
  too.
\<close>

definition IdToChar :: "int \<Rightarrow> string" where
  "IdToChar cid =
     (if to_size cid \<ge> int (length kIdToChar) then kIdToChar ! 0 else kIdToChar ! nat (to_size cid))"

definition ShouldCapitalizeNext_id :: "int \<Rightarrow> bool" where
  "ShouldCapitalizeNext_id cid =
     (if to_size cid \<ge> int (length kIdToCapitalizeNext) then False
      else kIdToCapitalizeNext ! nat (to_size cid))"

definition ShouldCapitalizeNext :: "char \<Rightarrow> bool" where
  "ShouldCapitalizeNext character = (character \<in> {CHR ''.'', CHR ''?'', CHR ''!''})"

lemma IdToChar_cases:
  assumes "int32_range cid"
  shows "IdToChar cid = (if cid = 1 then '','' else if cid = 2 then ''.'' else if cid = 3 then ''?'' else [])"
    and "ShouldCapitalizeNext_id cid = (cid = 2 \<or> cid = 3)"
proof -
  have "to_size cid = (if 0 \<le> cid then cid else 2 ^ 64 + cid)"
  proof (cases "0 \<le> cid")
    case True
    with assms show ?thesis by (simp add: to_size_nonneg int32_range_def)
  next
    case False
    have "cid mod 2 ^ 64 = (cid + 2 ^ 64) mod 2 ^ 64" by simp
    also have "\<dots> = cid + 2 ^ 64" using False assms by (intro mod_pos_pos_trivial) (simp_all add: int32_range_def)
    finally show ?thesis using False by (simp add: to_size_def)
  qed
  moreover have "cid < 0 \<or> cid \<ge> 4 \<or> cid = 0 \<or> cid = 1 \<or> cid = 2 \<or> cid = 3" by arith
  ultimately show "IdToChar cid =
      (if cid = 1 then '','' else if cid = 2 then ''.'' else if cid = 3 then ''?'' else [])"
    and "ShouldCapitalizeNext_id cid = (cid = 2 \<or> cid = 3)"
    using assms
    by (elim disjE; simp add: IdToChar_def ShouldCapitalizeNext_id_def kIdToChar_def
        kIdToCapitalizeNext_def int32_range_def)+
qed

section \<open>Punctuating words\<close>

text \<open>Reading an element of the prediction tensor out of range throws.\<close>

definition pred_at :: "int list \<Rightarrow> nat \<Rightarrow> int outcome" where
  "pred_at pred_ids i =
     (if i < length pred_ids then Ret (pred_ids ! i) else Throw (Foreign_exception ''c10::IndexError''))"

definition piece_predictions :: "string list \<Rightarrow> int list \<Rightarrow> int list outcome" where
  "piece_predictions word_pieces pred_ids =
     omap (\<lambda>ids. map snd (filter (\<lambda>p. \<not> IsSubword (fst p)) (zip word_pieces ids)))
       (otraverse (\<lambda>idx. pred_at pred_ids (idx + 1)) [0..<length word_pieces])"

fun append_punctuation ::
    "icu \<Rightarrow> bool \<Rightarrow> bool \<Rightarrow> string list \<Rightarrow> int list \<Rightarrow> string list outcome" where
  "append_punctuation icu capitalize capitalize_next [] ids = Ret []"
| "append_punctuation icu capitalize capitalize_next (w # ws) [] = Fault Index_out_of_bounds"
| "append_punctuation icu capitalize capitalize_next (w # ws) (i # ids) =
     (let w1 = (if capitalize \<and> capitalize_next then Capitalize icu w else w);
          next1 = (if capitalize then ShouldCapitalizeNext_id i else capitalize_next)
      in omap ((#) (w1 @ IdToChar i)) (append_punctuation icu capitalize next1 ws ids))"

definition input_ids :: "punctuator \<Rightarrow> nat list \<Rightarrow> int list" where
  "input_ids p ids = cls_token_id p # map (to_int32 \<circ> int) ids @ [sep_token_id p]"

definition Punctuate :: "icu \<Rightarrow> punctuator \<Rightarrow> string list \<Rightarrow> bool \<Rightarrow> string list outcome" where
  "Punctuate icu p words capitalize =
     (let word_pieces = Tokenize (punct_tokenizer p) words in
      obind (TokensToIds (punct_tokenizer p) word_pieces) (\<lambda>ids.
      let pred_ids = forward p (input_ids p ids) in
      obind (piece_predictions word_pieces pred_ids) (\<lambda>punctuation.
      append_punctuation icu capitalize False words punctuation)))"

definition PunctuateWithContext ::
    "icu \<Rightarrow> punctuator \<Rightarrow> string list \<Rightarrow> string list \<Rightarrow> bool \<Rightarrow> string list outcome" where
  "PunctuateWithContext icu p words left_context capitalize =
     obind (Punctuate icu p words capitalize) (\<lambda>punctuated.
     if \<not> capitalize \<or> left_context = [] then Ret punctuated
     else
       obind (back_vec left_context) (\<lambda>w.
       obind (back_vec w) (\<lambda>character.
       if ShouldCapitalizeNext character then
         omap (\<lambda>first. Capitalize icu first # tl punctuated) (at_vec punctuated 0)
       else Ret punctuated)))"

section \<open>One punctuation mark per word\<close>

lemma otraverse_at_map:
  "list_all (\<lambda>s. m s \<noteq> None) ss \<Longrightarrow> otraverse (at_map m) ss = Ret (map (\<lambda>s. the (m s)) ss)"
  by (rule otraverse_Ret) (auto simp: list_all_iff at_map_def)

text \<open>Every piece is in the vocabulary when the unknown token is.\<close>

lemma split_word_known:
  "split_word t token i = Some ps \<Longrightarrow> list_all (\<lambda>s. vocab_map t s \<noteq> None) ps"
proof (induction t token i arbitrary: ps rule: split_word.induct)
  case (1 t token i)
  then show ?case
    by (auto simp: split_word.simps [of t token i] split: if_split_asm option.split_asm
        dest!: find_piece_Some)
qed

lemma Tokenize_known:
  assumes "unk_token t \<in> dom (vocab_map t)"
  shows "list_all (\<lambda>s. vocab_map t s \<noteq> None) (Tokenize t words)"
  using assms split_word_known [of t]
  by (induction words) (auto simp: Tokenize_def tokenize_word_def split: option.split)

lemma zip_take_length: "zip xs (take (length xs) ys) = zip xs ys"
proof (induction xs arbitrary: ys)
  case (Cons x xs)
  then show ?case by (cases ys) auto
qed simp

lemma piece_predictions_Ret:
  assumes "length pred_ids = length word_pieces + 2"
  shows "piece_predictions word_pieces pred_ids =
    Ret (map snd (filter (\<lambda>p. \<not> IsSubword (fst p)) (zip word_pieces (tl pred_ids))))"
proof -
  have "otraverse (\<lambda>idx. pred_at pred_ids (idx + 1)) [0..<length word_pieces] =
      Ret (map (\<lambda>idx. pred_ids ! (idx + 1)) [0..<length word_pieces])"
    using assms by (intro otraverse_Ret) (simp add: pred_at_def)
  moreover have "map (\<lambda>idx. pred_ids ! (idx + 1)) [0..<length word_pieces] =
      take (length word_pieces) (tl pred_ids)"
    using assms by (intro nth_equalityI) (auto simp: nth_tl)
  moreover have "zip word_pieces (take (length word_pieces) (tl pred_ids)) = zip word_pieces (tl pred_ids)"
    by (rule zip_take_length)
  ultimately show ?thesis by (simp add: piece_predictions_def)
qed

lemma append_punctuation_outcome:
  "case append_punctuation icu capitalize nxt ws ids of
     Ret out \<Rightarrow> length ws \<le> length ids \<and> length out = length ws
   | Fault b \<Rightarrow> length ids < length ws \<and> b = Index_out_of_bounds
   | Throw e \<Rightarrow> False"
proof (induction icu capitalize nxt ws ids rule: append_punctuation.induct)
  case (3 icu capitalize nxt w ws i ids)
  let ?nxt = "if capitalize then ShouldCapitalizeNext_id i else nxt"
  from 3 [OF refl refl] show ?case
    by (cases "append_punctuation icu capitalize ?nxt ws ids") (simp_all only:
        append_punctuation.simps Let_def omap.simps outcome.simps list.size add_le_cancel_right add_less_cancel_right)
qed simp_all

lemma Punctuate_length: "Punctuate icu p ws cap = Ret out \<Longrightarrow> length out = length ws"
  unfolding Punctuate_def Let_def
  using append_punctuation_outcome by (fastforce simp: outcome_simps split: outcome.splits)

lemma PunctuateWithContext_length:
  "PunctuateWithContext icu p ws ctx cap = Ret out \<Longrightarrow> length out = length ws"
  unfolding PunctuateWithContext_def
  by (auto simp: outcome_simps Suc_pred split: if_splits dest!: Punctuate_length simp flip: length_greater_0_conv)

definition well_formed :: "punctuator \<Rightarrow> bool" where
  "well_formed p \<longleftrightarrow> unk_token (punct_tokenizer p) \<in> dom (vocab_map (punct_tokenizer p)) \<and>
     (\<forall>ids. length (forward p ids) = length ids)"

lemma length_filter_zip:
  "length xs \<le> length ys \<Longrightarrow> length (filter (\<lambda>p. P (fst p)) (zip xs ys)) = length (filter P xs)"
proof (induction xs arbitrary: ys)
  case (Cons x xs)
  then show ?case by (cases ys) auto
qed simp

lemma Punctuate_unfold:
  assumes "well_formed p"
  obtains ids where "length ids \<ge> length (Tokenize (punct_tokenizer p) words)"
    "Punctuate icu p words capitalize = append_punctuation icu capitalize False words
       (map snd (filter (\<lambda>q. \<not> IsSubword (fst q)) (zip (Tokenize (punct_tokenizer p) words) ids)))"
    "ids = tl (forward p (input_ids p (map (\<lambda>s. the (vocab_map (punct_tokenizer p) s))
       (Tokenize (punct_tokenizer p) words))))"
proof -
  let ?t = "punct_tokenizer p"
  let ?ps = "Tokenize ?t words"
  let ?ids = "map (\<lambda>s. the (vocab_map ?t s)) ?ps"
  have "TokensToIds ?t ?ps = Ret ?ids"
    using assms unfolding TokensToIds_def well_formed_def
    by (intro otraverse_at_map Tokenize_known) simp
  moreover have len: "length (forward p (input_ids p ?ids)) = length ?ps + 2"
    using assms by (simp add: well_formed_def input_ids_def)
  ultimately show ?thesis
    using that piece_predictions_Ret [OF len] by (simp add: Punctuate_def Let_def)
qed

text \<open>
  Punctuating words never throws when the unknown token is in the vocabulary and the network
  predicts one class per position; it returns as many words as it was given, unless there are fewer
  pieces that start a word than words: then it reads past the end of the predictions.
\<close>

theorem Punctuate_outcome:
  assumes "well_formed p"
  shows "case Punctuate icu p words capitalize of
      Ret out \<Rightarrow> length out = length words \<and>
        length words \<le> length (filter (\<lambda>s. \<not> IsSubword s) (Tokenize (punct_tokenizer p) words))
    | Fault b \<Rightarrow> b = Index_out_of_bounds \<and>
        length (filter (\<lambda>s. \<not> IsSubword s) (Tokenize (punct_tokenizer p) words)) < length words
    | Throw e \<Rightarrow> False"
proof -
  obtain ids where ids: "length ids \<ge> length (Tokenize (punct_tokenizer p) words)"
    "Punctuate icu p words capitalize = append_punctuation icu capitalize False words
       (map snd (filter (\<lambda>q. \<not> IsSubword (fst q)) (zip (Tokenize (punct_tokenizer p) words) ids)))"
    using Punctuate_unfold [OF assms] by blast
  show ?thesis
    using append_punctuation_outcome [where icu = icu and capitalize = capitalize and nxt = False
        and ws = words and ids = "map snd (filter (\<lambda>q. \<not> IsSubword (fst q)) (zip (Tokenize (punct_tokenizer p) words) ids))"]
      length_filter_zip [OF ids(1), of "\<lambda>s. \<not> IsSubword s"]
    unfolding ids(2) by (auto split: outcome.splits)
qed

definition sample_punctuator :: punctuator where
  "sample_punctuator = \<lparr>forward = \<lambda>ids. map (\<lambda>_. 2) ids, punct_tokenizer = sample_tokenizer,
     cls_token_id = 2, sep_token_id = 0\<rparr>"

lemma sample_punctuator_well_formed: "well_formed sample_punctuator"
proof -
  have "vocab_map sample_tokenizer (unk_token sample_tokenizer) = Some 0" by code_simp
  then show ?thesis by (auto simp: well_formed_def sample_punctuator_def)
qed

text \<open>An empty word has no piece and leaves the last word without a prediction.\<close>

theorem Punctuate_outcome_witness:
  "Punctuate ascii_icu sample_punctuator [''sem'', []] False = Fault Index_out_of_bounds"
proof -
  have "length (filter (\<lambda>s. \<not> IsSubword s) (Tokenize (punct_tokenizer sample_punctuator) [''sem'', []])) = 1"
    by code_simp
  then show ?thesis
    using Punctuate_outcome [OF sample_punctuator_well_formed, where icu = ascii_icu and words = "[''sem'', []]" and capitalize = False]
    by (auto split: outcome.splits)
qed

section \<open>What is appended to which word\<close>

text \<open>
  The class of every word: the prediction at the position of its first piece.
\<close>

fun word_classes :: "tokenizer \<Rightarrow> string list \<Rightarrow> int list \<Rightarrow> int list" where
  "word_classes t [] ids = []"
| "word_classes t (w # ws) ids = hd ids # word_classes t ws (drop (length (tokenize_word t w)) ids)"

definition predicted :: "punctuator \<Rightarrow> string list \<Rightarrow> int list" where
  "predicted p words =
     (let t = punct_tokenizer p in
      word_classes t words
        (tl (forward p (input_ids p (map (\<lambda>s. the (vocab_map t s)) (Tokenize t words))))))"

lemma filter_zip_subwords:
  "list_all IsSubword ps \<Longrightarrow> length ps \<le> length ids \<Longrightarrow>
   filter (\<lambda>q. \<not> IsSubword (fst q)) (zip (ps @ rest) ids) =
     filter (\<lambda>q. \<not> IsSubword (fst q)) (zip rest (drop (length ps) ids))"
proof (induction ps arbitrary: ids)
  case (Cons p ps)
  then show ?case by (cases ids) auto
qed simp

lemma first_piece_predictions:
  assumes "\<forall>w \<in> set words. w \<noteq> [] \<and> \<not> IsSubword w" "\<not> IsSubword (unk_token t)"
  shows "length (Tokenize t words) \<le> length ids \<Longrightarrow>
    map snd (filter (\<lambda>q. \<not> IsSubword (fst q)) (zip (Tokenize t words) ids)) = word_classes t words ids"
  using assms(1)
proof (induction words arbitrary: ids)
  case Nil
  then show ?case by (simp add: Tokenize_def)
next
  case (Cons w words)
  obtain p ps where p: "tokenize_word t w = p # ps" "\<not> IsSubword p" "list_all IsSubword ps"
    using tokenize_word_pieces [of w t] Cons.prems(2) assms(2) by (metis list.set_intros(1))
  have T: "Tokenize t (w # words) = p # ps @ Tokenize t words" by (simp add: Tokenize_def p(1))
  with Cons.prems(1) obtain i ids' where ids: "ids = i # ids'" by (cases ids) auto
  have "length ps \<le> length ids'" "length (Tokenize t words) \<le> length (drop (length ps) ids')"
    using Cons.prems(1) unfolding T ids by simp_all
  with Cons.IH [of "drop (length ps) ids'"] Cons.prems(2) p
    filter_zip_subwords [OF p(3), of ids' "Tokenize t words"] show ?case
    unfolding T ids by simp
qed

lemma length_word_classes [simp]: "length (word_classes t words ids) = length words"
  by (induction words arbitrary: ids) simp_all

lemma append_punctuation_Ret:
  "length ws = length ids \<Longrightarrow>
   append_punctuation icu capitalize nxt ws ids = Ret (map (\<lambda>i.
     (if capitalize \<and> (if i = 0 then nxt else ShouldCapitalizeNext_id (ids ! (i - 1)))
      then Capitalize icu (ws ! i) else ws ! i) @ IdToChar (ids ! i)) [0..<length ws])"
proof (induction ws arbitrary: ids nxt)
  case (Cons w ws)
  then obtain j ids' where ids: "ids = j # ids'" "length ws = length ids'" by (cases ids) auto
  let ?nxt = "if capitalize then ShouldCapitalizeNext_id j else nxt"
  let ?f = "\<lambda>i. (if capitalize \<and> (if i = 0 then nxt else ShouldCapitalizeNext_id ((j # ids') ! (i - 1)))
      then Capitalize icu ((w # ws) ! i) else (w # ws) ! i) @ IdToChar ((j # ids') ! i)"
  have "map (\<lambda>i. (if capitalize \<and> (if i = 0 then ?nxt else ShouldCapitalizeNext_id (ids' ! (i - 1)))
      then Capitalize icu (ws ! i) else ws ! i) @ IdToChar (ids' ! i)) [0..<length ws] =
      map (\<lambda>i. ?f (Suc i)) [0..<length ws]"
    by (rule map_cong) (auto simp: nth_Cons split: nat.split)
  moreover have "map ?f [0..<length (w # ws)] = ?f 0 # map (\<lambda>i. ?f (Suc i)) [0..<length ws]"
    by (simp add: upt_conv_Cons map_Suc_upt [symmetric] comp_def del: upt_Suc)
  ultimately show ?case
    unfolding ids(1) append_punctuation.simps Cons.IH [OF ids(2)] Let_def by simp
qed simp

definition mark :: "int \<Rightarrow> string" where
  "mark c = (if c = 1 then '','' else if c = 2 then ''.'' else if c = 3 then ''?'' else [])"

definition ends_sentence :: "int \<Rightarrow> bool" where
  "ends_sentence c \<longleftrightarrow> c = 2 \<or> c = 3"

lemma Punctuate_marks:
  assumes "well_formed p" "\<not> IsSubword (unk_token (punct_tokenizer p))"
    and "\<forall>w \<in> set words. w \<noteq> [] \<and> \<not> IsSubword w"
    and "\<forall>c \<in> set (predicted p words). int32_range c"
  shows "Punctuate icu p words capitalize = Ret (map (\<lambda>i.
    (if capitalize \<and> 0 < i \<and> ends_sentence (predicted p words ! (i - 1))
     then Capitalize icu (words ! i) else words ! i) @ mark (predicted p words ! i)) [0..<length words])"
proof -
  obtain ids where ids: "length (Tokenize (punct_tokenizer p) words) \<le> length ids"
    "Punctuate icu p words capitalize = append_punctuation icu capitalize False words
       (map snd (filter (\<lambda>q. \<not> IsSubword (fst q)) (zip (Tokenize (punct_tokenizer p) words) ids)))"
    "word_classes (punct_tokenizer p) words ids = predicted p words"
    using Punctuate_unfold [OF assms(1), of words icu capitalize] unfolding predicted_def Let_def by metis
  have len: "length words = length (predicted p words)" by (simp add: predicted_def Let_def)
  have "Punctuate icu p words capitalize = append_punctuation icu capitalize False words (predicted p words)"
    unfolding ids(2) first_piece_predictions [OF assms(3,2) ids(1)] ids(3) ..
  also have "\<dots> = Ret (map (\<lambda>i.
    (if capitalize \<and> 0 < i \<and> ends_sentence (predicted p words ! (i - 1))
     then Capitalize icu (words ! i) else words ! i) @ mark (predicted p words ! i)) [0..<length words])"
    unfolding append_punctuation_Ret [OF len]
    using assms(4) len by (auto simp: IdToChar_cases mark_def ends_sentence_def)
  finally show ?thesis .
qed

text \<open>
  C24. Punctuating words that are not empty and do not look like continuation pieces appends to
  every word the comma, full stop or question mark predicted at its first piece (nothing for any
  other class) and, when asked to, capitalises exactly the words that follow a full stop or a
  question mark.
\<close>

theorem Punctuate_words:
  assumes "well_formed p" "\<not> IsSubword (unk_token (punct_tokenizer p))"
    and "\<forall>w \<in> set words. w \<noteq> [] \<and> \<not> IsSubword w"
    and "\<forall>c \<in> set (predicted p words). int32_range c"
  shows "Punctuate icu p words capitalize = Ret (map (\<lambda>i.
    (if capitalize \<and> 0 < i \<and> ends_sentence (predicted p words ! (i - 1))
     then Capitalize icu (words ! i) else words ! i) @ mark (predicted p words ! i)) [0..<length words])"
  by (rule Punctuate_marks [OF assms])

theorem Punctuate_words_witness:
  "Punctuate ascii_icu sample_punctuator [''sem'', ''sottvarna''] True =
     Ret [''sem.'', Capitalize ascii_icu ''sottvarna'' @ ''.'']"
proof -
  have pred: "predicted sample_punctuator [''sem'', ''sottvarna''] = [2, 2]" by code_simp
  have unk: "unk_token (punct_tokenizer sample_punctuator) = ''[UNK]''" by code_simp
  have "int32_range 2" by (simp add: int32_range_def)
  with Punctuate_words [OF sample_punctuator_well_formed, of "[''sem'', ''sottvarna'']" ascii_icu True] pred unk
  show ?thesis by (simp add: IsSubword_def substr_def mark_def ends_sentence_def)
qed

end
