(* ===== verification/Log_Levels.thy ===== *)
theory Log_Levels
  imports Prelude
begin

text \<open>
  \<open>src/logging.h\<close> and \<open>src/logging.cc\<close>: the log level of the server, the levels it sets in the
  libraries (Kaldi, gRPC, libav and spdlog), and the handlers that pass the libraries' messages on
  to the server's logger.
\<close>

datatype log_level = KTrace | KDebug | KInfo | KWarning | KError | KCritical

datatype spd_level = Spd_trace | Spd_debug | Spd_info | Spd_warn | Spd_err | Spd_critical | Spd_off

fun ConvertLogLevel_from :: "spd_level \<Rightarrow> log_level" where
  "ConvertLogLevel_from Spd_trace = KTrace"
| "ConvertLogLevel_from Spd_debug = KDebug"
| "ConvertLogLevel_from Spd_info = KInfo"
| "ConvertLogLevel_from Spd_warn = KWarning"
| "ConvertLogLevel_from Spd_err = KError"
| "ConvertLogLevel_from Spd_critical = KCritical"
| "ConvertLogLevel_from Spd_off = KInfo"

fun ConvertLogLevel :: "log_level \<Rightarrow> spd_level" where
  "ConvertLogLevel KTrace = Spd_trace"
| "ConvertLogLevel KDebug = Spd_debug"
| "ConvertLogLevel KInfo = Spd_info"
| "ConvertLogLevel KWarning = Spd_warn"
| "ConvertLogLevel KError = Spd_err"
| "ConvertLogLevel KCritical = Spd_critical"

datatype grpc_severity = GPR_DEBUG | GPR_INFO | GPR_ERROR

definition AV_LOG_ERROR :: int where "AV_LOG_ERROR = 16"
definition AV_LOG_WARNING :: int where "AV_LOG_WARNING = 24"
definition AV_LOG_INFO :: int where "AV_LOG_INFO = 32"
definition AV_LOG_DEBUG :: int where "AV_LOG_DEBUG = 48"
definition AV_LOG_TRACE :: int where "AV_LOG_TRACE = 56"

text \<open>What the libraries have been told, and whether their handlers are registered.\<close>

record log_state =
  kaldi_verbose :: int
  grpc_verbosity :: grpc_severity
  av_level :: int
  logger_level :: spd_level
  kaldi_handler :: bool
  grpc_handler :: bool
  av_handler :: bool

definition SetKaldiLogLevel :: "log_level \<Rightarrow> log_state \<Rightarrow> log_state" where
  "SetKaldiLogLevel log_level st =
     (case log_level of
        KTrace \<Rightarrow> st\<lparr>kaldi_verbose := 2\<rparr>
      | KDebug \<Rightarrow> st\<lparr>kaldi_verbose := 1\<rparr>
      | _ \<Rightarrow> st\<lparr>kaldi_verbose := 0\<rparr>)"

definition SetGrpcLogLevel :: "log_level \<Rightarrow> log_state \<Rightarrow> log_state" where
  "SetGrpcLogLevel log_level st =
     (case log_level of
        KTrace \<Rightarrow> st\<lparr>grpc_verbosity := GPR_DEBUG\<rparr>
      | KDebug \<Rightarrow> st\<lparr>grpc_verbosity := GPR_DEBUG\<rparr>
      | KError \<Rightarrow> st\<lparr>grpc_verbosity := GPR_ERROR\<rparr>
      | _ \<Rightarrow> st\<lparr>grpc_verbosity := GPR_INFO\<rparr>)"

definition SetAvLogLevel :: "log_level \<Rightarrow> log_state \<Rightarrow> log_state" where
  "SetAvLogLevel log_level st =
     (case log_level of
        KTrace \<Rightarrow> st\<lparr>av_level := AV_LOG_TRACE\<rparr>
      | KDebug \<Rightarrow> st\<lparr>av_level := AV_LOG_DEBUG\<rparr>
      | KInfo \<Rightarrow> st\<lparr>av_level := AV_LOG_INFO\<rparr>
      | KWarning \<Rightarrow> st\<lparr>av_level := AV_LOG_WARNING\<rparr>
      | KError \<Rightarrow> st\<lparr>av_level := AV_LOG_ERROR\<rparr>
      | KCritical \<Rightarrow> st\<lparr>av_level := AV_LOG_ERROR\<rparr>)"

definition SetLogLevel :: "log_level \<Rightarrow> log_state \<Rightarrow> log_state" where
  "SetLogLevel log_level st =
     (let st1 = SetKaldiLogLevel log_level (st\<lparr>kaldi_handler := True\<rparr>);
          st2 = SetGrpcLogLevel log_level (st1\<lparr>grpc_handler := True\<rparr>);
          st3 = SetAvLogLevel log_level (st2\<lparr>av_handler := True\<rparr>)
      in st3\<lparr>logger_level := ConvertLogLevel log_level\<rparr>)"

definition LogLevelFromString :: "string \<Rightarrow> log_level outcome" where
  "LogLevelFromString s =
     (if s = ''TRACE'' \<or> s = ''trace'' then Ret KTrace
      else if s = ''DEBUG'' \<or> s = ''debug'' then Ret KDebug
      else if s = ''INFO'' \<or> s = ''info'' then Ret KInfo
      else if s = ''WARNING'' \<or> s = ''warning'' then Ret KWarning
      else if s = ''ERROR'' \<or> s = ''error'' then Ret KError
      else Throw (Runtime_error (''Invalid log level: '' @ s)))"

definition SetLogLevel_string :: "string \<Rightarrow> log_state \<Rightarrow> log_state outcome" where
  "SetLogLevel_string s st = omap (\<lambda>l. SetLogLevel l st) (LogLevelFromString s)"

section \<open>Message handlers\<close>

text \<open>The level at which a library's message is handed to the logger; \<open>None\<close> when it is dropped.\<close>

definition kAssertFailed :: int where "kAssertFailed = - 3"
definition kError :: int where "kError = - 2"
definition kWarning :: int where "kWarning = - 1"
definition kInfo :: int where "kInfo = 0"

definition kaldi_log_handler :: "int \<Rightarrow> spd_level" where
  "kaldi_log_handler severity =
     (if severity = kAssertFailed then Spd_critical
      else if severity = kError then Spd_err
      else if severity = kWarning then Spd_warn
      else if severity = kInfo then Spd_info
      else if severity < 1 then Spd_debug
      else Spd_trace)"

fun grpc_log_handler :: "grpc_severity \<Rightarrow> spd_level" where
  "grpc_log_handler GPR_DEBUG = Spd_debug"
| "grpc_log_handler GPR_INFO = Spd_info"
| "grpc_log_handler GPR_ERROR = Spd_err"

definition av_log_handler :: "int \<Rightarrow> spd_level option" where
  "av_log_handler level =
     (if level = AV_LOG_TRACE then Some Spd_trace
      else if level \<in> {AV_LOG_DEBUG, AV_LOG_WARNING, AV_LOG_INFO} then Some Spd_debug
      else if level = AV_LOG_ERROR then Some Spd_err
      else None)"

text \<open>spdlog writes a message whose level is at least the logger's.\<close>

fun level_rank :: "spd_level \<Rightarrow> nat" where
  "level_rank Spd_trace = 0"
| "level_rank Spd_debug = 1"
| "level_rank Spd_info = 2"
| "level_rank Spd_warn = 3"
| "level_rank Spd_err = 4"
| "level_rank Spd_critical = 5"
| "level_rank Spd_off = 6"

lemma level_rank_inject [simp]: "level_rank a = level_rank b \<longleftrightarrow> a = b"
  by (cases a; cases b) simp_all

instantiation spd_level :: linorder
begin

definition less_eq_spd_level :: "spd_level \<Rightarrow> spd_level \<Rightarrow> bool" where
  "less_eq_spd_level a b \<longleftrightarrow> level_rank a \<le> level_rank b"

definition less_spd_level :: "spd_level \<Rightarrow> spd_level \<Rightarrow> bool" where
  "less_spd_level a b \<longleftrightarrow> level_rank a < level_rank b"

instance
  by standard (auto simp: less_eq_spd_level_def less_spd_level_def simp flip: level_rank_inject)

end

instantiation log_level :: linorder
begin

definition less_eq_log_level :: "log_level \<Rightarrow> log_level \<Rightarrow> bool" where
  "less_eq_log_level a b \<longleftrightarrow> ConvertLogLevel a \<le> ConvertLogLevel b"

definition less_log_level :: "log_level \<Rightarrow> log_level \<Rightarrow> bool" where
  "less_log_level a b \<longleftrightarrow> ConvertLogLevel a < ConvertLogLevel b"

instance
proof
  have inject: "ConvertLogLevel a = ConvertLogLevel b \<longleftrightarrow> a = b" for a b by (cases a; cases b) simp_all
  fix x y z :: log_level
  show "x < y \<longleftrightarrow> x \<le> y \<and> \<not> y \<le> x" "x \<le> x" "x \<le> y \<or> y \<le> x"
    by (auto simp: less_eq_log_level_def less_log_level_def)
  show "x \<le> y \<Longrightarrow> y \<le> z \<Longrightarrow> x \<le> z" by (simp add: less_eq_log_level_def)
  show "x \<le> y \<Longrightarrow> y \<le> x \<Longrightarrow> x = y" using inject by (simp add: less_eq_log_level_def)
qed

end

definition shown :: "log_state \<Rightarrow> spd_level \<Rightarrow> bool" where
  "shown st level \<longleftrightarrow> logger_level st \<le> level"

text \<open>
  Setting the log level by name succeeds exactly for the ten spellings of five levels, and then
  the logger's level converts back to the level of that name; the sixth level, critical, has no
  name.
\<close>

theorem SetLogLevel_string_outcome:
  "case SetLogLevel_string s st of
     Ret st' \<Rightarrow> LogLevelFromString s = Ret (ConvertLogLevel_from (logger_level st')) \<and>
       logger_level st' \<noteq> Spd_critical \<and>
       s \<in> {''TRACE'', ''trace'', ''DEBUG'', ''debug'', ''INFO'', ''info'', ''WARNING'', ''warning'',
            ''ERROR'', ''error''}
   | Throw e \<Rightarrow> e = Runtime_error (''Invalid log level: '' @ s) \<and>
       s \<notin> {''TRACE'', ''trace'', ''DEBUG'', ''debug'', ''INFO'', ''info'', ''WARNING'', ''warning'',
            ''ERROR'', ''error''}
   | Fault b \<Rightarrow> False"
  by (simp add: SetLogLevel_string_def LogLevelFromString_def SetLogLevel_def Let_def)

lemma shown_after_SetLogLevel: "shown (SetLogLevel l st) level \<longleftrightarrow> ConvertLogLevel l \<le> level"
  by (simp add: shown_def SetLogLevel_def Let_def)

text \<open>A lower level shows at least what a higher one shows.\<close>

lemma shown_antimono: "l \<le> l' \<Longrightarrow> shown (SetLogLevel l' st) level \<Longrightarrow> shown (SetLogLevel l st') level"
  by (auto simp: shown_after_SetLogLevel less_eq_log_level_def)

text \<open>
  A verbose Kaldi message (severity 1 and up), the kind that the debug level switches on in
  Kaldi by setting its verbosity to 1, is logged as trace: it is shown exactly at the trace level,
  and never at the debug level.
\<close>

theorem kaldi_verbose_hidden:
  "shown (SetLogLevel l st) (kaldi_log_handler (1 + int n)) \<longleftrightarrow> l = KTrace"
  by (cases l) (simp_all add: shown_after_SetLogLevel kaldi_log_handler_def kAssertFailed_def kError_def
      kWarning_def kInfo_def less_eq_spd_level_def)

end
