(* ===== verification/Segmentation.thy ===== *)
theory Segmentation
  imports Float_Rounding
begin

text \<open>
  \<open>SegmentByVad\<close> of \<open>src/diarization.cc\<close>: from a voicing decision per frame to segments. The vectors
  \<open>S\<close> and \<open>E\<close> hold 1 where a segment starts and ends; the number of voiced frames is counted, the
  starts are moved backwards until the segments have the wanted share of silence, and the segments
  are read off. Kaldi's \<open>ApproxEqual\<close> is the parameter \<open>approx\<close>; the uninitialised variable
  \<open>in_segment\<close> is the parameter \<open>init\<close>, a fault under the standard and some value on a machine.
\<close>

section \<open>Marking starts and ends\<close>

type_synonym approx = "rat \<Rightarrow> rat \<Rightarrow> bool"

definition segment_starts :: "approx \<Rightarrow> rat list \<Rightarrow> rat list" where
  "segment_starts approx A =
     map (\<lambda>n. if A ! n = 0 then 0
              else if n = 0 \<or> approx (A ! (n - 1)) 0 then 1 else 0) [0..<length A]"

definition segment_ends :: "approx \<Rightarrow> rat list \<Rightarrow> rat list" where
  "segment_ends approx A =
     map (\<lambda>n. if A ! n = 0 \<and> 0 < n \<and> \<not> approx (A ! (n - 1)) 0 then 1 else 0) [0..<length A] @
     [if \<not> approx (A ! (length A - 1)) 0 then 1 else 0]"

section \<open>Counting voiced frames\<close>

fun count_frames ::
    "approx \<Rightarrow> rat list \<Rightarrow> rat list \<Rightarrow> nat \<Rightarrow> nat list \<Rightarrow> bool outcome \<Rightarrow> int \<Rightarrow> nat list \<Rightarrow>
     (int \<times> nat list) outcome" where
  "count_frames approx S E N [] in_segment num active = Ret (num, active)"
| "count_frames approx S E N (n # ns) in_segment num active =
     (let starts = n < N \<and> approx (S ! n) 1;
          active1 = (if starts then active @ [n] else active);
          seg1 = (if starts then Ret True else in_segment);
          seg2 = (if approx (E ! n) 1 then Ret False else seg1)
      in if n < N then
           obind seg2 (\<lambda>b. count_frames approx S E N ns seg2 (if b then num + 1 else num) active1)
         else count_frames approx S E N ns seg2 num active1)"

section \<open>Extending segments\<close>

record extension =
  ex_S :: "rat list"
  ex_E :: "rat list"
  ex_active :: "nat list"
  ex_num :: int
  ex_changed :: bool

definition extend_end :: "approx \<Rightarrow> nat \<Rightarrow> nat \<Rightarrow> nat \<Rightarrow> extension \<Rightarrow> extension" where
  "extend_end approx N i n x =
     (if approx (ex_E x ! n) 1 \<and> n < N \<and> \<not> approx (ex_S x ! n) 1 then
        x\<lparr>ex_E := (ex_E x)[n := 0, n + 1 := 1], ex_active := (ex_active x)[i := n + 1],
          ex_num := ex_num x + 1, ex_changed := True\<rparr>
      else x)"

definition extend_start :: "approx \<Rightarrow> nat \<Rightarrow> nat \<Rightarrow> nat \<Rightarrow> extension \<Rightarrow> extension" where
  "extend_start approx N i n x =
     (if n < N \<and> approx (ex_S x ! n) 1 \<and> 0 < n \<and> \<not> approx (ex_E x ! n) 1 then
        x\<lparr>ex_S := (ex_S x)[n := 0, n - 1 := 1], ex_active := (ex_active x)[i := n - 1],
          ex_num := ex_num x + 1, ex_changed := True\<rparr>
      else x)"

fun extend_pass :: "approx \<Rightarrow> nat \<Rightarrow> int \<Rightarrow> nat list \<Rightarrow> extension \<Rightarrow> extension" where
  "extend_pass approx N target [] x = x"
| "extend_pass approx N target (i # is) x =
     (let n = ex_active x ! i;
          x2 = extend_start approx N i n (extend_end approx N i n x)
      in if ex_num x2 = target then x2 else extend_pass approx N target is x2)"

lemma extend_num:
  "ex_num x \<le> ex_num (extend_end approx N i n x)" "ex_num x \<le> ex_num (extend_start approx N i n x)"
  "ex_changed (extend_end approx N i n x) \<Longrightarrow> ex_changed x \<or> ex_num x < ex_num (extend_end approx N i n x)"
  "ex_changed (extend_start approx N i n x) \<Longrightarrow> ex_changed x \<or> ex_num x < ex_num (extend_start approx N i n x)"
  by (auto simp: extend_end_def extend_start_def)

lemma extend_pass_num:
  "ex_num x \<le> ex_num (extend_pass approx N target is x) \<and>
   (ex_changed (extend_pass approx N target is x) \<longrightarrow>
      ex_changed x \<or> ex_num x < ex_num (extend_pass approx N target is x))"
proof (induction "is" arbitrary: x)
  case (Cons i js)
  let ?n = "ex_active x ! i"
  let ?x1 = "extend_end approx N i ?n x"
  let ?x2 = "extend_start approx N i ?n ?x1"
  have "ex_num x \<le> ex_num ?x2" "ex_changed ?x2 \<Longrightarrow> ex_changed x \<or> ex_num x < ex_num ?x2"
    using extend_num [where x = x and approx = approx and N = N and i = i and n = ?n]
      extend_num [where x = ?x1 and approx = approx and N = N and i = i and n = ?n] by linarith+
  with Cons.IH [of ?x2] show ?case by (auto simp: Let_def)
qed simp

function extend_loop :: "approx \<Rightarrow> nat \<Rightarrow> int \<Rightarrow> extension \<Rightarrow> extension" where
  "extend_loop approx N target x =
     (if ex_num x < target then
        (let x' = extend_pass approx N target [0..<length (ex_active x)] (x\<lparr>ex_changed := False\<rparr>) in
         if \<not> ex_changed x' then x' else extend_loop approx N target x')
      else x)"
  by pat_completeness auto
termination
proof (relation "measure (\<lambda>(approx, N, target, x). nat (target - ex_num x))")
  fix approx N target and x x' :: extension
  assume "ex_num x < target"
    and "x' = extend_pass approx N target [0..<length (ex_active x)] (x\<lparr>ex_changed := False\<rparr>)"
    and "\<not> \<not> ex_changed x'"
  with extend_pass_num [where x = "x\<lparr>ex_changed := False\<rparr>" and approx = approx and N = N
      and target = target and ?is = "[0..<length (ex_active x)]"]
  show "((approx, N, target, x'), (approx, N, target, x)) \<in>
      measure (\<lambda>(approx, N, target, x). nat (target - ex_num x))"
    by simp
qed simp

declare extend_loop.simps [simp del]

section \<open>Reading off the segments\<close>

text \<open>The inner loop: the end of the segment; a start inside it fails an assertion.\<close>

function find_end :: "approx \<Rightarrow> rat list \<Rightarrow> rat list \<Rightarrow> nat \<Rightarrow> nat \<Rightarrow> nat outcome" where
  "find_end approx S E N p =
     (if p < N \<and> \<not> approx (E ! p) 1 then
        (if S ! p = 0 then find_end approx S E N (p + 1) else Fault Assertion_failed)
      else Ret p)"
  by pat_completeness auto
termination by (relation "measure (\<lambda>(approx, S, E, N, p). N - p)") auto

declare find_end.simps [simp del]

lemma find_end_ge: "find_end approx S E N p = Ret q \<Longrightarrow> p \<le> q"
proof (induction approx S E N p rule: find_end.induct)
  case (1 approx S E N p)
  show ?case
  proof (cases "p < N \<and> \<not> approx (E ! p) 1")
    case True
    with 1(2) have "S ! p = 0" "find_end approx S E N (p + 1) = Ret q"
      by (auto simp: find_end.simps [of approx S E N p] split: if_split_asm)
    with 1(1) [OF True] show ?thesis by simp
  next
    case False
    with 1(2) show ?thesis by (auto simp: find_end.simps [of approx S E N p])
  qed
qed

function read_segments :: "approx \<Rightarrow> rat list \<Rightarrow> rat list \<Rightarrow> nat \<Rightarrow> nat \<Rightarrow> (nat \<times> nat) list outcome" where
  "read_segments approx S E N n =
     (if n < N then
        (if E ! n = 1 \<and> S ! n \<noteq> 1 then Fault Assertion_failed
         else if S ! n = 1 then
           (case find_end approx S E N (n + 1) of
              Ret p \<Rightarrow>
                if E ! p \<noteq> 1 then Fault Assertion_failed
                else omap ((#) (n, p))
                  (read_segments approx S E N (if p < N \<and> approx (S ! p) 1 then p else p + 1))
            | Throw e \<Rightarrow> Throw e
            | Fault b \<Rightarrow> Fault b)
         else read_segments approx S E N (n + 1))
      else Ret [])"
  by pat_completeness auto
termination
  by (relation "measure (\<lambda>(approx, S, E, N, n). N - n)") (auto dest: find_end_ge)

declare read_segments.simps [simp del]

section \<open>SegmentByVad\<close>

text \<open>
  The wanted number of frames is computed in \<open>double\<close> from the \<open>float\<close> proportion and cut to an
  \<open>int32_t\<close>.
\<close>

definition target_frames :: "int \<Rightarrow> rat \<Rightarrow> int outcome" where
  "target_frames num silence_proportion =
     (let d = f64 (1 - silence_proportion) in
      if d = 0 then Fault Invalid_conversion
      else let t = trunc (f64 (of_int num / d)) in
        if int32_range t then Ret t else Fault Invalid_conversion)"

definition SegmentByVad ::
    "approx \<Rightarrow> bool outcome \<Rightarrow> rat list \<Rightarrow> rat \<Rightarrow> (nat \<times> nat) list outcome" where
  "SegmentByVad approx init voiced silence_proportion =
     (let A = voiced; N = length voiced in
      if N = 0 then Fault Index_out_of_bounds
      else
        let S = segment_starts approx A; E = segment_ends approx A in
        obind (count_frames approx S E N [0..<N + 1] init 0 []) (\<lambda>(num_nonsil_frames, active_frames).
        obind (target_frames num_nonsil_frames silence_proportion) (\<lambda>target_segment_frames.
        let x = extend_loop approx N target_segment_frames
              \<lparr>ex_S = S, ex_E = E, ex_active = active_frames, ex_num = num_nonsil_frames,
               ex_changed = False\<rparr>
        in read_segments approx (ex_S x) (ex_E x) N 0)))"

definition default_silence_proportion :: rat where
  "default_silence_proportion = f32 (1 / 5)"

end
