(* ===== verification/Segmentation_Correct.thy ===== *)
theory Segmentation_Correct
  imports Segmentation
begin

text \<open>
  \<open>SegmentByVad\<close> against intervals: the vectors \<open>S\<close> and \<open>E\<close> represent a list of intervals that are
  in order and do not overlap, every step of the extension loop moves one start back by one frame,
  and reading the vectors gives the intervals. The ends are never moved: the branch of the code for
  that is dead.
\<close>

definition approx_ok :: "approx \<Rightarrow> bool" where
  "approx_ok approx \<longleftrightarrow> (\<forall>a. approx a 0 = (a = 0)) \<and> \<not> approx 0 1 \<and> approx 1 1"

section \<open>Runs of voiced frames\<close>

text \<open>The maximal intervals of voiced frames; the option is the start of the run one is in.\<close>

fun runs :: "nat \<Rightarrow> bool list \<Rightarrow> nat option \<Rightarrow> (nat \<times> nat) list" where
  "runs i [] None = []"
| "runs i [] (Some s) = [(s, i)]"
| "runs i (v # vs) None = runs (Suc i) vs (if v then Some i else None)"
| "runs i (v # vs) (Some s) = (if v then runs (Suc i) vs (Some s) else (s, i) # runs (Suc i) vs None)"

fun separated :: "nat \<Rightarrow> nat \<Rightarrow> (nat \<times> nat) list \<Rightarrow> bool" where
  "separated lo N [] = True"
| "separated lo N ((s, e) # ivs) = (lo \<le> s \<and> s < e \<and> e \<le> N \<and> separated e N ivs)"

lemma separated_mono: "separated lo N ivs \<Longrightarrow> lo' \<le> lo \<Longrightarrow> separated lo' N ivs"
  by (cases ivs) auto

lemma separated_bounds: "separated lo N ivs \<Longrightarrow> (s, e) \<in> set ivs \<Longrightarrow> lo \<le> s \<and> s < e \<and> e \<le> N"
proof (induction lo N ivs rule: separated.induct)
  case (2 lo N s' e' ivs)
  then show ?case by (cases "(s, e) = (s', e')") auto
qed simp

lemma separated_append:
  "separated lo N (us @ vs) \<Longrightarrow> (s, e) \<in> set us \<Longrightarrow> (s', e') \<in> set vs \<Longrightarrow> e \<le> s'"
proof (induction us arbitrary: lo)
  case (Cons u us)
  obtain s0 e0 where u: "u = (s0, e0)" by force
  with Cons.prems(1) have "separated e0 N (us @ vs)" by simp
  with Cons.IH [OF this] separated_bounds [OF this, of s' e'] Cons.prems(2,3) u show ?case by auto
qed simp

lemma separated_appendD: "separated lo N (us @ vs) \<Longrightarrow> separated lo N vs"
proof (induction us arbitrary: lo)
  case (Cons u us)
  then show ?case by (cases u) (fastforce intro: separated_mono)
qed simp

lemma separated_sorted: "separated lo N ivs \<Longrightarrow> sorted_wrt (<) (map fst ivs) \<and> sorted_wrt (<) (map snd ivs)"
  by (induction lo N ivs rule: separated.induct) (auto dest: separated_bounds)

lemma separated_distinct: "separated lo N ivs \<Longrightarrow> distinct (map fst ivs) \<and> distinct (map snd ivs)"
  using separated_sorted strict_sorted_iff by blast

lemma runs_separated:
  "(case r of None \<Rightarrow> lo \<le> i | Some s \<Rightarrow> lo \<le> s \<and> s < i) \<Longrightarrow> separated lo (i + length vs) (runs i vs r)"
proof (induction i vs r arbitrary: lo rule: runs.induct)
  case (3 i v vs)
  then show ?case using "3.IH" [of lo] by (auto split: if_splits)
next
  case (4 i v vs s)
  then show ?case using "4.IH"(1) [of lo] "4.IH"(2) [of i] by auto
qed auto

lemma runs_starts:
  "n \<in> fst ` set (runs i vs r) \<longleftrightarrow> r = Some n \<or>
     (i \<le> n \<and> n < i + length vs \<and> vs ! (n - i) \<and> (if n = i then r = None else \<not> vs ! (n - i - 1)))"
proof (induction i vs r rule: runs.induct)
  case (3 i v vs)
  then show ?case by (auto simp: nth_Cons' split: if_splits)
next
  case (4 i v vs s)
  then show ?case by (auto simp: nth_Cons' split: if_splits)
qed auto

lemma runs_ends:
  "(\<exists>s. (s, n) \<in> set (runs i vs r)) \<longleftrightarrow>
     (i \<le> n \<and> n \<le> i + length vs \<and> (n = i + length vs \<or> \<not> vs ! (n - i)) \<and>
      (if n = i then r \<noteq> None else vs ! (n - i - 1)))"
proof (induction i vs r rule: runs.induct)
  case (3 i v vs)
  then show ?case by (auto simp: nth_Cons' split: if_splits)
next
  case (4 i v vs s)
  then show ?case by (auto simp: nth_Cons' split: if_splits)
qed auto

lemma runs_cover:
  "(\<exists>(s, e) \<in> set (runs i vs r). s \<le> n \<and> n < e) \<longleftrightarrow>
     (case r of None \<Rightarrow> False | Some s \<Rightarrow> s \<le> n \<and> n < i) \<or> (i \<le> n \<and> n < i + length vs \<and> vs ! (n - i))"
  if "case r of None \<Rightarrow> True | Some s \<Rightarrow> s < i"
  using that
proof (induction i vs r rule: runs.induct)
  case (3 i v vs)
  then show ?case by (auto simp: nth_Cons' split: if_splits)
next
  case (4 i v vs s)
  then show ?case by (auto simp: nth_Cons' split: if_splits)
qed auto

section \<open>Frames inside intervals\<close>

definition frames :: "(nat \<times> nat) list \<Rightarrow> int" where
  "frames ivs = (\<Sum>(s, e)\<leftarrow>ivs. int e - int s)"

lemma frames_simps [simp]:
  "frames [] = 0" "frames ((s, e) # ivs) = int e - int s + frames ivs" "frames (us @ vs) = frames us + frames vs"
  by (simp_all add: frames_def)

lemma frames_runs:
  "(case r of None \<Rightarrow> True | Some s \<Rightarrow> s < i) \<Longrightarrow>
   frames (runs i vs r) = (case r of None \<Rightarrow> 0 | Some s \<Rightarrow> int i - int s) + int (length (filter id vs))"
  by (induction i vs r rule: runs.induct) auto

section \<open>The vectors of a list of intervals\<close>

definition starts_of :: "nat \<Rightarrow> (nat \<times> nat) list \<Rightarrow> rat list" where
  "starts_of N ivs = map (\<lambda>n. of_bool (n \<in> fst ` set ivs)) [0..<N]"

definition ends_of :: "nat \<Rightarrow> (nat \<times> nat) list \<Rightarrow> rat list" where
  "ends_of N ivs = map (\<lambda>n. of_bool (n \<in> snd ` set ivs)) [0..<N + 1]"

lemma starts_ends_of [simp]:
  "length (starts_of N ivs) = N" "length (ends_of N ivs) = Suc N"
  "n < N \<Longrightarrow> starts_of N ivs ! n = of_bool (n \<in> fst ` set ivs)"
  "n \<le> N \<Longrightarrow> ends_of N ivs ! n = of_bool (n \<in> snd ` set ivs)"
  by (simp_all add: starts_of_def ends_of_def del: upt_Suc)

lemma approx_of_bool:
  "approx_ok approx \<Longrightarrow> approx (of_bool b) 1 = b" "approx_ok approx \<Longrightarrow> approx a 0 = (a = 0)"
  "approx_ok approx \<Longrightarrow> \<not> approx 0 1" "approx_ok approx \<Longrightarrow> approx 1 1"
  by (auto simp: approx_ok_def)

definition voiced_runs :: "rat list \<Rightarrow> (nat \<times> nat) list" where
  "voiced_runs A = runs 0 (map (\<lambda>a. a \<noteq> 0) A) None"

lemma voiced_runs_separated: "separated 0 (length A) (voiced_runs A)"
  using runs_separated [where r = None and lo = 0 and i = 0 and vs = "map (\<lambda>a. a \<noteq> 0) A"]
  by (simp add: voiced_runs_def)

lemma voiced_runs_marks:
  "n \<in> fst ` set (voiced_runs A) \<longleftrightarrow> n < length A \<and> A ! n \<noteq> 0 \<and> (n = 0 \<or> A ! (n - 1) = 0)"
  "n \<in> snd ` set (voiced_runs A) \<longleftrightarrow>
     0 < n \<and> n \<le> length A \<and> A ! (n - 1) \<noteq> 0 \<and> (n = length A \<or> A ! n = 0)"
proof -
  show "n \<in> fst ` set (voiced_runs A) \<longleftrightarrow> n < length A \<and> A ! n \<noteq> 0 \<and> (n = 0 \<or> A ! (n - 1) = 0)"
    by (auto simp: voiced_runs_def runs_starts split: if_splits)
  have "n \<in> snd ` set ivs \<longleftrightarrow> (\<exists>s. (s, n) \<in> set ivs)" for ivs :: "(nat \<times> nat) list" by force
  then show "n \<in> snd ` set (voiced_runs A) \<longleftrightarrow>
     0 < n \<and> n \<le> length A \<and> A ! (n - 1) \<noteq> 0 \<and> (n = length A \<or> A ! n = 0)"
    by (cases "n < length A") (auto simp: voiced_runs_def runs_ends split: if_splits)
qed

lemma voiced_runs_cover:
  "(\<exists>(s, e) \<in> set (voiced_runs A). s \<le> n \<and> n < e) \<longleftrightarrow> n < length A \<and> A ! n \<noteq> 0"
  using runs_cover [where r = None and i = 0 and vs = "map (\<lambda>a. a \<noteq> 0) A" and n = n]
  by (auto simp: voiced_runs_def)

lemma frames_voiced_runs: "frames (voiced_runs A) = int (length (filter (\<lambda>a. a \<noteq> 0) A))"
  using frames_runs [where r = None and i = 0 and vs = "map (\<lambda>a. a \<noteq> 0) A"]
  by (simp add: voiced_runs_def filter_map comp_def)

lemma segment_marks:
  assumes "approx_ok approx" "A \<noteq> []"
  shows "segment_starts approx A = starts_of (length A) (voiced_runs A)"
    and "segment_ends approx A = ends_of (length A) (voiced_runs A)"
proof -
  show "segment_starts approx A = starts_of (length A) (voiced_runs A)"
    by (auto simp: segment_starts_def starts_of_def voiced_runs_marks approx_of_bool [OF assms(1)])
  have "ends_of (length A) (voiced_runs A) =
      map (\<lambda>n. of_bool (n \<in> snd ` set (voiced_runs A))) [0..<length A] @
      [of_bool (length A \<in> snd ` set (voiced_runs A))]"
    by (simp add: ends_of_def)
  then show "segment_ends approx A = ends_of (length A) (voiced_runs A)"
    using assms(2) by (auto simp: segment_ends_def voiced_runs_marks approx_of_bool [OF assms(1)])
qed

section \<open>The count\<close>

text \<open>The state of the loop before frame \<open>i\<close> is whether frame \<open>i - 1\<close> is voiced.\<close>

lemma count_frames_voiced:
  assumes "approx_ok approx" "S = starts_of (length A) (voiced_runs A)" "E = ends_of (length A) (voiced_runs A)"
    and "i \<le> length A"
    and "if i = 0 then A ! 0 \<noteq> 0 \<or> (\<exists>b. seg = Ret b \<and> (b \<longrightarrow> A ! 0 \<noteq> 0)) else seg = Ret (A ! (i - 1) \<noteq> 0)"
    and "A \<noteq> []"
  shows "count_frames approx S E (length A) [i..<length A + 1] seg num act =
      Ret (num + int (length (filter (\<lambda>a. a \<noteq> 0) (drop i A))),
           act @ filter (\<lambda>n. n \<in> fst ` set (voiced_runs A)) [i..<length A])"
  using assms(4,5)
proof (induction "length A - i" arbitrary: i seg num act)
  case 0
  then have i: "i = length A" by simp
  then show ?case using assms(2,3) by (simp add: approx_of_bool [OF assms(1)])
next
  case (Suc k)
  then have i: "i < length A" by simp
  then have upt: "[i..<length A + 1] = i # [Suc i..<length A + 1]" "[i..<length A] = i # [Suc i..<length A]"
    by (simp_all add: upt_conv_Cons del: upt_Suc)
  have drop: "drop i A = A ! i # drop (Suc i) A" using i by (simp add: Cons_nth_drop_Suc)
  have mark: "i \<in> fst ` set (voiced_runs A) \<longleftrightarrow> A ! i \<noteq> 0 \<and> (i = 0 \<or> A ! (i - 1) = 0)"
    "i \<in> snd ` set (voiced_runs A) \<longleftrightarrow> 0 < i \<and> A ! (i - 1) \<noteq> 0 \<and> A ! i = 0"
    using i by (auto simp: voiced_runs_marks)
  have seg: "(if i \<in> snd ` set (voiced_runs A) then Ret False
      else if i \<in> fst ` set (voiced_runs A) then Ret True else seg) = Ret (A ! i \<noteq> 0)"
    unfolding mark using Suc.prems(2) by (cases "i = 0") auto
  have step: "count_frames approx S E (length A) (i # ns) seg num act =
      count_frames approx S E (length A) ns (Ret (A ! i \<noteq> 0)) (if A ! i \<noteq> 0 then num + 1 else num)
        (if i \<in> fst ` set (voiced_runs A) then act @ [i] else act)" for ns
    using i seg unfolding assms(2,3)
    by (cases "i \<in> snd ` set (voiced_runs A)"; cases "i \<in> fst ` set (voiced_runs A)")
      (simp_all add: Let_def approx_of_bool [OF assms(1)])
  show ?case
    unfolding upt(1) step using Suc.hyps(1) [of "Suc i"] Suc.hyps(2) i
    by (simp add: drop upt(2) del: upt_Suc)
qed

section \<open>Extending\<close>

definition represents :: "nat \<Rightarrow> extension \<Rightarrow> (nat \<times> nat) list \<Rightarrow> bool" where
  "represents N x ivs \<longleftrightarrow> separated 0 N ivs \<and> ex_S x = starts_of N ivs \<and> ex_E x = ends_of N ivs \<and>
     ex_active x = map fst ivs \<and> ex_num x = frames ivs"

text \<open>A segment is stuck at the first frame or at the end of the segment before it.\<close>

definition stuck :: "(nat \<times> nat) list \<Rightarrow> nat \<Rightarrow> bool" where
  "stuck ivs i \<longleftrightarrow> fst (ivs ! i) = 0 \<or> fst (ivs ! i) \<in> snd ` set ivs"

definition move_start :: "nat \<Rightarrow> (nat \<times> nat) list \<Rightarrow> (nat \<times> nat) list" where
  "move_start i ivs = (if stuck ivs i then ivs else ivs[i := (fst (ivs ! i) - 1, snd (ivs ! i))])"

abbreviation pulled_back :: "(nat \<times> nat) list \<Rightarrow> (nat \<times> nat) list \<Rightarrow> bool" where
  "pulled_back \<equiv> list_all2 (\<lambda>(s0, e0) (s, e). s \<le> s0 \<and> e = e0)"

lemma pulled_back_refl: "pulled_back ivs ivs"
  by (rule list_all2_refl) auto

lemma pulled_back_trans: "pulled_back us vs \<Longrightarrow> pulled_back vs ws \<Longrightarrow> pulled_back us ws"
  by (rule list_all2_trans) auto

lemma move_start_back: "i < length ivs \<Longrightarrow> pulled_back ivs (move_start i ivs)"
  by (auto simp: move_start_def list_all2_conv_all_nth nth_list_update split: prod.split)

lemma separated_replace:
  "separated lo N (us @ (s, e) # vs) \<Longrightarrow> lo \<le> s' \<Longrightarrow> s' < e \<Longrightarrow> \<forall>(u, v) \<in> set us. v \<le> s' \<Longrightarrow>
   separated lo N (us @ (s', e) # vs)"
  by (induction us arbitrary: lo) fastforce+

lemma split_at:
  assumes "separated 0 N ivs" "i < length ivs" "\<not> stuck ivs i"
  obtains us s e vs where "ivs = us @ (Suc s, e) # vs" "move_start i ivs = us @ (s, e) # vs"
    "ivs ! i = (Suc s, e)" "Suc s \<notin> snd ` set ivs" "\<forall>(u, v) \<in> set us. v \<le> s" "i = length us"
proof -
  obtain s e where at: "ivs ! i = (Suc s, e)" "Suc s \<notin> snd ` set ivs"
    using assms(3) by (cases "ivs ! i"; cases "fst (ivs ! i)") (auto simp: stuck_def)
  let ?us = "take i ivs" and ?vs = "drop (Suc i) ivs"
  have ivs: "ivs = ?us @ (Suc s, e) # ?vs" using id_take_nth_drop [OF assms(2)] at(1) by simp
  have "move_start i ivs = ?us @ (s, e) # ?vs"
    using assms(2,3) at(1) by (simp add: move_start_def upd_conv_take_nth_drop)
  moreover have "v \<le> s" if "(u, v) \<in> set ?us" for u v
  proof -
    have "v \<le> Suc s" using separated_append [of 0 N ?us "(Suc s, e) # ?vs" u v "Suc s" e] assms(1) ivs that
      by simp
    moreover have "v \<noteq> Suc s" using at(2) that by (force dest: in_set_takeD)
    ultimately show ?thesis by simp
  qed
  ultimately show thesis using that [of ?us s e ?vs] ivs at assms(2) by auto
qed

lemma move_start_facts:
  assumes "separated 0 N ivs" "i < length ivs" "\<not> stuck ivs i"
  defines "n \<equiv> fst (ivs ! i)"
  shows "separated 0 N (move_start i ivs)"
    and "starts_of N (move_start i ivs) = (starts_of N ivs)[n := 0, n - 1 := 1]"
    and "ends_of N (move_start i ivs) = ends_of N ivs"
    and "map fst (move_start i ivs) = (map fst ivs)[i := n - 1]"
    and "frames (move_start i ivs) = frames ivs + 1"
proof -
  obtain us s e vs where ivs: "ivs = us @ (Suc s, e) # vs" "move_start i ivs = us @ (s, e) # vs"
    "ivs ! i = (Suc s, e)" "\<forall>(u, v) \<in> set us. v \<le> s" "i = length us"
    using split_at [OF assms(1-3)] by metis
  have n: "n = Suc s" using ivs(3) by (simp add: n_def)
  have "Suc s < e" "Suc s < N" using assms(1) separated_bounds [of 0 N ivs "Suc s" e] ivs(1) by simp_all
  then show "separated 0 N (move_start i ivs)"
    using separated_replace [of 0 N us "Suc s" e vs s] assms(1) ivs by simp
  have "distinct (map fst ivs)" using separated_distinct assms(1) by blast
  then have fresh: "Suc s \<notin> fst ` set us" "Suc s \<notin> fst ` set vs" using ivs(1) by auto
  then show "starts_of N (move_start i ivs) = (starts_of N ivs)[n := 0, n - 1 := 1]"
    unfolding ivs(2) n unfolding ivs(1) using \<open>Suc s < N\<close>
    by (intro nth_equalityI) (auto simp: nth_list_update)
  show "ends_of N (move_start i ivs) = ends_of N ivs" 
    unfolding ivs(2) unfolding ivs(1) by (simp add: ends_of_def del: upt_Suc)
  show "map fst (move_start i ivs) = (map fst ivs)[i := n - 1]" 
    unfolding ivs(2) n unfolding ivs(1) by (simp add: ivs(5) list_update_append)
  show "frames (move_start i ivs) = frames ivs + 1" unfolding ivs(2) unfolding ivs(1) by simp
qed

text \<open>Refinement: one visit of the loop moves one start, or leaves the state alone.\<close>

lemma extend_refines:
  assumes ok: "approx_ok approx" and x: "represents N x ivs" and i: "i < length ivs"
  defines "n \<equiv> ex_active x ! i"
  defines "x' \<equiv> extend_start approx N i n (extend_end approx N i n x)"
  shows "represents N x' (move_start i ivs)"
    and "if stuck ivs i then x' = x else ex_changed x' \<and> ex_num x' = ex_num x + 1"
proof -
  have sep: "separated 0 N ivs" and S: "ex_S x = starts_of N ivs" and E: "ex_E x = ends_of N ivs"
    and active: "ex_active x = map fst ivs" and num: "ex_num x = frames ivs"
    using x by (auto simp: represents_def)
  have n: "n = fst (ivs ! i)" using i by (simp add: n_def active)
  have mem: "(n, snd (ivs ! i)) \<in> set ivs" using i by (simp add: n)
  then have "n < N" using separated_bounds [OF sep] by fastforce
  have start: "n \<in> fst ` set ivs" using mem by force
  have no_end: "extend_end approx N i n x = x"
    using start \<open>n < N\<close> by (simp add: extend_end_def S E approx_of_bool [OF ok])
  have x': "x' = (if stuck ivs i then x else x\<lparr>ex_S := (ex_S x)[n := 0, n - 1 := 1],
      ex_active := (ex_active x)[i := n - 1], ex_num := ex_num x + 1, ex_changed := True\<rparr>)"
    unfolding x'_def no_end using start \<open>n < N\<close>
    by (auto simp: extend_start_def S E stuck_def n approx_of_bool [OF ok])
  show "if stuck ivs i then x' = x else ex_changed x' \<and> ex_num x' = ex_num x + 1"
    by (simp add: x')
  show "represents N x' (move_start i ivs)"
  proof (cases "stuck ivs i")
    case True
    then show ?thesis using x by (simp add: x' move_start_def)
  next
    case False
    from move_start_facts [OF sep i False] show ?thesis
      using False by (simp add: x' represents_def S E active num n)
  qed
qed

lemma stuck_move: "length (move_start i ivs) = length ivs"
  by (simp add: move_start_def)

lemma extend_pass_refines:
  assumes "approx_ok approx" "represents N x ivs" "set is \<subseteq> {..<length ivs}" "ex_num x < target"
  shows "\<exists>ivs'. represents N (extend_pass approx N target is x) ivs' \<and> pulled_back ivs ivs' \<and>
      ex_num (extend_pass approx N target is x) \<le> target \<and>
      (\<not> ex_changed (extend_pass approx N target is x) \<longrightarrow>
         extend_pass approx N target is x = x \<and> (\<forall>i \<in> set is. stuck ivs i))"
  using assms
proof (induction "is" arbitrary: x ivs)
  case Nil
  then show ?case using pulled_back_refl by auto
next
  case (Cons i js)
  let ?n = "ex_active x ! i"
  let ?x = "extend_start approx N i ?n (extend_end approx N i ?n x)"
  let ?ivs = "move_start i ivs"
  have i: "i < length ivs" using Cons.prems(3) by simp
  note step = extend_refines [OF Cons.prems(1,2) i]
  have le: "ex_num ?x \<le> target" using step(2) Cons.prems(4) by (auto split: if_splits)
  have pb: "pulled_back ivs ?ivs" using move_start_back [OF i] .
  show ?case
  proof (cases "ex_num ?x = target")
    case True
    then have "\<not> stuck ivs i" "ex_changed ?x" using step(2) Cons.prems(4) by (auto split: if_splits)
    then show ?thesis using True step(1) pb by (auto simp: Let_def)
  next
    case False
    with le have lt: "ex_num ?x < target" by simp
    have sub: "set js \<subseteq> {..<length ?ivs}" using Cons.prems(3) by (simp add: stuck_move)
    obtain ivs' where ivs': "represents N (extend_pass approx N target js ?x) ivs'"
      "pulled_back ?ivs ivs'" "ex_num (extend_pass approx N target js ?x) \<le> target"
      "\<not> ex_changed (extend_pass approx N target js ?x) \<longrightarrow>
         extend_pass approx N target js ?x = ?x \<and> (\<forall>i \<in> set js. stuck ?ivs i)"
      using Cons.IH [OF Cons.prems(1) step(1) sub lt] by blast
    have "extend_pass approx N target (i # js) x = extend_pass approx N target js ?x"
      using False by (simp add: Let_def)
    moreover have "stuck ivs i \<and> ?x = x \<and> ?ivs = ivs" if "\<not> ex_changed ?x"
      using step(2) that by (auto simp: move_start_def split: if_splits)
    ultimately show ?thesis using ivs' pulled_back_trans [OF pb ivs'(2)]
      by (metis (no_types, lifting) set_ConsD)
  qed
qed

lemma extend_loop_refines:
  assumes "approx_ok approx" "represents N x ivs"
  shows "\<exists>ivs'. represents N (extend_loop approx N target x) ivs' \<and> pulled_back ivs ivs' \<and>
      (if frames ivs < target then frames ivs' = target \<or>
          (frames ivs' < target \<and> (\<forall>i < length ivs'. stuck ivs' i))
       else ivs' = ivs)"
  using assms
proof (induction approx N target x arbitrary: ivs rule: extend_loop.induct)
  case (1 approx N target x)
  have num: "ex_num x = frames ivs" and len: "length (ex_active x) = length ivs"
    using 1(3) by (auto simp: represents_def)
  show ?case
  proof (cases "ex_num x < target")
    case False
    then show ?thesis using 1(3) num pulled_back_refl by (auto simp: extend_loop.simps [of approx N target x])
  next
    case True
    let ?y = "x\<lparr>ex_changed := False\<rparr>"
    let ?x = "extend_pass approx N target [0..<length (ex_active x)] ?y"
    have rep: "represents N ?y ivs" using 1(3) by (simp add: represents_def)
    obtain us where us: "represents N ?x us" "pulled_back ivs us" "ex_num ?x \<le> target"
      "\<not> ex_changed ?x \<longrightarrow> ?x = ?y \<and> (\<forall>i \<in> set [0..<length (ex_active x)]. stuck ivs i)"
      using extend_pass_refines [OF 1(2) rep, of "[0..<length (ex_active x)]" target] True
      unfolding len by (simp add: atLeast0LessThan) blast
    have tot: "frames us = ex_num ?x" using us(1) by (simp add: represents_def)
    show ?thesis
    proof (cases "ex_changed ?x")
      case False
      with us(4) have "?x = ?y" and "\<forall>i < length ivs. stuck ivs i" by (simp_all add: len)
      moreover have "extend_loop approx N target x = ?y"
        using True False calculation(1) by (simp add: extend_loop.simps [of approx N target x] Let_def)
      ultimately show ?thesis using True rep num pulled_back_refl by auto
    next
      case changed: True
      have eq: "extend_loop approx N target x = extend_loop approx N target ?x"
        using True changed by (simp add: extend_loop.simps [of approx N target x] Let_def)
      obtain vs where "represents N (extend_loop approx N target ?x) vs" "pulled_back us vs"
        "if frames us < target then frames vs = target \<or> (frames vs < target \<and> (\<forall>i < length vs. stuck vs i))
         else vs = us"
        using 1(1) [OF True refl _ 1(2) us(1)] changed by auto
      then show ?thesis using eq True num us(3) tot pulled_back_trans [OF us(2)]
        by (auto split: if_splits)
    qed
  qed
qed

section \<open>Reading\<close>

text \<open>Position \<open>n\<close> lies between the intervals read, \<open>us\<close>, and those to come, \<open>vs\<close>.\<close>

definition between :: "nat \<Rightarrow> nat \<Rightarrow> (nat \<times> nat) list \<Rightarrow> (nat \<times> nat) list \<Rightarrow> bool" where
  "between N n us vs \<longleftrightarrow> separated n N vs \<and>
     (\<forall>(s, e) \<in> set us. s < n \<and> (e < n \<or> (e = n \<and> n \<in> fst ` set vs)))"

lemma separated_start: "separated n N vs \<Longrightarrow> n \<in> fst ` set vs \<Longrightarrow> \<exists>e ws. vs = (n, e) # ws"
proof (cases vs)
  case (Cons v ws)
  assume sep: "separated n N vs" and "n \<in> fst ` set vs"
  obtain s e where v: "v = (s, e)" by force
  have "n \<notin> fst ` set ws" using sep separated_bounds [of e N ws n] by (force simp: Cons v)
  with \<open>n \<in> fst ` set vs\<close> show ?thesis by (simp add: Cons v)
qed simp

lemma between_marks:
  assumes "between N n us vs"
  shows "n \<in> fst ` set (us @ vs) \<longleftrightarrow> n \<in> fst ` set vs"
    and "n \<in> snd ` set (us @ vs) \<Longrightarrow> n \<in> fst ` set vs"
proof -
  have us: "\<And>s e. (s, e) \<in> set us \<Longrightarrow> s < n \<and> (e < n \<or> (e = n \<and> n \<in> fst ` set vs))"
    and vs: "\<And>s e. (s, e) \<in> set vs \<Longrightarrow> n < e"
    using assms separated_bounds [of n N vs] by (fastforce simp: between_def)+
  show "n \<in> fst ` set (us @ vs) \<longleftrightarrow> n \<in> fst ` set vs" using us by force
  show "n \<in> snd ` set (us @ vs) \<Longrightarrow> n \<in> fst ` set vs" using us vs by force
qed

lemma between_marks_inside:
  assumes btw: "between N n us ((n, e) # vs)" and "n < q" "q < e"
  shows "q \<notin> snd ` set (us @ (n, e) # vs)" "q \<notin> fst ` set (us @ (n, e) # vs)"
proof -
  have us: "\<And>s e. (s, e) \<in> set us \<Longrightarrow> s < n \<and> e \<le> n"
    and vs: "\<And>s f. (s, f) \<in> set vs \<Longrightarrow> e \<le> s \<and> s < f"
    using btw separated_bounds [of e N vs] by (fastforce simp: between_def)+
  show "q \<notin> snd ` set (us @ (n, e) # vs)" using us vs assms(2,3) by fastforce
  show "q \<notin> fst ` set (us @ (n, e) # vs)" using us vs assms(2,3) by fastforce
qed

lemma find_end_of:
  assumes ok: "approx_ok approx" and btw: "between N n us ((n, e) # vs)"
    and q: "n < q" "q \<le> e"
  shows "find_end approx (starts_of N (us @ (n, e) # vs)) (ends_of N (us @ (n, e) # vs)) N q = Ret e"
  using q
proof (induction "e - q" arbitrary: q)
  case 0
  then show ?case using btw
    by (auto simp: find_end.simps [of _ _ _ _ q] between_def approx_of_bool [OF ok])
next
  case (Suc k)
  have "e \<le> N" "separated e N vs" using btw by (auto simp: between_def)
  then have "q \<notin> snd ` set (us @ (n, e) # vs)" "q \<notin> fst ` set (us @ (n, e) # vs)"
    using between_marks_inside [OF btw] Suc.hyps(2) Suc.prems by auto
  then show ?case using Suc.hyps(1) [of "q + 1"] Suc.hyps(2) Suc.prems \<open>e \<le> N\<close>
    by (simp add: find_end.simps [of _ _ _ _ q] approx_of_bool [OF ok])
qed

lemma between_next:
  assumes "between N n us ((n, e) # vs)"
  shows "between N (if e \<in> fst ` set vs then e else e + 1) (us @ [(n, e)]) vs"
proof -
  have "n < e" "separated e N vs" using assms by (auto simp: between_def)
  moreover have "separated (e + 1) N vs" if "e \<notin> fst ` set vs"
    using \<open>separated e N vs\<close> that by (cases vs) (auto simp: Suc_le_eq le_neq_implies_less)
  ultimately show ?thesis using assms \<open>n < e\<close> unfolding between_def by auto
qed

lemma read_segments_of:
  assumes "approx_ok approx" "between N n us vs"
  shows "read_segments approx (starts_of N (us @ vs)) (ends_of N (us @ vs)) N n = Ret vs"
  using assms(2)
proof (induction "N + 1 - n" arbitrary: n us vs rule: less_induct)
  case less
  note marks = between_marks [OF less.prems]
  note unfold = read_segments.simps [of approx _ _ N n]
  show ?case
  proof (cases "n < N")
    case False
    then have "vs = []" using less.prems by (cases vs) (auto simp: between_def)
    then show ?thesis using False by (simp add: unfold)
  next
    case True
    show ?thesis
    proof (cases "n \<in> fst ` set vs")
      case False
      have "between N (n + 1) us vs" using less.prems False
        by (cases vs) (fastforce simp: between_def Suc_le_eq le_neq_implies_less)+
      then show ?thesis using less.hyps [of "n + 1" us vs] True False marks
        by (auto simp: unfold)
    next
      case start: True
      then obtain e ws where vs: "vs = (n, e) # ws"
        using separated_start [of n N vs] less.prems unfolding between_def by blast
      let ?m = "if e \<in> fst ` set ws then e else e + 1"
      have e: "n < e" "e \<le> N" using less.prems by (auto simp: between_def vs)
      have jump: "(if e < N \<and> approx (starts_of N (us @ vs) ! e) 1 then e else e + 1) = ?m"
      proof -
        have "e \<notin> fst ` set us" using less.prems e by (fastforce simp: between_def)
        moreover have "e \<in> fst ` set ws \<Longrightarrow> e < N"
          using less.prems by (fastforce simp: between_def vs dest: separated_bounds)
        ultimately show ?thesis using e by (auto simp: vs approx_of_bool [OF assms(1)])
      qed
      have "read_segments approx (starts_of N (us @ vs)) (ends_of N (us @ vs)) N ?m = Ret ws"
      proof -
        have "N + 1 - ?m < N + 1 - n" using e by auto
        from less.hyps [OF this, of "us @ [(n, e)]" ws] between_next [of N n us e ws] less.prems
        show ?thesis by (simp only: vs append.assoc append_Cons append_Nil)
      qed
      moreover have "find_end approx (starts_of N (us @ vs)) (ends_of N (us @ vs)) N (n + 1) = Ret e"
        using find_end_of [OF assms(1), of N n us e ws "n + 1"] less.prems e by (simp add: vs)
      ultimately show ?thesis using True start jump e
        by (simp add: unfold vs)
    qed
  qed
qed

section \<open>The whole function\<close>

lemma active_starts:
  assumes "separated 0 N ivs"
  shows "filter (\<lambda>n. n \<in> fst ` set ivs) [0..<N] = map fst ivs"
proof (rule sorted_distinct_set_unique)
  show "sorted (map fst ivs)" "distinct (map fst ivs)"
    using separated_sorted [OF assms] separated_distinct [OF assms] strict_sorted_iff by auto
  show "set (filter (\<lambda>n. n \<in> fst ` set ivs) [0..<N]) = set (map fst ivs)"
    using separated_bounds [OF assms] by force
qed (simp_all add: sorted_wrt_filter)

definition frames_known :: "bool outcome \<Rightarrow> rat list \<Rightarrow> bool" where
  "frames_known init A \<longleftrightarrow> A ! 0 \<noteq> 0 \<or> init = Ret False"

definition voiced_frames :: "rat list \<Rightarrow> int" where
  "voiced_frames A = int (length (filter (\<lambda>a. a \<noteq> 0) A))"

lemma SegmentByVad_run:
  assumes ok: "approx_ok approx" and A: "A \<noteq> []" and known: "frames_known init A"
    and target: "target_frames (voiced_frames A) p = Ret t"
  shows "\<exists>ivs. SegmentByVad approx init A p = Ret ivs \<and> separated 0 (length A) ivs \<and>
      pulled_back (voiced_runs A) ivs \<and>
      (if voiced_frames A < t then frames ivs = t \<or> (frames ivs < t \<and> (\<forall>i < length ivs. stuck ivs i))
       else ivs = voiced_runs A)"
proof -
  let ?N = "length A" and ?ivs = "voiced_runs A"
  let ?x = "\<lparr>ex_S = starts_of ?N ?ivs, ex_E = ends_of ?N ?ivs, ex_active = map fst ?ivs,
     ex_num = voiced_frames A, ex_changed = False\<rparr>"
  have count: "count_frames approx (starts_of ?N ?ivs) (ends_of ?N ?ivs) ?N [0..<?N + 1] init 0 [] =
      Ret (voiced_frames A, map fst ?ivs)"
  proof -
    have "A ! 0 \<noteq> 0 \<or> (\<exists>b. init = Ret b \<and> (b \<longrightarrow> A ! 0 \<noteq> 0))"
      using known by (auto simp: frames_known_def)
    then have "count_frames approx (starts_of ?N ?ivs) (ends_of ?N ?ivs) ?N [0..<?N + 1] init 0 [] =
        Ret (0 + int (length (filter (\<lambda>a. a \<noteq> 0) (drop 0 A))),
             [] @ filter (\<lambda>n. n \<in> fst ` set ?ivs) [0..<?N])"
      by (intro count_frames_voiced [OF ok refl refl _ _ A]) simp_all
    then show ?thesis
      unfolding active_starts [OF voiced_runs_separated] voiced_frames_def by simp
  qed
  have rep: "represents ?N ?x ?ivs"
    by (simp add: represents_def voiced_runs_separated frames_voiced_runs voiced_frames_def)
  obtain ivs where ivs: "represents ?N (extend_loop approx ?N t ?x) ivs" "pulled_back ?ivs ivs"
    "if frames ?ivs < t then frames ivs = t \<or> (frames ivs < t \<and> (\<forall>i < length ivs. stuck ivs i))
     else ivs = ?ivs"
    using extend_loop_refines [OF ok rep] by blast
  have sep: "separated 0 ?N ivs" using ivs(1) by (simp add: represents_def)
  have "read_segments approx (starts_of ?N ivs) (ends_of ?N ivs) ?N 0 = Ret ivs"
    using read_segments_of [OF ok, of ?N 0 "[]" ivs] sep by (simp add: between_def)
  then have "SegmentByVad approx init A p = Ret ivs"
    using A ivs(1) count target
    by (simp add: SegmentByVad_def Let_def segment_marks [OF ok A] represents_def del: upt_Suc)
  then show ?thesis using sep ivs(2,3) by (simp add: frames_voiced_runs voiced_frames_def)
qed

lemma pulled_back_covers:
  assumes "pulled_back us vs" "(s, e) \<in> set us" "s \<le> n" "n < e"
  shows "\<exists>(s', e') \<in> set vs. s' \<le> n \<and> n < e'"
proof -
  obtain i where i: "i < length us" "us ! i = (s, e)" using assms(2) by (auto simp: in_set_conv_nth)
  obtain s' e' where at: "vs ! i = (s', e')" by force
  have "s' \<le> s" "e' = e" using list_all2_nthD [OF assms(1) i(1)] by (simp_all add: i(2) at)
  moreover have "(s', e') \<in> set vs"
    using i(1) list_all2_lengthD [OF assms(1)] at nth_mem [of i vs] by simp
  ultimately show ?thesis using assms(3,4) by (intro bexI [where x = "(s', e')"]) simp_all
qed

text \<open>
  C18. \<open>SegmentByVad\<close> returns, for any input of at least one frame, segments that are in order, do
  not overlap and lie inside the recording; every voiced frame is inside one of them; segment by
  segment they end where the runs of voiced frames end and start no later than those. If the voiced
  frames are fewer than the target, the segments have exactly the target number of frames, or every
  start has reached the first frame or the segment before. The hypotheses name what the code relies
  on: \<open>ApproxEqual\<close> tells 0 from 1, the value of the uninitialised \<open>in_segment\<close> is not read or is
  false, and the target fits the \<open>int32_t\<close> it is cut to.
\<close>

theorem SegmentByVad_covers:
  assumes "approx_ok approx" "voiced \<noteq> []" "frames_known init voiced"
    and "target_frames (voiced_frames voiced) p = Ret t"
  shows "\<exists>ivs. SegmentByVad approx init voiced p = Ret ivs \<and> separated 0 (length voiced) ivs \<and>
      pulled_back (voiced_runs voiced) ivs \<and>
      (\<forall>n < length voiced. voiced ! n \<noteq> 0 \<longrightarrow> (\<exists>(s, e) \<in> set ivs. s \<le> n \<and> n < e)) \<and>
      (if voiced_frames voiced < t
       then frames ivs = t \<or> (frames ivs < t \<and> (\<forall>i < length ivs. stuck ivs i))
       else ivs = voiced_runs voiced)"
proof -
  obtain ivs where ivs: "SegmentByVad approx init voiced p = Ret ivs" "separated 0 (length voiced) ivs"
    "pulled_back (voiced_runs voiced) ivs"
    "if voiced_frames voiced < t then frames ivs = t \<or> (frames ivs < t \<and> (\<forall>i < length ivs. stuck ivs i))
     else ivs = voiced_runs voiced"
    using SegmentByVad_run [OF assms] by blast
  moreover have "\<exists>(s, e) \<in> set ivs. s \<le> n \<and> n < e" if "n < length voiced" "voiced ! n \<noteq> 0" for n
    using voiced_runs_cover [of voiced n] that pulled_back_covers [OF ivs(3)] by auto
  ultimately show ?thesis by blast
qed

theorem SegmentByVad_covers_witness:
  "\<exists>ivs. SegmentByVad (=) (Fault Uninitialised_read) [1, 1, 0, 0, 0, 1] (1 / 2) = Ret ivs \<and> frames ivs = 6"
proof -
  have count: "voiced_frames [1, 1, 0, 0, 0, 1] = 3" by (simp add: voiced_frames_def)
  have target: "target_frames 3 (1 / 2) = Ret 6" by code_simp
  have runs: "voiced_runs [1, 1, 0, 0, 0, 1] = [(0, 2), (5, 6)]" by (simp add: voiced_runs_def)
  obtain ivs where "SegmentByVad (=) (Fault Uninitialised_read) [1, 1, 0, 0, 0, 1] (1 / 2) = Ret ivs"
    "frames ivs = 6 \<or> (\<forall>i < length ivs. stuck ivs i)" "pulled_back [(0, 2), (5, 6)] ivs"
    "separated 0 (length [1, 1, 0, 0, 0, 1 :: rat]) ivs"
  proof -
    have "approx_ok (=)" "frames_known (Fault Uninitialised_read) [1, 1, 0, 0, 0, 1]"
      by (simp_all add: approx_ok_def frames_known_def)
    from SegmentByVad_covers [OF this(1) _ this(2), of "1 / 2" 6] show thesis
      unfolding runs count target using that by (auto simp del: list.size)
  qed
  then show ?thesis by (auto simp: list_all2_Cons1 stuck_def All_less_Suc)
qed

text \<open>
  The inputs on which \<open>SegmentByVad\<close> leaves the C++ standard: an empty vector is read at
  index -1, and, because \<open>in_segment\<close> is not initialised, a recording whose first frame is unvoiced
  reads that variable.
\<close>

theorem SegmentByVad_faults:
  "SegmentByVad approx init [] p = Fault Index_out_of_bounds \<and>
   (approx_ok approx \<longrightarrow>
      SegmentByVad approx (Fault Uninitialised_read) (0 # voiced) p = Fault Uninitialised_read)"
proof -
  have "count_frames approx S E (Suc N) [0..<Suc N + 1] (Fault Uninitialised_read) 0 [] = Fault Uninitialised_read"
    if "approx_ok approx" "S ! 0 = 0" "E ! 0 = 0" for S E N
  proof -
    have "[0..<Suc N + 1] = 0 # [1..<Suc N + 1]" by (simp add: upt_conv_Cons del: upt_Suc)
    then show ?thesis using that(2,3) by (simp add: approx_of_bool [OF that(1)] del: upt_Suc)
  qed
  moreover have "segment_starts approx (0 # voiced) ! 0 = 0" "segment_ends approx (0 # voiced) ! 0 = 0"
    by (simp_all add: segment_starts_def segment_ends_def nth_append del: upt_Suc)
  ultimately show ?thesis
    by (auto simp: SegmentByVad_def Let_def simp del: upt_Suc count_frames.simps)
qed

theorem SegmentByVad_faults_witness:
  "SegmentByVad (=) (Fault Uninitialised_read) [0, 1] (1 / 5) = Fault Uninitialised_read"
  using SegmentByVad_faults [where approx = "(=)" and voiced = "[1]" and p = "1 / 5" and init = "Ret True"]
  by (simp add: approx_ok_def)

end
