(* ===== verification/Plda.thy ===== *)
theory Plda
  imports Float_Rounding
begin

text \<open>
  \<open>src/plda-scoring-utils.cc\<close>: the scores of pairs of x-vectors. Kaldi's vector and matrix routines and
  its PLDA model are the parameter records \<open>linear_lib\<close> and \<open>plda_lib\<close> (\<open>'p\<close> is a model); a matrix is
  the list of its rows. The assertions on dimensions inside Kaldi's routines are not part of the model.
\<close>

type_synonym matrix = "rat list list"
type_synonym xvector = "rat list"

record linear_lib =
  lin_AddVec :: "rat \<Rightarrow> xvector \<Rightarrow> xvector \<Rightarrow> xvector"
  lin_Norm :: "xvector \<Rightarrow> rat"
  lin_Scale :: "rat \<Rightarrow> xvector \<Rightarrow> xvector"
  lin_AddMatVec :: "rat \<Rightarrow> matrix \<Rightarrow> xvector \<Rightarrow> rat \<Rightarrow> xvector \<Rightarrow> xvector"
  lin_AddMatMat_trans :: "matrix \<Rightarrow> matrix \<Rightarrow> matrix"
  lin_covariance :: "matrix \<Rightarrow> matrix"
  lin_Eig :: "matrix \<Rightarrow> (xvector \<times> matrix) option"
  lin_Svd :: "matrix \<Rightarrow> (xvector \<times> matrix) option"
  lin_SortSvd :: "xvector \<times> matrix \<Rightarrow> xvector \<times> matrix"
  lin_Sum :: "xvector \<Rightarrow> rat"
  lin_ApproxEqual :: "rat \<Rightarrow> rat \<Rightarrow> rat \<Rightarrow> bool"
  std_sqrt :: "nat \<Rightarrow> rat"

record 'p plda_lib =
  plda_Dim :: "'p \<Rightarrow> nat"
  TransformIvector :: "'p \<Rightarrow> xvector \<Rightarrow> xvector"
  ApplyTransform :: "matrix \<Rightarrow> 'p \<Rightarrow> 'p"
  LogLikelihoodRatio :: "'p \<Rightarrow> xvector \<Rightarrow> xvector \<Rightarrow> rat"

definition NumCols :: "matrix \<Rightarrow> nat" where
  "NumCols m = (case m of [] \<Rightarrow> 0 | r # _ \<Rightarrow> length r)"

section \<open>EstPca\<close>

text \<open>
  The quotient of two floats, compared: with a total of zero it is an infinity of the sign of the
  energy, or no number when the energy is zero too, which is not \<open><=\<close> anything.
\<close>

definition share_le :: "rat \<Rightarrow> rat \<Rightarrow> rat \<Rightarrow> bool" where
  "share_le tot target energy =
     (if tot = 0 then energy < 0 else f32 (energy / tot) \<le> target)"

fun energy_loop :: "rat \<Rightarrow> rat \<Rightarrow> rat \<Rightarrow> nat \<Rightarrow> xvector \<Rightarrow> nat outcome" where
  "energy_loop tot target energy dm [] =
     (if share_le tot target energy then Fault Index_out_of_bounds else Ret dm)"
| "energy_loop tot target energy dm (x # s) =
     (if share_le tot target energy
      then energy_loop tot target (f32 (energy + x)) (Suc dm) s else Ret dm)"

text \<open>\<open>Resize\<close> with \<open>kCopyData\<close>: rows are dropped, or rows of zeros added.\<close>

definition resize_rows :: "nat \<Rightarrow> matrix \<Rightarrow> matrix" where
  "resize_rows dm m = take dm m @ replicate (dm - length m) (replicate (NumCols m) 0)"

text \<open>\<open>None\<close> when it returns false.\<close>

definition EstPca :: "linear_lib \<Rightarrow> matrix \<Rightarrow> rat \<Rightarrow> matrix option outcome" where
  "EstPca lin ivector_mat target_energy =
     (if lin_ApproxEqual lin target_energy 1 (1 / 1000) then Ret None
      else
        let num_rows = length ivector_mat;
            num_cols = NumCols ivector_mat;
            sumsq = lin_covariance lin ivector_mat
        in case (if num_rows > num_cols then lin_Eig lin sumsq else lin_Svd lin sumsq) of
             None \<Rightarrow> Ret None
           | Some sp \<Rightarrow>
               let (s, p) = lin_SortSvd lin sp;
                   transform = transpose p;
                   total_energy = lin_Sum lin s
               in omap (\<lambda>dm. Some (resize_rows dm transform))
                    (energy_loop total_energy target_energy 0 1 s))"

section \<open>Transforms of vectors\<close>

definition TransformIvectors :: "'p plda_lib \<Rightarrow> 'p \<Rightarrow> matrix \<Rightarrow> matrix" where
  "TransformIvectors pl plda ivectors_in = map (TransformIvector pl plda) ivectors_in"

definition ApplyPca :: "linear_lib \<Rightarrow> matrix \<Rightarrow> matrix \<Rightarrow> matrix outcome" where
  "ApplyPca lin ivectors_in pca_mat =
     (if NumCols pca_mat \<noteq> NumCols ivectors_in then Fault Assertion_failed
      else Ret (lin_AddMatMat_trans lin ivectors_in pca_mat))"

text \<open>Linear, or affine with the offset in the last column; \<open>KALDI_ERR\<close> throws.\<close>

definition TransformVec :: "linear_lib \<Rightarrow> matrix \<Rightarrow> xvector \<Rightarrow> xvector outcome" where
  "TransformVec lin transform vec =
     (let transform_cols = NumCols transform; vec_dim = length vec in
      if transform_cols = vec_dim then
        Ret (lin_AddMatVec lin 1 transform vec 0 (replicate (length transform) 0))
      else if transform_cols \<noteq> vec_dim + 1 then Throw (Runtime_error ''Dimension mismatch'')
      else Ret (lin_AddMatVec lin 1 (map (take vec_dim) transform) vec 1 (map (\<lambda>r. r ! vec_dim) transform)))"

definition IvectorSubtractGlobalMean :: "linear_lib \<Rightarrow> xvector \<Rightarrow> xvector list \<Rightarrow> xvector list" where
  "IvectorSubtractGlobalMean lin mean ivectors = map (lin_AddVec lin (- 1) mean) ivectors"

definition normalize_length :: "linear_lib \<Rightarrow> bool \<Rightarrow> bool \<Rightarrow> xvector \<Rightarrow> xvector" where
  "normalize_length lin scaleup norm_it ivector =
     (let norm = lin_Norm lin ivector;
          ratio = (if scaleup then f32 (norm / std_sqrt lin (length ivector)) else norm)
      in if ratio = 0 then ivector
         else if norm_it then lin_Scale lin (f32 (1 / ratio)) ivector else ivector)"

definition IvectorNormalizeLength :: "linear_lib \<Rightarrow> bool \<Rightarrow> bool \<Rightarrow> xvector list \<Rightarrow> xvector list" where
  "IvectorNormalizeLength lin scaleup norm_it = map (normalize_length lin scaleup norm_it)"

section \<open>ScorePlda\<close>

definition default_target_energy :: rat where
  "default_target_energy = f32 (9 / 10)"

definition ScorePlda ::
    "linear_lib \<Rightarrow> 'p plda_lib \<Rightarrow> 'p \<Rightarrow> matrix \<Rightarrow> xvector \<Rightarrow> xvector list \<Rightarrow> rat \<Rightarrow> matrix outcome" where
  "ScorePlda lin pl this_plda whitening_matrix centering_vector ivectors target_energy =
     obind (otraverse (TransformVec lin whitening_matrix)
              (IvectorSubtractGlobalMean lin centering_vector ivectors)) (\<lambda>transformed.
     let ivector_mat = IvectorNormalizeLength lin True True transformed in
     if ivector_mat = [] then Fault Index_out_of_bounds
     else
       obind (EstPca lin ivector_mat target_energy) (\<lambda>pca.
       obind (case pca of
                Some pca_transform \<Rightarrow>
                  omap (\<lambda>m. (ApplyTransform pl pca_transform this_plda, m)) (ApplyPca lin ivector_mat pca_transform)
              | None \<Rightarrow> Ret (this_plda, ivector_mat)) (\<lambda>(plda, m).
       let ivector_mat_plda = TransformIvectors pl plda m in
       Ret (map (\<lambda>x. map (LogLikelihoodRatio pl plda x) ivector_mat_plda) ivector_mat_plda))))"

section \<open>The number of dimensions\<close>

text \<open>The energy after the first \<open>n\<close> values, as the loop accumulates it.\<close>

definition energy_after :: "xvector \<Rightarrow> nat \<Rightarrow> rat" where
  "energy_after s n = foldl (\<lambda>e x. f32 (e + x)) 0 (take n s)"

lemma energy_loop_spec:
  "energy_loop tot target e dm s =
     (if \<forall>n \<le> length s. share_le tot target (foldl (\<lambda>e x. f32 (e + x)) e (take n s))
      then Fault Index_out_of_bounds
      else Ret (dm + (LEAST n. n \<le> length s \<and> \<not> share_le tot target (foldl (\<lambda>e x. f32 (e + x)) e (take n s)))))"
proof (induction s arbitrary: e dm)
  case Nil
  have "(LEAST n. n = (0 :: nat)) = 0" by (rule Least_eq_0) simp
  then show ?case by simp
next
  case (Cons x s)
  let ?P = "\<lambda>n. n \<le> length (x # s) \<and> \<not> share_le tot target (foldl (\<lambda>e x. f32 (e + x)) e (take n (x # s)))"
  let ?Q = "\<lambda>n. n \<le> length s \<and> \<not> share_le tot target (foldl (\<lambda>e x. f32 (e + x)) (f32 (e + x)) (take n s))"
  show ?case
  proof (cases "share_le tot target e")
    case False
    then have "?P 0" by simp
    then have "Least ?P = 0" by (rule Least_eq_0)
    moreover have "\<not> (\<forall>n \<le> length (x # s). share_le tot target (foldl (\<lambda>e x. f32 (e + x)) e (take n (x # s))))"
      using \<open>?P 0\<close> by blast
    ultimately show ?thesis using False by simp
  next
    case True
    have PQ: "?P (Suc n) \<longleftrightarrow> ?Q n" and P0: "\<not> ?P 0" for n using True by simp_all
    show ?thesis
    proof (cases "\<exists>n. ?Q n")
      case True
      then obtain n where n: "?P (Suc n)" using PQ by blast
      have "Least ?P = Suc (LEAST n. ?P (Suc n))" by (rule Least_Suc [OF n P0])
      then have "Least ?P = Suc (Least ?Q)" unfolding PQ .
      moreover have "\<not> (\<forall>n \<le> length (x # s). share_le tot target (foldl (\<lambda>e x. f32 (e + x)) e (take n (x # s))))"
        using n by blast
      moreover have "\<not> (\<forall>n \<le> length s. share_le tot target (foldl (\<lambda>e x. f32 (e + x)) (f32 (e + x)) (take n s)))"
        using True by blast
      ultimately show ?thesis using \<open>share_le tot target e\<close> Cons.IH [of "f32 (e + x)" "Suc dm"] by simp
    next
      case False
      then have "\<not> ?P n" for n using PQ P0 by (cases n) blast+
      then have "\<forall>n \<le> length (x # s). share_le tot target (foldl (\<lambda>e x. f32 (e + x)) e (take n (x # s)))" by blast
      moreover have "\<forall>n \<le> length s. share_le tot target (foldl (\<lambda>e x. f32 (e + x)) (f32 (e + x)) (take n s))"
        using False by blast
      ultimately show ?thesis using \<open>share_le tot target e\<close> Cons.IH [of "f32 (e + x)" "Suc dm"] by simp
    qed
  qed
qed

text \<open>
  C35. The principal components that \<open>EstPca\<close> keeps: with \<open>k\<close> the least number of leading values whose
  accumulated share of the energy exceeds the target, \<open>k + 1\<close> rows of the transposed eigenvectors, one
  more than the target needs, the last one a row of zeros when all values are needed. When no
  number of values exceeds the target it reads past the end of the values.
\<close>

theorem EstPca_dimensions:
  assumes "\<not> lin_ApproxEqual lin target 1 (1 / 1000)"
    and "(if length m > NumCols m then lin_Eig lin (lin_covariance lin m) else lin_Svd lin (lin_covariance lin m)) = Some sp"
    and "lin_SortSvd lin sp = (s, p)"
  shows "let enough = (\<lambda>n. n \<le> length s \<and> \<not> share_le (lin_Sum lin s) target (energy_after s n)) in
    EstPca lin m target =
      (if \<exists>n. enough n then
         (let k = (LEAST n. enough n); rows = transpose p in
          Ret (Some (take (k + 1) rows @ replicate (k + 1 - length rows) (replicate (NumCols rows) 0))))
       else Fault Index_out_of_bounds)"
proof -
  let ?enough = "\<lambda>n. n \<le> length s \<and> \<not> share_le (lin_Sum lin s) target (energy_after s n)"
  have "energy_loop (lin_Sum lin s) target 0 1 s =
      (if \<exists>n. ?enough n then Ret (1 + (LEAST n. ?enough n)) else Fault Index_out_of_bounds)"
    using energy_loop_spec [of "lin_Sum lin s" target 0 1 s] by (auto simp: energy_after_def)
  then show ?thesis
    using assms by (simp add: EstPca_def Let_def resize_rows_def)
qed

section \<open>Affine transforms\<close>

definition dot :: "xvector \<Rightarrow> xvector \<Rightarrow> rat" where
  "dot u v = sum_list (map2 (*) u v)"

lemma dot_snoc: "length u = length v \<Longrightarrow> dot (u @ [a]) (v @ [b]) = dot u v + a * b"
  by (simp add: dot_def)

text \<open>
  With the matrix-vector product that Kaldi documents, transforming a vector with a matrix that
  has one more column than the vector has elements is the linear transform of the vector extended by
  a one, and with as many columns it is the linear transform; any other number of columns throws.
\<close>

theorem TransformVec_affine:
  assumes "\<And>alpha m v beta y. length m = length y \<Longrightarrow>
      lin_AddMatVec lin alpha m v beta y = map2 (\<lambda>r b. alpha * dot r v + beta * b) m y"
    and "m \<noteq> []" "\<forall>r \<in> set m. length r = c"
  shows "TransformVec lin m v =
    (if c = length v then Ret (map (\<lambda>r. dot r v) m)
     else if c = length v + 1 then Ret (map (\<lambda>r. dot r (v @ [1])) m)
     else Throw (Runtime_error ''Dimension mismatch''))"
proof -
  have cols: "NumCols m = c" using assms(2,3) by (cases m) (auto simp: NumCols_def)
  have affine: "dot (take n r) v + r ! n = dot r (v @ [1])" if "length r = n + 1" "length v = n" for r n
  proof -
    have "r = take n r @ [r ! n]" using that(1) by (metis Suc_eq_plus1 lessI take_Suc_conv_app_nth take_all_iff le_refl)
    moreover have "length (take n r) = length v" using that by simp
    ultimately show ?thesis using dot_snoc [of "take n r" v "r ! n" 1] by simp
  qed
  have "map2 (\<lambda>r b. 1 * dot r v + 1 * b) (map (take (length v)) m) (map (\<lambda>r. r ! length v) m) =
      map (\<lambda>r. dot (take (length v) r) v + r ! length v) m"
    by (simp add: map2_map_map)
  moreover have "map2 (\<lambda>r b. 1 * dot r v + 0 * b) m (replicate (length m) (0 :: rat)) = map (\<lambda>r. dot r v) m"
    by (rule nth_equalityI) simp_all
  ultimately show ?thesis
    using assms(1) [of m "replicate (length m) 0" 1 v 0]
      assms(1) [of "map (take (length v)) m" "map (\<lambda>r. r ! length v) m" 1 v 1] assms(3) affine
    by (simp add: TransformVec_def Let_def cols)
qed

text \<open>Exact arithmetic, for concrete runs.\<close>

definition exact_lin :: linear_lib where
  "exact_lin = \<lparr>lin_AddVec = \<lambda>a v w. map2 (\<lambda>x y. y + a * x) v w, lin_Norm = \<lambda>v. sum_list (map abs v),
     lin_Scale = \<lambda>a. map ((*) a),
     lin_AddMatVec = \<lambda>alpha m v beta y. map2 (\<lambda>r b. alpha * dot r v + beta * b) m y,
     lin_AddMatMat_trans = \<lambda>a b. map (\<lambda>r. map (dot r) b) a,
     lin_covariance = \<lambda>m. m, lin_Eig = \<lambda>m. Some ([3, 1], [[1, 0], [0, 1]]),
     lin_Svd = \<lambda>m. Some ([3, 1], [[1, 0], [0, 1]]), lin_SortSvd = id, lin_Sum = sum_list,
     lin_ApproxEqual = \<lambda>a b tol. \<bar>a - b\<bar> \<le> tol, std_sqrt = \<lambda>n. 1\<rparr>"

theorem TransformVec_affine_witness:
  "TransformVec exact_lin [[2, 0, 5], [0, 3, 7]] [10, 100] = Ret [25, 307]"
proof -
  have "TransformVec exact_lin [[2, 0, 5], [0, 3, 7]] [10, 100] =
    (if 3 = length [10, 100 :: rat] then Ret (map (\<lambda>r. dot r [10, 100]) [[2, 0, 5], [0, 3, 7]])
     else if 3 = length [10, 100 :: rat] + 1 then Ret (map (\<lambda>r. dot r ([10, 100] @ [1])) [[2, 0, 5], [0, 3, 7]])
     else Throw (Runtime_error ''Dimension mismatch''))"
    by (rule TransformVec_affine) (simp_all add: exact_lin_def)
  then show ?thesis by (simp add: dot_def)
qed

theorem EstPca_dimensions_witness:
  "EstPca exact_lin [[1, 0], [0, 1]] (1 / 2) = Ret (Some [[1, 0], [0, 1]])"
proof -
  have f: "f32 3 = 3" "f32 (3 / 4) = 3 / 4" "f32 0 = 0" by code_simp+
  let ?enough = "\<lambda>n. n \<le> length [3, 1 :: rat] \<and> \<not> share_le (lin_Sum exact_lin [3, 1]) (1 / 2) (energy_after [3, 1] n)"
  have e: "?enough 1" "\<not> ?enough 0" by (simp_all add: share_le_def energy_after_def exact_lin_def f)
  have least: "Least ?enough = 1"
  proof (rule Least_equality)
    fix n
    assume "?enough n"
    with e(2) show "1 \<le> n" by (cases n) auto
  qed (rule e(1))
  show ?thesis
    using EstPca_dimensions [of exact_lin "1 / 2" "[[1, 0], [0, 1]]" "([3, 1], [[1, 0], [0, 1]])" "[3, 1]" "[[1, 0], [0, 1]]"]
      e(1) unfolding Let_def least by (auto simp: exact_lin_def NumCols_def)
qed

section \<open>The matrix of scores\<close>

text \<open>
  What the routines have to do so that scoring succeeds: keep dimensions, and decompose a covariance
  into as many vectors as it has dimensions, whose values together exceed the target energy.
\<close>

definition keeps_dimensions :: "linear_lib \<Rightarrow> bool" where
  "keeps_dimensions lin \<longleftrightarrow>
     (\<forall>a v w. length (lin_AddVec lin a v w) = length w) \<and> (\<forall>a v. length (lin_Scale lin a v) = length v) \<and>
     (\<forall>a m v b y. length (lin_AddMatVec lin a m v b y) = length y) \<and>
     (\<forall>a b. length (lin_AddMatMat_trans lin a b) = length a)"

definition all_of_length :: "nat \<Rightarrow> matrix \<Rightarrow> bool" where
  "all_of_length d m \<longleftrightarrow> (\<forall>r \<in> set m. length r = d)"

definition decomposes :: "linear_lib \<Rightarrow> rat \<Rightarrow> bool" where
  "decomposes lin target \<longleftrightarrow> (\<forall>m d sp s p. m \<noteq> [] \<longrightarrow> all_of_length d m \<longrightarrow>
     (if length m > d then lin_Eig lin (lin_covariance lin m) else lin_Svd lin (lin_covariance lin m)) = Some sp \<longrightarrow>
     lin_SortSvd lin sp = (s, p) \<longrightarrow>
       length p = d \<and> all_of_length d p \<and> \<not> share_le (lin_Sum lin s) target (energy_after s (length s)))"

lemma NumCols_all: "all_of_length d m \<Longrightarrow> m \<noteq> [] \<Longrightarrow> NumCols m = d"
  by (cases m) (auto simp: NumCols_def all_of_length_def)

lemma all_of_length_map: "(\<And>v. v \<in> set m \<Longrightarrow> length (f v) = d) \<Longrightarrow> all_of_length d (map f m)"
  by (auto simp: all_of_length_def)

lemma NumCols_resize_transpose:
  assumes "all_of_length d p" "length p = d" "0 < d" "0 < k"
  shows "NumCols (resize_rows k (transpose p)) = d"
proof -
  have "transpose p = map (\<lambda>i. map (\<lambda>j. p ! j ! i) [0..<length p]) [0..<d]"
    by (rule transpose_rectangle) (use assms in \<open>auto simp: all_of_length_def\<close>)
  then have "take k (transpose p) = map (\<lambda>j. p ! j ! 0) [0..<d] # tl (take k (transpose p))"
    using assms(2,3,4) by (cases d; cases k) (simp_all add: upt_conv_Cons del: upt_Suc)
  then have "resize_rows k (transpose p) = map (\<lambda>j. p ! j ! 0) [0..<d] # tl (take k (transpose p)) @
      replicate (k - length (transpose p)) (replicate (NumCols (transpose p)) 0)"
    unfolding resize_rows_def by (metis append_Cons)
  then show ?thesis by (simp add: NumCols_def)
qed

lemma EstPca_applies:
  assumes "decomposes lin target" "m \<noteq> []" "all_of_length d m" "0 < d"
  shows "\<exists>pca. EstPca lin m target = Ret pca \<and> (\<forall>t. pca = Some t \<longrightarrow> NumCols t = d)"
proof (cases "lin_ApproxEqual lin target 1 (1 / 1000)")
  case True
  then show ?thesis by (simp add: EstPca_def)
next
  case False
  have cols: "NumCols m = d" using NumCols_all assms(2,3) by blast
  show ?thesis
  proof (cases "if length m > NumCols m then lin_Eig lin (lin_covariance lin m) else lin_Svd lin (lin_covariance lin m)")
    case None
    then show ?thesis using False by (simp add: EstPca_def Let_def)
  next
    case (Some sp)
    obtain s p where sp: "lin_SortSvd lin sp = (s, p)" by fastforce
    have p: "length p = d" "all_of_length d p" "\<not> share_le (lin_Sum lin s) target (energy_after s (length s))"
      using assms(1,2,3) Some sp cols unfolding decomposes_def by metis+
    then have "\<exists>n \<le> length s. \<not> share_le (lin_Sum lin s) target (energy_after s n)" by blast
    then obtain dm where dm: "energy_loop (lin_Sum lin s) target 0 1 s = Ret dm" "0 < dm"
      using energy_loop_spec [of "lin_Sum lin s" target 0 1 s] by (auto simp: energy_after_def split: if_splits)
    then have "EstPca lin m target = Ret (Some (resize_rows dm (transpose p)))"
      using False Some sp by (simp add: EstPca_def Let_def)
    then show ?thesis using NumCols_resize_transpose [OF p(2,1) assms(4) dm(2)] by simp
  qed
qed

text \<open>
  Scoring \<open>n\<close> vectors, of a dimension that the whitening matrix takes, gives an \<open>n\<close> by \<open>n\<close> matrix that
  compares each with each under one model. (Scoring nothing reads an element that does not exist.)
\<close>

lemma ScorePlda_scores:
  assumes "keeps_dimensions lin" "decomposes lin target"
    and "whitening \<noteq> []" "all_of_length c whitening"
    and "ivectors \<noteq> []" "all_of_length d ivectors" "c = d \<or> c = d + 1"
  shows "\<exists>plda' ts. length ts = length ivectors \<and>
    ScorePlda lin pl plda whitening centering ivectors target =
      Ret (map (\<lambda>x. map (LogLikelihoodRatio pl plda' x) ts) ts)"
proof -
  define dim where "dim = length whitening"
  have "0 < dim" using assms(3) by (simp add: dim_def)
  have cols: "NumCols whitening = c" using NumCols_all assms(3,4) by blast
  define centred where "centred = IvectorSubtractGlobalMean lin centering ivectors"
  have centred: "length centred = length ivectors" "\<forall>v \<in> set centred. length v = d"
    using assms(1,6) by (auto simp: centred_def IvectorSubtractGlobalMean_def keeps_dimensions_def all_of_length_def)
  define g where "g v = (case TransformVec lin whitening v of Ret t \<Rightarrow> t | _ \<Rightarrow> [])" for v
  have g: "TransformVec lin whitening v = Ret (g v) \<and> length (g v) = dim" if "v \<in> set centred" for v
    using that centred(2) assms(1,7) cols
    by (auto simp: g_def TransformVec_def Let_def keeps_dimensions_def dim_def)
  have t: "otraverse (TransformVec lin whitening) centred = Ret (map g centred)"
    using g by (intro otraverse_Ret) blast
  define m where "m = IvectorNormalizeLength lin True True (map g centred)"
  have m: "length m = length ivectors" "m \<noteq> []" "all_of_length dim m"
    using assms(1,5) centred(1) g
    by (auto simp: m_def IvectorNormalizeLength_def normalize_length_def Let_def keeps_dimensions_def all_of_length_def)
  obtain pca where pca: "EstPca lin m target = Ret pca" "\<And>t. pca = Some t \<Longrightarrow> NumCols t = dim"
    using EstPca_applies [OF assms(2) m(2,3) \<open>0 < dim\<close>] by auto
  have "NumCols m = dim" by (rule NumCols_all [OF m(3,2)])
  define applied where "applied = (case pca of None \<Rightarrow> (plda, m)
    | Some t \<Rightarrow> (ApplyTransform pl t plda, lin_AddMatMat_trans lin m t))"
  have "ScorePlda lin pl plda whitening centering ivectors target =
      (let ts = TransformIvectors pl (fst applied) (snd applied)
       in Ret (map (\<lambda>x. map (LogLikelihoodRatio pl (fst applied) x) ts) ts))"
    using t pca \<open>NumCols m = dim\<close> m(2)
    by (simp add: ScorePlda_def centred_def [symmetric] m_def [symmetric] Let_def ApplyPca_def applied_def
        split: option.splits)
  moreover have "length (snd applied) = length ivectors"
    using m(1) assms(1) by (auto simp: applied_def keeps_dimensions_def split: option.splits)
  ultimately show ?thesis
    by (intro exI [of _ "fst applied"] exI [of _ "TransformIvectors pl (fst applied) (snd applied)"])
      (simp add: TransformIvectors_def Let_def)
qed

end
