(* ===== verification/Diarization.thy ===== *)
theory Diarization
  imports Segmentation_Correct Plda
begin

text \<open>
  The rest of \<open>src/diarization.h\<close> and \<open>src/diarization.cc\<close>: x-vectors of feature matrices and the
  assignment of speakers to the segments of \<open>SegmentByVad\<close>. A matrix is the list of its rows. Kaldi's
  numerics (the network, vector arithmetic, energy VAD, the PLDA model, clustering, the online feature
  extractor) are parameters, grouped in the records \<open>xvector_nnet\<close>, \<open>diarization_lib\<close> and
  \<open>online_features\<close>.
\<close>

type_synonym feature_matrix = matrix

section \<open>XvectorNnet::Compute\<close>

record xvector_nnet =
  RunNnetComputation :: "feature_matrix \<Rightarrow> xvector"
  AddVec :: "rat \<Rightarrow> xvector \<Rightarrow> xvector \<Rightarrow> xvector"
  Scale :: "rat \<Rightarrow> xvector \<Rightarrow> xvector"
  xvector_dim :: nat
  chunk_size :: int
  min_chunk_size :: int

text \<open>
  A chunk shorter than the minimum is copied into the middle of a zero matrix whose other rows are
  filled with copies of the first and of the last row of the chunk.
\<close>

definition pad_chunk :: "nat \<Rightarrow> feature_matrix \<Rightarrow> feature_matrix" where
  "pad_chunk min_rows sub_features =
     (let offset = length sub_features;
          left_context = (min_rows - offset) div 2;
          right_context = min_rows - offset - left_context;
          padded = replicate min_rows [];
          padded = foldl (\<lambda>m i. m[i := sub_features ! 0]) padded [0..<left_context];
          padded = foldl (\<lambda>m i. m[min_rows - i - 1 := sub_features ! (offset - 1)]) padded [0..<right_context]
      in foldl (\<lambda>m i. m[left_context + i := sub_features ! i]) padded [0..<offset])"

definition num_chunks :: "int \<Rightarrow> int \<Rightarrow> int outcome" where
  "num_chunks num_rows this_chunk_size =
     (if this_chunk_size = 0 then Fault Invalid_conversion
      else Ret \<lceil>f32 (f32 (of_int num_rows) / f32 (of_int this_chunk_size))\<rceil>)"

fun chunk_loop ::
    "xvector_nnet \<Rightarrow> feature_matrix \<Rightarrow> nat \<Rightarrow> nat list \<Rightarrow> xvector \<Rightarrow> rat \<Rightarrow> xvector \<times> rat" where
  "chunk_loop nnet features this_chunk_size [] xvector_avg tot_weight = (xvector_avg, tot_weight)"
| "chunk_loop nnet features this_chunk_size (chunk_indx # rest) xvector_avg tot_weight =
     (let offset = min this_chunk_size (length features - chunk_indx * this_chunk_size);
          sub_features = take offset (drop (chunk_indx * this_chunk_size) features);
          tot_weight = f32 (tot_weight + of_nat offset);
          xvector =
            (if int offset < min_chunk_size nnet
             then RunNnetComputation nnet (pad_chunk (nat (min_chunk_size nnet)) sub_features)
             else RunNnetComputation nnet sub_features)
      in chunk_loop nnet features this_chunk_size rest
           (AddVec nnet (of_nat offset) xvector xvector_avg) tot_weight)"

text \<open>
  The window and period arguments are not used. A total weight of zero (a negative chunk size other
  than -1) makes the scale infinite; here this is a division by zero.
\<close>

definition Compute :: "xvector_nnet \<Rightarrow> feature_matrix \<Rightarrow> xvector outcome" where
  "Compute nnet features =
     (let num_rows = int (length features);
          this_chunk_size =
            (if num_rows < chunk_size nnet \<or> chunk_size nnet = - 1 then num_rows else chunk_size nnet)
      in obind (num_chunks num_rows this_chunk_size) (\<lambda>n.
         let (xvector_avg, tot_weight) =
               chunk_loop nnet features (nat this_chunk_size) [0..<nat n]
                 (replicate (xvector_dim nnet) 0) 0
         in if tot_weight = 0 then Fault Division_by_zero
            else Ret (Scale nnet (f32 (f64 (1 / tot_weight))) xvector_avg)))"

section \<open>ComputeXvectorDiarization\<close>

record diarization_segment =
  spk_id :: int
  start_frame :: nat
  end_frame :: nat

record 'p diarization_lib =
  ComputeVadEnergy :: "feature_matrix \<Rightarrow> rat list"
  dia_linear :: linear_lib
  dia_plda :: "'p plda_lib"
  AgglomerativeCluster :: "rat list list \<Rightarrow> int \<Rightarrow> int \<Rightarrow> rat \<Rightarrow> int list"
  ApproxEqual :: approx

text \<open>The parts of \<open>XvectorDiarizationDecoderInfo\<close>; \<open>'p\<close> is Kaldi's PLDA model.\<close>

record 'p diarizer_info =
  info_nnet :: xvector_nnet
  info_plda :: 'p
  info_centering :: xvector
  info_whitening :: matrix

definition first_pass_max_utterances :: int where
  "first_pass_max_utterances = 2 ^ 15 - 1"

definition max_spk_fraction :: rat where
  "max_spk_fraction = 1"

text \<open>Scores are negated (\<open>Scale(-1)\<close>). \<open>1.0 / 0\<close> is infinite and takes the second branch.\<close>

definition ComputeXvectorDiarization ::
    "'p diarization_lib \<Rightarrow> 'p diarizer_info \<Rightarrow> bool outcome \<Rightarrow> feature_matrix \<Rightarrow> int \<Rightarrow>
     diarization_segment list outcome" where
  "ComputeXvectorDiarization lib info init feats num_speakers =
     (let voiced = ComputeVadEnergy lib feats in
      obind (SegmentByVad (ApproxEqual lib) init voiced default_silence_proportion) (\<lambda>segmentation.
      obind (otraverse (\<lambda>(s, e). Compute (info_nnet info) (take (e - s) (drop s feats))) segmentation) (\<lambda>xvectors.
        if length segmentation < 2 then
          (case segmentation of
             [] \<Rightarrow> Fault Index_out_of_bounds
           | (s, e) # _ \<Rightarrow> Ret [\<lparr>spk_id = 1, start_frame = s, end_frame = e\<rparr>])
        else
          obind (ScorePlda (dia_linear lib) (dia_plda lib) (info_plda info) (info_whitening info)
                   (info_centering info) xvectors default_target_energy) (\<lambda>plda_scores.
          let scores = map (map (\<lambda>x. - x)) plda_scores;
              spk_ids =
                (if num_speakers \<noteq> 0 \<and> f64 (1 / of_int num_speakers) \<le> max_spk_fraction \<and> max_spk_fraction \<le> 1
                 then AgglomerativeCluster lib scores num_speakers first_pass_max_utterances max_spk_fraction
                 else AgglomerativeCluster lib scores num_speakers first_pass_max_utterances 1)
          in otraverse (\<lambda>idx.
               omap (\<lambda>(s, e). \<lparr>spk_id = spk_ids ! idx, start_frame = s, end_frame = e\<rparr>)
                 (idx_vec segmentation idx)) [0..<length spk_ids]))))"

section \<open>XvectorDiarizationDecoder\<close>

record 'f online_features =
  feature_AcceptWaveform :: "rat \<Rightarrow> rat list \<Rightarrow> 'f \<Rightarrow> 'f"
  feature_InputFinished :: "'f \<Rightarrow> 'f"
  NumFramesReady :: "'f \<Rightarrow> nat"
  GetFrame :: "'f \<Rightarrow> nat \<Rightarrow> rat list"
  FrameShiftInSeconds :: "'f \<Rightarrow> rat"

definition diarizer_AcceptWaveform :: "'f online_features \<Rightarrow> rat \<Rightarrow> rat list \<Rightarrow> 'f \<Rightarrow> 'f" where
  "diarizer_AcceptWaveform of_lib sample_freq waveform f = feature_AcceptWaveform of_lib sample_freq waveform f"

definition diarizer_InputFinished :: "'f online_features \<Rightarrow> 'f \<Rightarrow> 'f" where
  "diarizer_InputFinished of_lib f = feature_InputFinished of_lib f"

definition all_frames :: "'f online_features \<Rightarrow> 'f \<Rightarrow> feature_matrix" where
  "all_frames of_lib f = map (GetFrame of_lib f) [0..<NumFramesReady of_lib f]"

definition diarizer_Compute ::
    "'p diarization_lib \<Rightarrow> 'p diarizer_info \<Rightarrow> bool outcome \<Rightarrow> 'f online_features \<Rightarrow> 'f \<Rightarrow> int \<Rightarrow>
     diarization_segment list outcome" where
  "diarizer_Compute lib info init of_lib f num_speakers =
     ComputeXvectorDiarization lib info init (all_frames of_lib f) num_speakers"

definition WaveformToMfcc :: "'f online_features \<Rightarrow> 'f \<Rightarrow> rat list \<Rightarrow> rat \<Rightarrow> feature_matrix" where
  "WaveformToMfcc of_lib fresh waveform sample_freq =
     all_frames of_lib (feature_InputFinished of_lib (feature_AcceptWaveform of_lib sample_freq waveform fresh))"

section \<open>The chunks\<close>

text \<open>The chunks of a list: pieces of \<open>c\<close> elements, the last one possibly shorter.\<close>

definition chunks :: "nat \<Rightarrow> nat \<Rightarrow> 'a list \<Rightarrow> 'a list list" where
  "chunks n c xs = map (\<lambda>i. take c (drop (i * c) xs)) [0..<n]"

lemma concat_chunks: "concat (chunks n c xs) = take (n * c) xs"
proof (induction n)
  case (Suc n)
  then show ?case by (simp add: chunks_def take_add add.commute [of c])
qed (simp add: chunks_def)

definition padded :: "int \<Rightarrow> 'a list \<Rightarrow> 'a list" where
  "padded min_rows chunk =
     (if int (length chunk) < min_rows then
        (let missing = nat min_rows - length chunk in
         replicate (missing div 2) (hd chunk) @ chunk @ replicate (missing - missing div 2) (last chunk))
      else chunk)"

lemma fill_upto: "k \<le> length m \<Longrightarrow> foldl (\<lambda>m i. m[i := x]) m [0..<k] = replicate k x @ drop k m"
  by (induction k) (simp_all add: list_update_append upd_conv_take_nth_drop Cons_nth_drop_Suc [symmetric]
      replicate_append_same flip: append_assoc)

lemma fill_downto:
  "k \<le> length m \<Longrightarrow>
   foldl (\<lambda>m' i. m'[length m - i - 1 := x]) m [0..<k] = take (length m - k) m @ replicate k x"
proof (induction k)
  case (Suc k)
  define j where "j = length m - Suc k"
  have j: "length m - k = Suc j" "j < length m" using Suc.prems by (auto simp: j_def)
  then have "(take (length m - k) m @ replicate k x)[j := x] = take j m @ replicate (Suc k) x"
    by (simp add: take_Suc_conv_app_nth list_update_append)
  then show ?case using Suc by (simp add: j_def)
qed simp

lemma fill_range:
  "n + k \<le> length m \<Longrightarrow> n \<le> length xs \<Longrightarrow>
   foldl (\<lambda>m' i. m'[k + i := xs ! i]) m [0..<n] = take k m @ take n xs @ drop (k + n) m"
proof (induction n)
  case (Suc n)
  then have "take n xs @ [xs ! n] = take (Suc n) xs" by (simp add: take_Suc_conv_app_nth)
  moreover have "drop (k + n) m = m ! (k + n) # drop (k + Suc n) m" using Suc.prems by (simp add: Cons_nth_drop_Suc)
  ultimately show ?case using Suc by (simp add: list_update_append)
qed simp

lemma pad_chunk_padded:
  assumes "sub \<noteq> []" "length sub < min_rows"
  shows "pad_chunk min_rows sub = padded (int min_rows) sub"
proof -
  let ?n = "length sub"
  let ?l = "(min_rows - ?n) div 2"
  let ?r = "min_rows - ?n - ?l"
  have le: "?l \<le> min_rows" "?r \<le> min_rows" "?l + ?n + ?r = min_rows" using assms by auto
  have "foldl (\<lambda>m i. m[i := sub ! 0]) (replicate min_rows []) [0..<?l] =
      replicate ?l (sub ! 0) @ replicate (min_rows - ?l) []" (is "_ = ?m")
    using le by (simp add: fill_upto)
  moreover have "foldl (\<lambda>m i. m[min_rows - i - 1 := sub ! (?n - 1)]) ?m [0..<?r] =
      take (min_rows - ?r) ?m @ replicate ?r (sub ! (?n - 1))" (is "_ = ?m'")
    using fill_downto [of ?r ?m "sub ! (?n - 1)"] le by simp
  moreover have "take (min_rows - ?r) ?m = replicate ?l (sub ! 0) @ replicate ?n []"
    using le by simp
  moreover have "foldl (\<lambda>m i. m[?l + i := sub ! i])
      (replicate ?l (sub ! 0) @ replicate ?n [] @ replicate ?r (sub ! (?n - 1))) [0..<?n] =
      replicate ?l (sub ! 0) @ sub @ replicate ?r (sub ! (?n - 1))"
    using fill_range [of ?n ?l "replicate ?l (sub ! 0) @ replicate ?n [] @ replicate ?r (sub ! (?n - 1))" sub]
    by simp
  ultimately show ?thesis
    using assms by (simp add: pad_chunk_def padded_def Let_def hd_conv_nth last_conv_nth)
qed

section \<open>Averaging x-vectors\<close>

text \<open>The specification of the loop: the weighted sum over the padded chunks.\<close>

definition weighted_sum :: "xvector_nnet \<Rightarrow> feature_matrix list \<Rightarrow> xvector" where
  "weighted_sum nnet cs =
     foldl (\<lambda>acc c. AddVec nnet (of_nat (length c)) (RunNnetComputation nnet (padded (min_chunk_size nnet) c)) acc)
       (replicate (xvector_dim nnet) 0) cs"

lemma chunk_loop_step:
  assumes "i * c < length features" "0 < c" "w + length (take c (drop (i * c) features)) < 2 ^ 24"
  shows "chunk_loop nnet features c (i # is) acc (of_nat w) =
    (let chunk = take c (drop (i * c) features) in
     chunk_loop nnet features c is
       (AddVec nnet (of_nat (length chunk)) (RunNnetComputation nnet (padded (min_chunk_size nnet) chunk)) acc)
       (of_nat (w + length chunk)))"
proof -
  let ?chunk = "take c (drop (i * c) features)"
  have chunk: "?chunk \<noteq> []" "take (min c (length features - i * c)) (drop (i * c) features) = ?chunk"
    "length ?chunk = min c (length features - i * c)"
    using assms(1,2) by (simp_all add: min_def)
  let ?o = "min c (length features - i * c)"
  have sum: "f32 (of_nat w + of_nat ?o) = of_nat (w + ?o)"
    using f32_of_int [of "int (w + ?o)"] assms(3) unfolding chunk(3) by simp
  have pad: "RunNnetComputation nnet (padded (min_chunk_size nnet) ?chunk) =
      (if int ?o < min_chunk_size nnet
       then RunNnetComputation nnet (pad_chunk (nat (min_chunk_size nnet)) ?chunk)
       else RunNnetComputation nnet ?chunk)"
  proof (cases "int ?o < min_chunk_size nnet")
    case True
    then have "length ?chunk < nat (min_chunk_size nnet)" "int (nat (min_chunk_size nnet)) = min_chunk_size nnet"
      unfolding chunk(3) by linarith+
    with pad_chunk_padded [OF chunk(1)] True show ?thesis by metis
  next
    case False
    then have "\<not> int (length ?chunk) < min_chunk_size nnet" unfolding chunk(3) .
    with False show ?thesis unfolding padded_def by (simp only: if_False)
  qed
  show ?thesis unfolding chunk_loop.simps Let_def chunk(2) sum pad chunk(3) ..
qed

lemma chunk_loop_sum:
  assumes "0 < c" "length features < 2 ^ 24" "n \<le> k" "k * c < length features + c"
  shows "chunk_loop nnet features c [n..<k] acc (of_nat (min (n * c) (length features))) =
    (foldl (\<lambda>acc chunk. AddVec nnet (of_nat (length chunk))
              (RunNnetComputation nnet (padded (min_chunk_size nnet) chunk)) acc)
       acc (map (\<lambda>i. take c (drop (i * c) features)) [n..<k]),
     of_nat (min (k * c) (length features)))"
  using assms(3,4)
proof (induction "k - n" arbitrary: n acc)
  case (Suc d)
  then have upt: "[n..<k] = n # [Suc n..<k]" by (simp add: upt_conv_Cons)
  have "Suc n * c \<le> k * c" using Suc.hyps(2) by (intro mult_le_mono1) simp
  then have n: "n * c < length features" using Suc.prems by simp
  let ?chunk = "take c (drop (n * c) features)"
  have len: "n * c + length ?chunk = min (Suc n * c) (length features)" using n by auto
  then have lt: "n * c + length ?chunk < 2 ^ 24" using assms(2) by simp
  have now: "min (n * c) (length features) = n * c" using n by simp
  let ?acc = "AddVec nnet (of_nat (length ?chunk)) (RunNnetComputation nnet (padded (min_chunk_size nnet) ?chunk)) acc"
  have "chunk_loop nnet features c [n..<k] acc (of_nat (n * c)) =
      chunk_loop nnet features c [Suc n..<k] ?acc (of_nat (min (Suc n * c) (length features)))"
    unfolding upt chunk_loop_step [OF n assms(1) lt] Let_def len ..
  also note Suc.hyps(1) [of "Suc n" ?acc]
  finally show ?case using Suc.hyps(2) Suc.prems unfolding now upt by simp
qed simp

definition this_chunk :: "xvector_nnet \<Rightarrow> feature_matrix \<Rightarrow> nat" where
  "this_chunk nnet features =
     (if int (length features) < chunk_size nnet \<or> chunk_size nnet = - 1
      then length features else nat (chunk_size nnet))"

definition chunk_count :: "nat \<Rightarrow> nat \<Rightarrow> nat" where
  "chunk_count len c = (len + c - 1) div c"

lemma chunk_count_bounds:
  assumes "0 < c" "0 < len"
  shows "len \<le> chunk_count len c * c" "chunk_count len c * c < len + c"
proof -
  have "(len + c - 1) mod c < c" using assms by simp
  moreover have "chunk_count len c * c + (len + c - 1) mod c = len + c - 1" by (simp add: chunk_count_def)
  ultimately show "len \<le> chunk_count len c * c" "chunk_count len c * c < len + c" using assms by linarith+
qed

lemma ceiling_count:
  assumes "0 < c" "0 < len"
  shows "\<lceil>of_nat len / of_nat c :: rat\<rceil> = int (chunk_count len c)"
proof (rule ceiling_unique)
  let ?k = "chunk_count len c"
  note bounds = chunk_count_bounds [OF assms]
  have "(of_nat (?k * c) :: rat) < of_nat (len + c)" using bounds(2) by (simp only: of_nat_less_iff)
  then show "of_int (int ?k) - 1 < (of_nat len / of_nat c :: rat)"
    using assms by (simp add: less_divide_eq algebra_simps)
  have "(of_nat len :: rat) \<le> of_nat (?k * c)" using bounds(1) by (simp only: of_nat_le_iff)
  then show "(of_nat len / of_nat c :: rat) \<le> of_int (int ?k)"
    using assms by (simp add: divide_le_eq)
qed

lemma num_chunks_count:
  assumes "0 < c" "c \<le> len" "len < 2 ^ 24"
  shows "num_chunks (int len) (int c) = Ret (int (chunk_count len c))"
proof -
  have "f32 (of_nat len) = of_nat len" "f32 (of_nat c) = of_nat c"
    using f32_of_int [of "int len"] f32_of_int [of "int c"] assms by simp_all
  then show ?thesis
    using ceiling_f32_quotient [of "int len" "int c"] ceiling_count [of c len] assms
    by (simp add: num_chunks_def)
qed

lemma Compute_average:
  assumes "features \<noteq> []" "length features < 2 ^ 24" "chunk_size nnet = - 1 \<or> 0 < chunk_size nnet"
  defines "c \<equiv> this_chunk nnet features"
  shows "Compute nnet features =
      Ret (Scale nnet (f32 (f64 (1 / of_nat (length features))))
            (weighted_sum nnet (chunks (chunk_count (length features) c) c features)))"
proof -
  have c: "0 < c" "c \<le> length features" using assms by (auto simp: this_chunk_def)
  let ?n = "chunk_count (length features) c"
  note bounds = chunk_count_bounds [OF c(1), of "length features"]
  have loop: "chunk_loop nnet features c [0..<?n] (replicate (xvector_dim nnet) 0) 0 =
      (weighted_sum nnet (chunks ?n c features), of_nat (length features))"
    using chunk_loop_sum [OF c(1) assms(2), of 0 ?n nnet "replicate (xvector_dim nnet) 0"] bounds assms(1)
    by (simp add: weighted_sum_def chunks_def min_absorb2)
  have used: "(if int (length features) < chunk_size nnet \<or> chunk_size nnet = - 1
      then int (length features) else chunk_size nnet) = int c"
    using assms(3) by (auto simp: c_def this_chunk_def)
  show ?thesis
    unfolding Compute_def Let_def used num_chunks_count [OF c assms(2)]
    using loop assms(1) by (simp add: Let_def)
qed


definition sum_nnet :: xvector_nnet where
  "sum_nnet = \<lparr>RunNnetComputation = (\<lambda>m. [sum_list (concat m)]), AddVec = (\<lambda>w x acc. map2 (\<lambda>a b. a + w * b) acc (x @ replicate (length acc) 0)),
     Scale = (\<lambda>s. map (\<lambda>x. s * x)), xvector_dim = 1, chunk_size = 2, min_chunk_size = 2\<rparr>"


section \<open>Speakers of segments\<close>

definition spoken :: "int list \<Rightarrow> (nat \<times> nat) list \<Rightarrow> diarization_segment list" where
  "spoken ids ivs = map2 (\<lambda>i (s, e). \<lparr>spk_id = i, start_frame = s, end_frame = e\<rparr>) ids ivs"

lemma otraverse_segments:
  "length ids = length ivs \<Longrightarrow>
   otraverse (\<lambda>idx. omap (\<lambda>(s, e). \<lparr>spk_id = ids ! idx, start_frame = s, end_frame = e\<rparr>) (idx_vec ivs idx))
     [0..<length ids] = Ret (spoken ids ivs)"
proof -
  assume len: "length ids = length ivs"
  have "otraverse (\<lambda>idx. omap (\<lambda>(s, e). \<lparr>spk_id = ids ! idx, start_frame = s, end_frame = e\<rparr>) (idx_vec ivs idx))
      [0..<length ids] =
      Ret (map (\<lambda>idx. (\<lambda>(s, e). \<lparr>spk_id = ids ! idx, start_frame = s, end_frame = e\<rparr>) (ivs ! idx)) [0..<length ids])"
    using len by (intro otraverse_Ret) (simp add: idx_vec_def)
  also have "map (\<lambda>idx. (\<lambda>(s, e). \<lparr>spk_id = ids ! idx, start_frame = s, end_frame = e\<rparr>) (ivs ! idx)) [0..<length ids] =
      spoken ids ivs"
    using len by (intro nth_equalityI) (simp_all add: spoken_def)
  finally show ?thesis .
qed

text \<open>What the libraries have to do: keep dimensions and give every row of scores one speaker.\<close>

definition nnet_dimensions :: "xvector_nnet \<Rightarrow> bool" where
  "nnet_dimensions nnet \<longleftrightarrow>
     (\<forall>w x acc. length (AddVec nnet w x acc) = length acc) \<and> (\<forall>a x. length (Scale nnet a x) = length x)"

definition whitens :: "'p diarizer_info \<Rightarrow> bool" where
  "whitens info \<longleftrightarrow> info_whitening info \<noteq> [] \<and>
     (\<exists>c. all_of_length c (info_whitening info) \<and>
        (c = xvector_dim (info_nnet info) \<or> c = xvector_dim (info_nnet info) + 1))"

definition scores_pairs :: "'p diarization_lib \<Rightarrow> 'p diarizer_info \<Rightarrow> bool" where
  "scores_pairs lib info \<longleftrightarrow> nnet_dimensions (info_nnet info) \<and> whitens info \<and>
     keeps_dimensions (dia_linear lib) \<and> decomposes (dia_linear lib) default_target_energy \<and>
     (\<forall>scores n m q. length (AgglomerativeCluster lib scores n m q) = length scores)"

lemma Compute_dimension:
  assumes "Compute nnet features = Ret x" "nnet_dimensions nnet"
  shows "length x = xvector_dim nnet"
proof -
  have loop: "length (fst (chunk_loop nnet features c is acc w)) = length acc" for c "is" acc w
    using assms(2) by (induction "is" arbitrary: acc w) (simp_all add: Let_def nnet_dimensions_def)
  obtain c ks a where "x = Scale nnet a (fst (chunk_loop nnet features c ks (replicate (xvector_dim nnet) 0) 0))"
    using assms(1) by (auto simp: Compute_def Let_def outcome_simps case_prod_beta split: if_splits)
  then show ?thesis using assms(2) loop by (simp add: nnet_dimensions_def)
qed

lemma pulled_back_Nil: "pulled_back us [] \<longleftrightarrow> us = []" "pulled_back [] us \<longleftrightarrow> us = []"
  by auto

lemma voiced_runs_Nil: "voiced_runs A = [] \<longleftrightarrow> (\<forall>v \<in> set A. v = 0)"
proof
  assume "voiced_runs A = []"
  then show "\<forall>v \<in> set A. v = 0" using voiced_runs_cover [of A] by (metis empty_iff in_set_conv_nth list.set(1))
next
  assume silent: "\<forall>v \<in> set A. v = 0"
  have "frames (voiced_runs A) = 0" using silent by (simp add: frames_voiced_runs filter_empty_conv)
  moreover have "0 < frames ivs" if "separated lo N ivs" "ivs \<noteq> []" for lo N ivs
    using that by (induction lo N ivs rule: separated.induct) (auto, metis frames_simps(1) add.right_neutral add_pos_pos diff_gt_0_iff_gt of_nat_less_iff)
  ultimately show "voiced_runs A = []" using voiced_runs_separated [of A] by (metis less_irrefl)
qed

lemma segments_computed:
  assumes "separated 0 (length feats) ivs" "length feats < 2 ^ 24" "chunk_size nnet = - 1 \<or> 0 < chunk_size nnet"
    and "nnet_dimensions nnet"
  shows "\<exists>xs. otraverse (\<lambda>(s, e). Compute nnet (take (e - s) (drop s feats))) ivs = Ret xs \<and>
      length xs = length ivs \<and> all_of_length (xvector_dim nnet) xs"
proof -
  have "\<exists>x. Compute nnet (take (e - s) (drop s feats)) = Ret x" if "(s, e) \<in> set ivs" for s e
  proof -
    have "s < e" "e \<le> length feats" using separated_bounds [OF assms(1) that] by auto
    then have "take (e - s) (drop s feats) \<noteq> []" "length (take (e - s) (drop s feats)) < 2 ^ 24"
      using assms(2) by simp_all
    then show ?thesis using Compute_average [OF _ _ assms(3)] by blast
  qed
  note each = this
  define f where "f = (\<lambda>(s, e). Compute nnet (take (e - s) (drop s feats)))"
  define g where "g iv = (case f iv of Ret x \<Rightarrow> x | _ \<Rightarrow> [])" for iv
  have f: "f iv = Ret (g iv)" if "iv \<in> set ivs" for iv
    using each [of "fst iv" "snd iv"] that by (auto simp: g_def f_def split: prod.split)
  from otraverse_Ret [OF f] have "otraverse f ivs = Ret (map g ivs)" .
  moreover have "all_of_length (xvector_dim nnet) (map g ivs)"
    using f Compute_dimension [OF _ assms(4)] by (intro all_of_length_map) (auto simp: f_def split: prod.splits)
  ultimately show ?thesis unfolding f_def by (intro exI [where x = "map g ivs"]) simp
qed

lemma diarization_run:
  fixes feats :: feature_matrix and lib :: "'p diarization_lib"
  defines "voiced \<equiv> ComputeVadEnergy lib feats"
  assumes "approx_ok (ApproxEqual lib)" "scores_pairs lib info"
    and "feats \<noteq> []" "length voiced = length feats" "length feats < 2 ^ 24" "frames_known init voiced"
    and "target_frames (voiced_frames voiced) default_silence_proportion = Ret t"
    and "chunk_size (info_nnet info) = - 1 \<or> 0 < chunk_size (info_nnet info)"
  shows "if \<forall>v \<in> set voiced. v = 0
     then ComputeXvectorDiarization lib info init feats num_speakers = Fault Index_out_of_bounds
     else \<exists>ids ivs. SegmentByVad (ApproxEqual lib) init voiced default_silence_proportion = Ret ivs \<and>
       ivs \<noteq> [] \<and> length ids = length ivs \<and> (length ivs = 1 \<longrightarrow> ids = [1]) \<and>
       ComputeXvectorDiarization lib info init feats num_speakers = Ret (spoken ids ivs)"
proof -
  note contract = assms(3) [unfolded scores_pairs_def]
  have "voiced \<noteq> []" using assms(4,5) by auto
  then obtain ivs where ivs: "SegmentByVad (ApproxEqual lib) init voiced default_silence_proportion = Ret ivs"
    "separated 0 (length feats) ivs" "pulled_back (voiced_runs voiced) ivs"
    using SegmentByVad_run [OF assms(2) _ assms(7,8)] assms(5) by metis
  obtain xs where xs: "otraverse (\<lambda>(s, e). Compute (info_nnet info) (take (e - s) (drop s feats))) ivs = Ret xs"
    "length xs = length ivs" "all_of_length (xvector_dim (info_nnet info)) xs"
    using segments_computed [OF ivs(2) assms(6,9)] contract by blast
  have silent: "ivs = [] \<longleftrightarrow> (\<forall>v \<in> set voiced. v = 0)"
    using ivs(3) voiced_runs_Nil by (metis pulled_back_Nil)
  have few: "ComputeXvectorDiarization lib info init feats num_speakers =
      (case ivs of [] \<Rightarrow> Fault Index_out_of_bounds
       | (s, e) # _ \<Rightarrow> Ret [\<lparr>spk_id = 1, start_frame = s, end_frame = e\<rparr>])" if "length ivs < 2"
    unfolding ComputeXvectorDiarization_def Let_def voiced_def [symmetric] ivs(1)
    using that by (simp only: obind.simps xs(1) if_True)
  consider "ivs = []" | s e where "ivs = [(s, e)]" | "2 \<le> length ivs"
    by (cases ivs; cases "tl ivs") auto
  then show ?thesis
  proof cases
    case 1
    then show ?thesis using silent few by simp
  next
    case (2 s e)
    then have "ComputeXvectorDiarization lib info init feats num_speakers = Ret (spoken [1] ivs)"
      using few by (simp add: spoken_def)
    then show ?thesis using 2 silent ivs(1) by (metis length_Cons list.distinct(1) list.size(3) One_nat_def)
  next
    case 3
    then have "xs \<noteq> []" "ivs \<noteq> []" "length ivs \<noteq> 1" using xs(2) by auto
    obtain c where c: "info_whitening info \<noteq> []" "all_of_length c (info_whitening info)"
      "c = xvector_dim (info_nnet info) \<or> c = xvector_dim (info_nnet info) + 1"
      using contract unfolding whitens_def by blast
    obtain scores where scores: "ScorePlda (dia_linear lib) (dia_plda lib) (info_plda info) (info_whitening info)
        (info_centering info) xs default_target_energy = Ret scores" "length scores = length xs"
      using ScorePlda_scores [OF _ _ c(1,2) \<open>xs \<noteq> []\<close> xs(3) c(3)] contract by (metis length_map)
    obtain ids where ids: "length ids = length ivs" "ComputeXvectorDiarization lib info init feats num_speakers =
        otraverse (\<lambda>idx. omap (\<lambda>(s, e). \<lparr>spk_id = ids ! idx, start_frame = s, end_frame = e\<rparr>)
          (idx_vec ivs idx)) [0..<length ids]"
    proof
      let ?scores = "map (map (\<lambda>x. - x)) scores"
      let ?ids = "if num_speakers \<noteq> 0 \<and> f64 (1 / of_int num_speakers) \<le> max_spk_fraction \<and> max_spk_fraction \<le> 1
        then AgglomerativeCluster lib ?scores num_speakers first_pass_max_utterances max_spk_fraction
        else AgglomerativeCluster lib ?scores num_speakers first_pass_max_utterances 1"
      show "length ?ids = length ivs" using contract xs(2) scores(2) by simp
      have many: "\<not> length ivs < 2" using 3 by simp
      show "ComputeXvectorDiarization lib info init feats num_speakers =
          otraverse (\<lambda>idx. omap (\<lambda>(s, e). \<lparr>spk_id = ?ids ! idx, start_frame = s, end_frame = e\<rparr>)
            (idx_vec ivs idx)) [0..<length ?ids]"
        unfolding ComputeXvectorDiarization_def Let_def voiced_def [symmetric] ivs(1) obind.simps xs(1)
          if_not_P [OF many] scores(1) ..
    qed
    have "ComputeXvectorDiarization lib info init feats num_speakers = Ret (spoken ids ivs)"
      unfolding ids(2) by (rule otraverse_segments [OF ids(1)])
    with ids(1) show ?thesis using ivs(1) silent \<open>ivs \<noteq> []\<close> \<open>length ivs \<noteq> 1\<close> by auto
  qed
qed


text \<open>Libraries in exact arithmetic that keep the contracts.\<close>

definition unit_vectors :: "matrix \<Rightarrow> (xvector \<times> matrix) option" where
  "unit_vectors m = (let d = NumCols m in Some ([1], map (\<lambda>i. (replicate d 0)[i := 1]) [0..<d]))"

definition toy_linear :: linear_lib where
  "toy_linear = exact_lin\<lparr>lin_AddVec := \<lambda>a v w. map2 (\<lambda>x y. y + a * x) (v @ replicate (length w) 0) w,
     lin_AddMatVec := \<lambda>alpha m v beta y. map2 (\<lambda>r b. alpha * dot r v + beta * b) (m @ replicate (length y) []) y,
     lin_Eig := unit_vectors, lin_Svd := unit_vectors\<rparr>"

definition toy_lib :: "unit diarization_lib" where
  "toy_lib = \<lparr>ComputeVadEnergy = map (\<lambda>row. if 0 < sum_list row then 1 else 0), dia_linear = toy_linear,
     dia_plda = \<lparr>plda_Dim = \<lambda>_. 1, TransformIvector = \<lambda>_ v. v, ApplyTransform = \<lambda>_ p. p,
       LogLikelihoodRatio = \<lambda>_ u v. dot u v\<rparr>,
     AgglomerativeCluster = (\<lambda>scores n m q. map (\<lambda>row. if 2 < hd row then 1 else 2) scores),
     ApproxEqual = (=)\<rparr>"

definition toy_info :: "unit diarizer_info" where
  "toy_info = \<lparr>info_nnet = sum_nnet, info_plda = (), info_centering = [0], info_whitening = [[1, 0]]\<rparr>"

lemma toy_scores: "scores_pairs toy_lib toy_info"
proof -
  have f: "f32 1 = 1" "f32 (9 / 10) < 1" by code_simp+
  have "keeps_dimensions toy_linear"
    by (simp add: keeps_dimensions_def toy_linear_def exact_lin_def)
  moreover have "decomposes toy_linear default_target_energy"
    using f by (auto simp: decomposes_def toy_linear_def exact_lin_def unit_vectors_def Let_def NumCols_all
        all_of_length_def share_le_def energy_after_def default_target_energy_def)
  moreover have "nnet_dimensions sum_nnet" by (simp add: nnet_dimensions_def sum_nnet_def)
  moreover have "whitens toy_info" by (simp add: whitens_def toy_info_def all_of_length_def sum_nnet_def)
  ultimately show ?thesis by (simp add: scores_pairs_def toy_lib_def toy_info_def)
qed


end
