(* ===== verification/Vad.thy ===== *)
theory Vad
  imports Float_Rounding
begin

text \<open>
  \<open>src/vad.h\<close> and \<open>src/vad.cc\<close>: the wrapper of the WebRTC voice activity detector and the detector of
  speech in a chunk of samples. The WebRTC library is the parameter record \<open>webrtc\<close>: a detector is a
  value of the type \<open>'v\<close>, and every call that changes it returns the new one with its return code.
  \<open>WebRtcVad_ValidRateAndFrameLength\<close>, which decides what the constructor accepts, is written out.
\<close>

record 'v webrtc =
  webrtc_Create :: 'v
  webrtc_Init :: "'v \<Rightarrow> 'v \<times> int"
  webrtc_set_mode :: "int \<Rightarrow> 'v \<Rightarrow> 'v \<times> int"
  webrtc_Process :: "int \<Rightarrow> int list \<Rightarrow> 'v \<Rightarrow> 'v \<times> int"

definition kValidRates :: "int list" where
  "kValidRates = [8000, 16000, 32000, 48000]"

definition WebRtcVad_ValidRateAndFrameLength :: "int \<Rightarrow> int \<Rightarrow> int" where
  "WebRtcVad_ValidRateAndFrameLength rate frame_length =
     (if list_ex (\<lambda>valid_rate. valid_rate = rate \<and>
           list_ex (\<lambda>valid_length_ms. frame_length = cdiv valid_rate 1000 * valid_length_ms) [10, 20, 30])
         kValidRates
      then 0 else - 1)"

section \<open>VoiceActivityDetector\<close>

datatype voice_activity = kError | kActiveVoice | kNonActiveVoice

definition voice_Init :: "'v webrtc \<Rightarrow> 'v \<Rightarrow> 'v \<times> bool" where
  "voice_Init lib v = (let (v', r) = webrtc_Init lib v in (v', r \<noteq> 0))"

definition set_mode :: "'v webrtc \<Rightarrow> int \<Rightarrow> 'v \<Rightarrow> 'v \<times> bool" where
  "set_mode lib mode v = (let (v', r) = webrtc_set_mode lib mode v in (v', r = 0))"

definition VoiceActivityDetector :: "'v webrtc \<Rightarrow> int \<Rightarrow> 'v" where
  "VoiceActivityDetector lib mode = fst (set_mode lib mode (fst (voice_Init lib (webrtc_Create lib))))"

definition voice_Process :: "'v webrtc \<Rightarrow> int \<Rightarrow> int list \<Rightarrow> 'v \<Rightarrow> 'v \<times> voice_activity" where
  "voice_Process lib fs audio_frame v =
     (let (v', r) = webrtc_Process lib fs audio_frame v in
      (v', if r = 1 then kActiveVoice else if r = 0 then kNonActiveVoice else kError))"

definition ValidRateAndFrameLength :: "int \<Rightarrow> int \<Rightarrow> bool" where
  "ValidRateAndFrameLength rate frame_length = (WebRtcVad_ValidRateAndFrameLength rate frame_length = 0)"

section \<open>Vad\<close>

record 'v vad =
  vad_sample_rate :: int
  frame_len_samples :: int
  vad_detector :: 'v

definition Vad :: "'v webrtc \<Rightarrow> int \<Rightarrow> int \<Rightarrow> 'v vad outcome" where
  "Vad lib rate frame_len_ms =
     (if \<not> int32_range (frame_len_ms * rate) then Fault Signed_overflow
      else
        let samples = cdiv (frame_len_ms * rate) 1000; detector = VoiceActivityDetector lib 1 in
        if \<not> ValidRateAndFrameLength rate samples then Throw (Runtime_error ''Invalid rate and frame length'')
        else Ret \<lparr>vad_sample_rate = rate, frame_len_samples = samples, vad_detector = detector\<rparr>)"

definition NumSamplesPerFrame :: "'v vad \<Rightarrow> int" where
  "NumSamplesPerFrame x = frame_len_samples x"

fun detect_frames :: "'v webrtc \<Rightarrow> int \<Rightarrow> nat \<Rightarrow> int list \<Rightarrow> nat \<Rightarrow> 'v \<Rightarrow> 'v \<times> bool list" where
  "detect_frames lib rate len samples 0 v = (v, [])"
| "detect_frames lib rate len samples (Suc n) v =
     (let (v1, voice_activity) = voice_Process lib rate (take len samples) v;
          (v2, decisions) = detect_frames lib rate len (drop len samples) n v1
      in (v2, (voice_activity = kActiveVoice) # decisions))"

text \<open>
  The vector of decisions is created with \<open>n_frames\<close> elements, all false, and the decisions are
  pushed behind them.
\<close>

definition DetectSpeech :: "'v webrtc \<Rightarrow> int list \<Rightarrow> 'v vad \<Rightarrow> ('v vad \<times> bool list) outcome" where
  "DetectSpeech lib samples x =
     (if frame_len_samples x = 0 then Fault Division_by_zero
      else
        let len = nat (frame_len_samples x); n_frames = length samples div len;
            (v, decisions) = detect_frames lib (vad_sample_rate x) len samples n_frames (vad_detector x)
        in Ret (x\<lparr>vad_detector := v\<rparr>, replicate n_frames False @ decisions))"

definition HasSpeech :: "'v webrtc \<Rightarrow> int list \<Rightarrow> 'v vad \<Rightarrow> ('v vad \<times> bool) outcome" where
  "HasSpeech lib samples x =
     (if length samples < nat (frame_len_samples x) then Ret (x, True)
      else omap (\<lambda>(x', decisions). (x', 0 < length (filter id decisions))) (DetectSpeech lib samples x))"

text \<open>The address of the first element of an empty vector is undefined.\<close>

definition HasSpeech_vector :: "'v webrtc \<Rightarrow> int list \<Rightarrow> 'v vad \<Rightarrow> ('v vad \<times> bool) outcome" where
  "HasSpeech_vector lib samples x =
     (if samples = [] then Fault Index_out_of_bounds else HasSpeech lib samples x)"

definition to_int16 :: "rat \<Rightarrow> int outcome" where
  "to_int16 s =
     (let t = trunc s in
      if - (2 ^ 15) \<le> t \<and> t < 2 ^ 15 then Ret t else Fault Invalid_conversion)"

definition HasSpeech_waveform :: "'v webrtc \<Rightarrow> rat list \<Rightarrow> 'v vad \<Rightarrow> ('v vad \<times> bool) outcome" where
  "HasSpeech_waveform lib waveform x =
     obind (otraverse to_int16 waveform) (\<lambda>samples. HasSpeech_vector lib samples x)"

section \<open>What the constructor accepts\<close>

lemma ValidRateAndFrameLength_iff:
  "ValidRateAndFrameLength rate samples \<longleftrightarrow>
     rate \<in> {8000, 16000, 32000, 48000} \<and> (\<exists>ms \<in> {10, 20, 30}. samples = rate div 1000 * ms)"
proof -
  have "cdiv 8000 1000 = 8" "cdiv 16000 1000 = 16" "cdiv 32000 1000 = 32" "cdiv 48000 1000 = 48"
    by (simp_all add: cdiv_nonneg)
  then show ?thesis
    by (auto simp: ValidRateAndFrameLength_def WebRtcVad_ValidRateAndFrameLength_def kValidRates_def)
qed

lemma frame_samples:
  assumes "rate \<in> {8000, 16000, 32000, 48000}"
  shows "cdiv (ms * rate) 1000 = ms * (rate div 1000)"
proof -
  have "ms * rate = ms * (rate div 1000) * 1000" using assms by auto
  then have "cdiv (ms * rate) 1000 = cdiv (ms * (rate div 1000) * 1000) 1000" by (rule arg_cong)
  moreover have "cdiv (k * 1000) 1000 = k" for k :: int
    by (simp add: cdiv_def sgn_mult abs_mult sgn_mult_abs)
  ultimately show ?thesis by simp
qed

text \<open>
  A \<open>Vad\<close> is constructed exactly for the sample rates 8, 16, 32 and 48 kHz and frames of 10, 20 and
  30 milliseconds, not for the 50 milliseconds that its comment names; every other arguments whose
  product fits an \<open>int\<close> throw.
\<close>

theorem Vad_accepts_iff:
  assumes "int32_range (frame_len_ms * rate)"
  shows "if rate \<in> {8000, 16000, 32000, 48000} \<and> frame_len_ms \<in> {10, 20, 30}
     then \<exists>x. Vad lib rate frame_len_ms = Ret x \<and> vad_sample_rate x = rate \<and>
        1000 * NumSamplesPerFrame x = frame_len_ms * rate \<and> 0 < NumSamplesPerFrame x
     else Vad lib rate frame_len_ms = Throw (Runtime_error ''Invalid rate and frame length'')"
proof (cases "rate \<in> {8000, 16000, 32000, 48000}")
  case True
  have "ValidRateAndFrameLength rate (cdiv (frame_len_ms * rate) 1000) \<longleftrightarrow> frame_len_ms \<in> {10, 20, 30}"
    unfolding frame_samples [OF True] ValidRateAndFrameLength_iff using True by auto
  then show ?thesis using assms True
    by (auto simp: Vad_def frame_samples [OF True] NumSamplesPerFrame_def Let_def)
next
  case False
  then show ?thesis using assms by (simp add: Vad_def ValidRateAndFrameLength_iff Let_def)
qed

definition loudness_lib :: "int webrtc" where
  "loudness_lib = \<lparr>webrtc_Create = 0, webrtc_Init = \<lambda>v. (v, 0), webrtc_set_mode = \<lambda>m v. (m, 0),
     webrtc_Process = \<lambda>fs frame v. (v, if list_ex (\<lambda>s. 100 < s) frame then 1 else 0)\<rparr>"

theorem Vad_accepts_iff_witness:
  "Vad loudness_lib 16000 50 = Throw (Runtime_error ''Invalid rate and frame length'') \<and>
   (\<exists>x. Vad loudness_lib 16000 30 = Ret x \<and> NumSamplesPerFrame x = 480)"
  using Vad_accepts_iff [where lib = loudness_lib and rate = 16000 and frame_len_ms = 50]
    Vad_accepts_iff [where lib = loudness_lib and rate = 16000 and frame_len_ms = 30]
  by (auto simp: int32_range_def)

section \<open>What counts as speech\<close>

text \<open>The states of the detector before each frame, and the decision for frame \<open>k\<close>.\<close>

definition frame :: "nat \<Rightarrow> int list \<Rightarrow> nat \<Rightarrow> int list" where
  "frame len samples k = take len (drop (k * len) samples)"

fun after_frames :: "'v webrtc \<Rightarrow> int \<Rightarrow> nat \<Rightarrow> int list \<Rightarrow> 'v \<Rightarrow> nat \<Rightarrow> 'v" where
  "after_frames lib rate len samples v 0 = v"
| "after_frames lib rate len samples v (Suc k) =
     fst (webrtc_Process lib rate (frame len samples k) (after_frames lib rate len samples v k))"

lemma after_frames_shift:
  "after_frames lib rate len (drop len samples) (fst (webrtc_Process lib rate (take len samples) v)) k =
   after_frames lib rate len samples v (Suc k)"
  by (induction k) (simp_all add: frame_def add.commute)

lemma detect_frames_spec:
  "detect_frames lib rate len samples n v =
     (after_frames lib rate len samples v n,
      map (\<lambda>k. snd (webrtc_Process lib rate (frame len samples k) (after_frames lib rate len samples v k)) = 1)
        [0..<n])"
proof (induction n arbitrary: samples v)
  case (Suc n)
  obtain v1 r where r: "webrtc_Process lib rate (take len samples) v = (v1, r)" by force
  have "map f [0..<Suc n] = f 0 # map (\<lambda>k. f (Suc k)) [0..<n]" for f :: "nat \<Rightarrow> bool"
    by (simp add: upt_conv_Cons map_Suc_upt [symmetric] comp_def del: upt_Suc)
  then show ?case
    using after_frames_shift [of lib rate len samples v]
    by (simp add: Suc.IH voice_Process_def r frame_def add.commute del: upt_Suc after_frames.simps(2))
qed simp

text \<open>
  A chunk has speech when it is shorter than one frame, or when the detector, run over its full
  frames in order, answers 1 for one of them; the samples behind the last full frame are not looked
  at, and the detector keeps its state for the next chunk.
\<close>

theorem HasSpeech_iff:
  fixes lib :: "'v webrtc" and x :: "'v vad" and samples :: "int list"
  assumes "0 < frame_len_samples x"
  defines "len \<equiv> nat (frame_len_samples x)"
  defines "state \<equiv> after_frames lib (vad_sample_rate x) len samples (vad_detector x)"
  shows "HasSpeech lib samples x =
     (if length samples < len then Ret (x, True)
      else Ret (x\<lparr>vad_detector := state (length samples div len)\<rparr>,
        \<exists>k < length samples div len.
          snd (webrtc_Process lib (vad_sample_rate x) (frame len samples k) (state k)) = 1))"
  using assms(1)
  by (auto simp: HasSpeech_def DetectSpeech_def Let_def detect_frames_spec len_def state_def filter_empty_conv)

theorem HasSpeech_iff_witness:
  "HasSpeech loudness_lib [1, 200, 3, 4, 5] \<lparr>vad_sample_rate = 8000, frame_len_samples = 2, vad_detector = 0\<rparr> =
     Ret (\<lparr>vad_sample_rate = 8000, frame_len_samples = 2, vad_detector = 0\<rparr>, True)"
proof -
  let ?x = "\<lparr>vad_sample_rate = 8000, frame_len_samples = 2, vad_detector = 0 :: int\<rparr>"
  have "after_frames loudness_lib r n xs v k = v" for r n xs v k
    by (induction k) (simp_all add: loudness_lib_def)
  moreover have "snd (webrtc_Process loudness_lib 8000 (frame 2 [1, 200, 3, 4, 5] 0) 0) = 1"
    by (simp add: loudness_lib_def frame_def)
  moreover have "fst (webrtc_Process loudness_lib r f v) = v" for r f v by (simp add: loudness_lib_def)
  ultimately show ?thesis
    using HasSpeech_iff [where lib = loudness_lib and samples = "[1, 200, 3, 4, 5]" and x = ?x] by auto
qed

end
