(* ===== verification/Options.thy ===== *)
theory Options
  imports Prelude
begin

text \<open>
  The configuration structs of the program and their \<open>Register\<close> methods. \<open>Register\<close> binds option names
  to fields; here it is the table of these bindings, each with the name, the field's value and the
  update of the field. A \<open>ParseOptions\<close> object made with a prefix (in Kaldi) registers \<open>prefix.name\<close>
  with its parent. The tables of Kaldi's own config structs are parameters.
\<close>

datatype opt_value = Str_value string | Int_value int | Bool_value bool

fun same_kind :: "opt_value \<Rightarrow> opt_value \<Rightarrow> bool" where
  "same_kind (Str_value _) (Str_value _) = True"
| "same_kind (Int_value _) (Int_value _) = True"
| "same_kind (Bool_value _) (Bool_value _) = True"
| "same_kind _ _ = False"

record 'c opt =
  opt_name :: string
  opt_get :: "'c \<Rightarrow> opt_value"
  opt_set :: "opt_value \<Rightarrow> 'c \<Rightarrow> 'c option"

definition str_opt :: "string \<Rightarrow> ('c \<Rightarrow> string) \<Rightarrow> ((string \<Rightarrow> string) \<Rightarrow> 'c \<Rightarrow> 'c) \<Rightarrow> 'c opt" where
  "str_opt name get upd = \<lparr>opt_name = name, opt_get = (\<lambda>c. Str_value (get c)),
     opt_set = (\<lambda>v c. case v of Str_value x \<Rightarrow> Some (upd (\<lambda>_. x) c) | _ \<Rightarrow> None)\<rparr>"

definition int_opt :: "string \<Rightarrow> ('c \<Rightarrow> int) \<Rightarrow> ((int \<Rightarrow> int) \<Rightarrow> 'c \<Rightarrow> 'c) \<Rightarrow> 'c opt" where
  "int_opt name get upd = \<lparr>opt_name = name, opt_get = (\<lambda>c. Int_value (get c)),
     opt_set = (\<lambda>v c. case v of Int_value x \<Rightarrow> Some (upd (\<lambda>_. x) c) | _ \<Rightarrow> None)\<rparr>"

definition bool_opt :: "string \<Rightarrow> ('c \<Rightarrow> bool) \<Rightarrow> ((bool \<Rightarrow> bool) \<Rightarrow> 'c \<Rightarrow> 'c) \<Rightarrow> 'c opt" where
  "bool_opt name get upd = \<lparr>opt_name = name, opt_get = (\<lambda>c. Bool_value (get c)),
     opt_set = (\<lambda>v c. case v of Bool_value x \<Rightarrow> Some (upd (\<lambda>_. x) c) | _ \<Rightarrow> None)\<rparr>"

text \<open>The options of a struct that is a field of another.\<close>

definition field_opt :: "('c \<Rightarrow> 'd) \<Rightarrow> (('d \<Rightarrow> 'd) \<Rightarrow> 'c \<Rightarrow> 'c) \<Rightarrow> 'd opt \<Rightarrow> 'c opt" where
  "field_opt get upd opt = \<lparr>opt_name = opt_name opt, opt_get = (\<lambda>c. opt_get opt (get c)),
     opt_set = (\<lambda>v c. map_option (\<lambda>d. upd (\<lambda>_. d) c) (opt_set opt v (get c)))\<rparr>"

text \<open>\<open>ParseOptions{prefix, opts}\<close>\<close>

definition prefixed :: "string \<Rightarrow> 'c opt list \<Rightarrow> 'c opt list" where
  "prefixed prefix = map (\<lambda>opt. opt\<lparr>opt_name := prefix @ ''.'' @ opt_name opt\<rparr>)"

named_theorems opt_defs \<open>option tables and their entries\<close>

lemmas [opt_defs] = str_opt_def int_opt_def bool_opt_def field_opt_def prefixed_def

section \<open>Configuration structs\<close>

record word_piece_config =
  vocab_filename :: string
  unk_token_opt :: string
  max_input_chars_opt :: int

definition WordPiece_Register :: "word_piece_config opt list" where
  [opt_defs]: "WordPiece_Register =
     [str_opt ''vocab'' vocab_filename vocab_filename_update,
      str_opt ''unk-token'' unk_token_opt unk_token_opt_update,
      int_opt ''max-input-chars-per-word'' max_input_chars_opt max_input_chars_opt_update]"

definition word_piece_defaults :: word_piece_config where
  "word_piece_defaults = \<lparr>vocab_filename = [], unk_token_opt = ''[UNK]'', max_input_chars_opt = 100\<rparr>"

record punctuator_config =
  pytorch_jit_model_filename :: string
  cls_token_id_opt :: int
  sep_token_id_opt :: int
  word_piece_opts :: word_piece_config

definition Punctuator_Register :: "punctuator_config opt list" where
  [opt_defs]: "Punctuator_Register =
     [str_opt ''pytorch-jit-model'' pytorch_jit_model_filename pytorch_jit_model_filename_update,
      int_opt ''cls-token-id'' cls_token_id_opt cls_token_id_opt_update,
      int_opt ''sep-token-id'' sep_token_id_opt sep_token_id_opt_update]
     @ prefixed ''word-piece'' (map (field_opt word_piece_opts word_piece_opts_update) WordPiece_Register)"

definition punctuator_defaults :: punctuator_config where
  "punctuator_defaults = \<lparr>pytorch_jit_model_filename = [], cls_token_id_opt = 2, sep_token_id_opt = 0,
     word_piece_opts = word_piece_defaults\<rparr>"

record formatter_config =
  rewrite_fst_filename :: string
  ignored_string :: string

definition Formatter_Register :: "formatter_config opt list" where
  [opt_defs]: "Formatter_Register =
     [str_opt ''lexicon-fst'' ignored_string ignored_string_update,
      str_opt ''rewrite-fst'' rewrite_fst_filename rewrite_fst_filename_update]"

definition formatter_defaults :: formatter_config where
  "formatter_defaults = \<lparr>rewrite_fst_filename = [], ignored_string = []\<rparr>"

record look_ahead_config =
  relabel_pairs_filename :: string
  look_ahead_fst_filename :: string

definition LookAhead_Register :: "look_ahead_config opt list" where
  [opt_defs]: "LookAhead_Register =
     [str_opt ''relabel-pairs'' relabel_pairs_filename relabel_pairs_filename_update,
      str_opt ''fst'' look_ahead_fst_filename look_ahead_fst_filename_update]"

text \<open>\<open>'k\<close> is the value of Kaldi's own option structs inside a struct, with its table.\<close>

record 'k xvector_options =
  nnet_rxfilename :: string
  extract_config_rxfilename :: string
  chunk_size_opt :: int
  min_chunk_size_opt :: int
  xvector_kaldi :: 'k

definition Xvector_Register :: "'k opt list \<Rightarrow> 'k xvector_options opt list" where
  [opt_defs]: "Xvector_Register kaldi =
     [str_opt ''nnet-rxfilename'' nnet_rxfilename nnet_rxfilename_update,
      str_opt ''extract-config-rxfilename'' extract_config_rxfilename extract_config_rxfilename_update,
      int_opt ''chunk-size'' chunk_size_opt chunk_size_opt_update,
      int_opt ''min-chunk-size'' min_chunk_size_opt min_chunk_size_opt_update]
     @ map (field_opt xvector_kaldi xvector_kaldi_update) kaldi"

record 'k diarization_options =
  vad_opts :: 'k
  mfcc_opts :: 'k
  xvector_nnet_opts :: "'k xvector_options"
  plda_opts :: 'k
  plda_filename :: string
  centering_vector_filename :: string
  whitening_matrix_filename :: string

definition Diarization_Register ::
    "'k opt list \<Rightarrow> 'k opt list \<Rightarrow> 'k opt list \<Rightarrow> 'k opt list \<Rightarrow> 'k diarization_options opt list" where
  [opt_defs]: "Diarization_Register vad mfcc nnet plda =
     prefixed ''vad'' (map (field_opt vad_opts vad_opts_update) vad)
     @ prefixed ''mfcc'' (map (field_opt mfcc_opts mfcc_opts_update) mfcc)
     @ prefixed ''xvector'' (map (field_opt xvector_nnet_opts xvector_nnet_opts_update) (Xvector_Register nnet))
     @ prefixed ''plda'' (map (field_opt plda_opts plda_opts_update) plda)
     @ [str_opt ''plda'' plda_filename plda_filename_update,
        str_opt ''centering-vector'' centering_vector_filename centering_vector_filename_update,
        str_opt ''whitening-matrix'' whitening_matrix_filename whitening_matrix_filename_update]"

record 'k model_config =
  nnet3_rxfilename :: string
  fst_rxfilename :: string
  word_syms_rxfilename :: string
  align_lexicon_rxfilename :: string
  const_arpa_rxfilename :: string
  initial_ivector_rxfilename :: string
  config_language_code :: string
  kaldi_options :: 'k
  word_boundary_config :: 'k
  word_boundary_rxfilename :: string
  punctuator_config :: punctuator_config
  formatter_enabled :: bool
  formatter_config :: formatter_config
  diarization_enabled :: bool
  xvector_diarization_config :: "'k diarization_options"

text \<open>
  Kaldi's four structs that are registered without a prefix (endpoint, feature, decoder and decodable
  options) are one value with one table.
\<close>

record 'k kaldi_tables =
  kt_model :: "'k opt list"
  kt_word_boundary :: "'k opt list"
  kt_vad :: "'k opt list"
  kt_mfcc :: "'k opt list"
  kt_nnet :: "'k opt list"
  kt_plda :: "'k opt list"

definition Model_Register :: "'k kaldi_tables \<Rightarrow> 'k model_config opt list" where
  [opt_defs]: "Model_Register kt =
     [str_opt ''nnet3-rxfilename'' nnet3_rxfilename nnet3_rxfilename_update,
      str_opt ''fst-rxfilename'' fst_rxfilename fst_rxfilename_update,
      str_opt ''word-syms-rxfilename'' word_syms_rxfilename word_syms_rxfilename_update,
      str_opt ''align-lexicon-int'' align_lexicon_rxfilename align_lexicon_rxfilename_update,
      str_opt ''const-arpa-rxfilename'' const_arpa_rxfilename const_arpa_rxfilename_update,
      str_opt ''initial-ivector-rxfilename'' initial_ivector_rxfilename initial_ivector_rxfilename_update,
      str_opt ''language-code'' config_language_code config_language_code_update]
     @ map (field_opt kaldi_options kaldi_options_update) (kt_model kt)
     @ prefixed ''word-boundary''
         (map (field_opt word_boundary_config word_boundary_config_update) (kt_word_boundary kt))
     @ [str_opt ''word-boundary-int-rxfilename'' word_boundary_rxfilename word_boundary_rxfilename_update]
     @ prefixed ''punctuator''
         (map (field_opt punctuator_config punctuator_config_update) Punctuator_Register)
     @ prefixed ''formatter'' (map (field_opt formatter_config formatter_config_update) Formatter_Register)
     @ [bool_opt ''formatter-enabled'' formatter_enabled formatter_enabled_update,
        bool_opt ''diarization-enabled'' diarization_enabled diarization_enabled_update]
     @ prefixed ''diarization''
         (map (field_opt xvector_diarization_config xvector_diarization_config_update)
           (Diarization_Register (kt_vad kt) (kt_mfcc kt) (kt_nnet kt) (kt_plda kt)))"

text \<open>The initialisers of the members; \<open>k\<close> stands for the defaults of Kaldi's structs.\<close>

definition model_config_defaults :: "'k \<Rightarrow> 'k model_config" where
  "model_config_defaults k = \<lparr>nnet3_rxfilename = ''final.mdl'', fst_rxfilename = ''graph/HCLG.fst'',
     word_syms_rxfilename = ''graph/words.txt'', align_lexicon_rxfilename = [], const_arpa_rxfilename = [],
     initial_ivector_rxfilename = [], config_language_code = [], kaldi_options = k, word_boundary_config = k,
     word_boundary_rxfilename = ''graph/phones/word_boundary.int'', punctuator_config = punctuator_defaults,
     formatter_enabled = True, formatter_config = formatter_defaults, diarization_enabled = False,
     xvector_diarization_config = \<lparr>vad_opts = k, mfcc_opts = k,
       xvector_nnet_opts = \<lparr>nnet_rxfilename = ''exp/xvector_nnet_1a/final.raw'',
         extract_config_rxfilename = ''exp/xvector_nnet_1a/extract.config'', chunk_size_opt = - 1,
         min_chunk_size_opt = 100, xvector_kaldi = k\<rparr>,
       plda_opts = k, plda_filename = [], centering_vector_filename = [], whitening_matrix_filename = []\<rparr>\<rparr>"

record 'k server_options =
  listen_address :: string
  tls_server_cert_filename :: string
  tls_server_key_filename :: string
  tls_ca_cert_filename :: string
  tls_require_client_cert :: bool
  use_tls :: bool
  kaldi_models :: string
  server_decoder_config :: 'k

definition Server_Register :: "'k opt list \<Rightarrow> 'k server_options opt list" where
  [opt_defs]: "Server_Register decoder =
     [str_opt ''listen-address'' listen_address listen_address_update,
      str_opt ''tls-server-cert'' tls_server_cert_filename tls_server_cert_filename_update,
      str_opt ''tls-server-key'' tls_server_key_filename tls_server_key_filename_update,
      str_opt ''tls-ca-cert'' tls_ca_cert_filename tls_ca_cert_filename_update,
      bool_opt ''tls-require-client-cert'' tls_require_client_cert tls_require_client_cert_update,
      bool_opt ''use-tls'' use_tls use_tls_update,
      str_opt ''kaldi-models'' kaldi_models kaldi_models_update]
     @ prefixed ''decoder'' (map (field_opt server_decoder_config server_decoder_config_update) decoder)"

section \<open>The contract of a table\<close>

text \<open>
  Setting an option accepts the values of its kind, is read back, and leaves all options of other
  names alone; no name is registered twice. The client is a sequence of settings, as a config file or
  a command line gives them.
\<close>

definition find_opt :: "'c opt list \<Rightarrow> string \<Rightarrow> 'c opt option" where
  "find_opt table name = find (\<lambda>opt. opt_name opt = name) table"

fun apply_settings :: "'c opt list \<Rightarrow> (string \<times> opt_value) list \<Rightarrow> 'c \<Rightarrow> 'c option" where
  "apply_settings table [] c = Some c"
| "apply_settings table ((name, v) # settings) c =
     (case find_opt table name of
        None \<Rightarrow> None
      | Some opt \<Rightarrow> (case opt_set opt v c of None \<Rightarrow> None | Some c' \<Rightarrow> apply_settings table settings c'))"

locale option_table =
  fixes table :: "'c opt list"
  assumes names_distinct: "distinct (map opt_name table)"
    and set_typed: "opt \<in> set table \<Longrightarrow> opt_set opt v c = None \<longleftrightarrow> \<not> same_kind v (opt_get opt c)"
    and get_set: "opt \<in> set table \<Longrightarrow> opt_set opt v c = Some c' \<Longrightarrow> opt_get opt c' = v"
    and get_other: "opt \<in> set table \<Longrightarrow> opt' \<in> set table \<Longrightarrow> opt_name opt' \<noteq> opt_name opt \<Longrightarrow>
      opt_set opt v c = Some c' \<Longrightarrow> opt_get opt' c' = opt_get opt' c"
begin

lemma find_iff: "find_opt table name = Some opt \<longleftrightarrow> opt \<in> set table \<and> opt_name opt = name"
proof
  assume "find_opt table name = Some opt"
  then show "opt \<in> set table \<and> opt_name opt = name"
    unfolding find_opt_def by (metis (mono_tags) find_Some_iff nth_mem)
next
  assume member: "opt \<in> set table \<and> opt_name opt = name"
  then obtain opt' where opt': "find_opt table name = Some opt'"
    unfolding find_opt_def by (metis (mono_tags) find_None_iff not_None_eq)
  then have "opt' \<in> set table" "opt_name opt' = name"
    unfolding find_opt_def by (metis (mono_tags) find_Some_iff nth_mem)+
  with member names_distinct have "opt' = opt" by (metis (no_types) distinct_map inj_onD)
  with opt' show "find_opt table name = Some opt" by simp
qed

text \<open>After a sequence of settings an option has the last value set for it, or its old value.\<close>

lemma last_setting_wins:
  "apply_settings table settings c = Some c' \<Longrightarrow> opt \<in> set table \<Longrightarrow>
   opt_get opt c' =
     (case map_of (rev settings) (opt_name opt) of None \<Rightarrow> opt_get opt c | Some v \<Rightarrow> v)"
proof (induction settings arbitrary: c)
  case (Cons setting settings)
  obtain name v where s: "setting = (name, v)" by force
  with Cons.prems(1) obtain opt1 c1 where opt1: "find_opt table name = Some opt1"
    "opt_set opt1 v c = Some c1" "apply_settings table settings c1 = Some c'"
    by (auto split: option.splits)
  have mem: "opt1 \<in> set table" "opt_name opt1 = name" using opt1(1) by (simp_all add: find_iff)
  have "opt_get opt c1 = (if opt_name opt = name then v else opt_get opt c)"
  proof (cases "opt_name opt = name")
    case True
    then have "opt = opt1" using Cons.prems(2) opt1(1) find_iff by (metis option.inject)
    then show ?thesis using True get_set [OF mem(1) opt1(2)] by simp
  next
    case False
    then show ?thesis using get_other [OF mem(1) Cons.prems(2) _ opt1(2)] mem(2) by simp
  qed
  then show ?case using Cons.IH [OF opt1(3) Cons.prems(2)]
    by (simp add: s map_add_Some_iff split: option.split)
qed simp

end

section \<open>Building tables\<close>

definition undisturbed :: "'c opt list \<Rightarrow> 'c opt list \<Rightarrow> bool" where
  "undisturbed t1 t2 \<longleftrightarrow>
     (\<forall>o1 \<in> set t1. \<forall>o2 \<in> set t2. \<forall>v c c'. opt_set o1 v c = Some c' \<longrightarrow> opt_get o2 c' = opt_get o2 c)"

lemma option_table_append:
  assumes "option_table t1" "option_table t2" "opt_name ` set t1 \<inter> opt_name ` set t2 = {}"
    and "undisturbed t1 t2" "undisturbed t2 t1"
  shows "option_table (t1 @ t2)"
proof -
  note t1 = assms(1) and t2 = assms(2)
  show ?thesis
  proof (rule option_table.intro)
    show "distinct (map opt_name (t1 @ t2))"
      using assms(3) option_table.names_distinct [OF t1] option_table.names_distinct [OF t2] by simp
    fix opt opt' v c c'
    assume opt: "opt \<in> set (t1 @ t2)"
    then show "opt_set opt v c = None \<longleftrightarrow> \<not> same_kind v (opt_get opt c)"
      using option_table.set_typed [OF t1] option_table.set_typed [OF t2] unfolding set_append by blast
    assume set: "opt_set opt v c = Some c'"
    then show "opt_get opt c' = v"
      using opt option_table.get_set [OF t1] option_table.get_set [OF t2] by auto
    assume "opt' \<in> set (t1 @ t2)" "opt_name opt' \<noteq> opt_name opt"
    then show "opt_get opt' c' = opt_get opt' c"
      using opt set assms(4,5) option_table.get_other [OF t1] option_table.get_other [OF t2]
      unfolding undisturbed_def set_append by blast
  qed
qed

lemma option_table_prefixed: "option_table t \<Longrightarrow> option_table (prefixed p t)"
proof -
  assume t: "option_table t"
  have names: "map opt_name (prefixed p t) = map (\<lambda>n. p @ ''.'' @ n) (map opt_name t)"
    by (simp add: prefixed_def comp_def)
  have "inj (\<lambda>n. p @ ''.'' @ n)" by (auto intro: injI)
  then have "distinct (map opt_name (prefixed p t))"
    unfolding names using t by (simp add: option_table_def distinct_map inj_on_def)
  then show "option_table (prefixed p t)"
    using t by (auto simp: option_table_def prefixed_def)
qed

lemma option_table_field:
  assumes "option_table t" "\<And>d c. get (upd (\<lambda>_. d) c) = d"
  shows "option_table (map (field_opt get upd) t)"
proof -
  have "opt_name \<circ> field_opt get upd = opt_name" by (simp add: fun_eq_iff field_opt_def)
  then show ?thesis using assms by (auto simp: option_table_def field_opt_def)
qed

lemma undisturbed_simps [simp]:
  "undisturbed [] t" "undisturbed t []"
  "undisturbed (t1 @ t2) t \<longleftrightarrow> undisturbed t1 t \<and> undisturbed t2 t"
  "undisturbed t (t1 @ t2) \<longleftrightarrow> undisturbed t t1 \<and> undisturbed t t2"
  "undisturbed (prefixed p t1) t \<longleftrightarrow> undisturbed t1 t"
  "undisturbed t (prefixed p t1) \<longleftrightarrow> undisturbed t t1"
  by (simp_all add: undisturbed_def prefixed_def ball_Un ball_conj_distrib)

lemma prefixed_names: "opt_name ` set (prefixed p t) = (\<lambda>n. p @ ''.'' @ n) ` opt_name ` set t"
  by (auto simp: prefixed_def image_iff)

lemma field_names: "opt_name ` set (map (field_opt get upd) t) = opt_name ` set t"
  by (auto simp: field_opt_def image_iff)

lemma append_names: "opt_name ` set (t1 @ t2) = opt_name ` set t1 \<union> opt_name ` set t2"
  by (simp add: image_Un)

lemmas table_names = prefixed_names field_names append_names

interpretation word_piece: option_table WordPiece_Register
  by unfold_locales (auto simp: opt_defs split: opt_value.splits)

interpretation formatter: option_table Formatter_Register
  by unfold_locales (auto simp: opt_defs split: opt_value.splits)

interpretation look_ahead: option_table LookAhead_Register
  by unfold_locales (auto simp: opt_defs split: opt_value.splits)

lemmas option_table_part = option_table_prefixed option_table_field

interpretation punctuator: option_table Punctuator_Register
proof -
  let ?own = "[str_opt ''pytorch-jit-model'' pytorch_jit_model_filename pytorch_jit_model_filename_update,
      int_opt ''cls-token-id'' cls_token_id_opt cls_token_id_opt_update,
      int_opt ''sep-token-id'' sep_token_id_opt sep_token_id_opt_update]"
  let ?pieces = "map (field_opt word_piece_opts word_piece_opts_update) WordPiece_Register"
  have own: "option_table ?own"
    by unfold_locales (auto simp: opt_defs split: opt_value.splits)
  have pieces: "option_table (prefixed ''word-piece'' ?pieces)"
    by (intro option_table_part word_piece.option_table_axioms) simp
  have "opt_name ` set ?own \<inter> opt_name ` set (prefixed ''word-piece'' ?pieces) = {}"
    by (auto simp: table_names) (simp_all add: opt_defs)
  moreover have "undisturbed ?own ?pieces" "undisturbed ?pieces ?own"
    by (auto simp: undisturbed_def opt_defs split: opt_value.splits)
  ultimately show "option_table Punctuator_Register"
    unfolding Punctuator_Register_def by (intro option_table_append [OF own pieces]) simp_all
qed

section \<open>The server's and the models' options\<close>

lemma server_table:
  assumes "option_table decoder"
  shows "option_table (Server_Register decoder)"
proof -
  let ?own = "[str_opt ''listen-address'' listen_address listen_address_update,
      str_opt ''tls-server-cert'' tls_server_cert_filename tls_server_cert_filename_update,
      str_opt ''tls-server-key'' tls_server_key_filename tls_server_key_filename_update,
      str_opt ''tls-ca-cert'' tls_ca_cert_filename tls_ca_cert_filename_update,
      bool_opt ''tls-require-client-cert'' tls_require_client_cert tls_require_client_cert_update,
      bool_opt ''use-tls'' use_tls use_tls_update,
      str_opt ''kaldi-models'' kaldi_models kaldi_models_update]"
  let ?decoder = "map (field_opt server_decoder_config server_decoder_config_update) decoder"
  have own: "option_table ?own"
    by unfold_locales (auto simp: opt_defs split: opt_value.splits)
  have dec: "option_table (prefixed ''decoder'' ?decoder)"
    by (intro option_table_part assms) simp
  have "opt_name ` set ?own \<inter> opt_name ` set (prefixed ''decoder'' ?decoder) = {}"
    by (auto simp: table_names) (simp_all add: opt_defs)
  moreover have "undisturbed ?own ?decoder" "undisturbed ?decoder ?own"
    by (auto simp: undisturbed_def opt_defs split: opt_value.splits)
  ultimately show ?thesis
    unfolding Server_Register_def by (intro option_table_append [OF own dec]) simp_all
qed

lemma xvector_table:
  assumes "option_table kaldi" "opt_name ` set kaldi \<inter>
    {''nnet-rxfilename'', ''extract-config-rxfilename'', ''chunk-size'', ''min-chunk-size''} = {}"
  shows "option_table (Xvector_Register kaldi)"
proof -
  let ?own = "[str_opt ''nnet-rxfilename'' nnet_rxfilename nnet_rxfilename_update,
      str_opt ''extract-config-rxfilename'' extract_config_rxfilename extract_config_rxfilename_update,
      int_opt ''chunk-size'' chunk_size_opt chunk_size_opt_update,
      int_opt ''min-chunk-size'' min_chunk_size_opt min_chunk_size_opt_update]"
  let ?kaldi = "map (field_opt xvector_kaldi xvector_kaldi_update) kaldi"
  have own: "option_table ?own"
    by unfold_locales (auto simp: opt_defs split: opt_value.splits)
  have kaldi: "option_table ?kaldi" by (intro option_table_part assms(1)) simp
  have "opt_name ` set ?own \<inter> opt_name ` set ?kaldi = {}"
    using assms(2) by (auto simp: field_names) (simp_all add: opt_defs)
  moreover have "undisturbed ?own ?kaldi" "undisturbed ?kaldi ?own"
    by (auto simp: undisturbed_def opt_defs split: opt_value.splits)
  ultimately show ?thesis
    unfolding Xvector_Register_def by (intro option_table_append [OF own kaldi])
qed

text \<open>Tables of many parts.\<close>

definition apart :: "'c opt list \<Rightarrow> 'c opt list \<Rightarrow> bool" where
  "apart t1 t2 \<longleftrightarrow> opt_name ` set t1 \<inter> opt_name ` set t2 = {} \<and> undisturbed t1 t2 \<and> undisturbed t2 t1"

lemma apart_append: "apart t (t1 @ t2) \<longleftrightarrow> apart t t1 \<and> apart t t2"
  by (auto simp: apart_def image_Un)

lemma apart_concat: "apart t (concat ts) \<longleftrightarrow> (\<forall>t' \<in> set ts. apart t t')"
proof (induction ts)
  case Nil
  then show ?case by (simp add: apart_def)
next
  case (Cons t' ts)
  then show ?case by (simp add: apart_append)
qed

lemma option_table_concat:
  "\<forall>t \<in> set ts. option_table t \<Longrightarrow> sorted_wrt apart ts \<Longrightarrow> option_table (concat ts)"
proof (induction ts)
  case Nil
  then show ?case by (simp add: option_table_def)
next
  case (Cons t ts)
  then have "apart t (concat ts)" by (simp add: apart_concat)
  then have "option_table (t @ concat ts)" unfolding apart_def
    by (intro option_table_append) (use Cons in simp_all)
  then show ?case by simp
qed

lemma apart_sym: "apart t1 t2 \<longleftrightarrow> apart t2 t1"
  by (auto simp: apart_def)

lemma apart_Cons: "apart t [opt] \<Longrightarrow> apart t (opt' # opts) \<Longrightarrow> apart t (opt # opt' # opts)"
  using apart_append [of t "[opt]" "opt' # opts"] by simp

lemma apart_fields:
  assumes "\<And>d c. g2 (u1 (\<lambda>_. d) c) = g2 c" "\<And>d c. g1 (u2 (\<lambda>_. d) c) = g1 c"
  shows "undisturbed (map (field_opt g1 u1) t1) (map (field_opt g2 u2) t2)"
    and "undisturbed (map (field_opt g2 u2) t2) (map (field_opt g1 u1) t1)"
  using assms by (auto simp: undisturbed_def field_opt_def)

lemma apart_prefixed:
  assumes "\<And>d c. g2 (u1 (\<lambda>_. d) c) = g2 c" "\<And>d c. g1 (u2 (\<lambda>_. d) c) = g1 c"
    and "\<And>n m. p @ ''.'' @ n \<noteq> q @ ''.'' @ m"
  shows "apart (prefixed p (map (field_opt g1 u1) t1)) (prefixed q (map (field_opt g2 u2) t2))"
  using assms(3) apart_fields [where ?g1.0 = g1 and ?g2.0 = g2 and ?u1.0 = u1 and ?u2.0 = u2
      and ?t1.0 = t1 and ?t2.0 = t2, OF assms(1,2)] by (auto simp: apart_def prefixed_names)

lemma apart_unprefixed:
  assumes "\<And>d c. g2 (u1 (\<lambda>_. d) c) = g2 c" "\<And>d c. g1 (u2 (\<lambda>_. d) c) = g1 c"
    and "\<And>n. q @ ''.'' @ n \<notin> opt_name ` set t1"
  shows "apart (map (field_opt g1 u1) t1) (prefixed q (map (field_opt g2 u2) t2))"
proof -
  have "opt_name ` set t1 \<inter> (\<lambda>n. q @ ''.'' @ n) ` N = {}" for N
    using assms(3) by (metis (no_types, lifting) disjoint_iff image_iff)
  then show ?thesis
    using apart_fields [where ?g1.0 = g1 and ?g2.0 = g2 and ?u1.0 = u1 and ?u2.0 = u2
        and ?t1.0 = t1 and ?t2.0 = t2, OF assms(1,2)]
    unfolding apart_def prefixed_names field_names undisturbed_simps by blast
qed

lemma undisturbed_basic:
  assumes "\<And>d c. get (u (\<lambda>_. d) c) = get c" "\<And>f c. g (upd f c) = g c"
  shows "undisturbed (map (field_opt g u) t) [str_opt n get upd]"
    and "undisturbed [str_opt n get upd] (map (field_opt g u) t)"
  using assms by (auto simp: undisturbed_def field_opt_def str_opt_def split: opt_value.splits)

lemma undisturbed_basic_bool:
  assumes "\<And>d c. get (u (\<lambda>_. d) c) = get c" "\<And>f c. g (upd f c) = g c"
  shows "undisturbed (map (field_opt g u) t) [bool_opt n get upd]"
    and "undisturbed [bool_opt n get upd] (map (field_opt g u) t)"
  using assms by (auto simp: undisturbed_def field_opt_def bool_opt_def split: opt_value.splits)

lemma apart_str:
  assumes "\<And>d c. get (u (\<lambda>_. d) c) = get c" "\<And>f c. g (upd f c) = g c"
  shows "(\<And>m. p @ ''.'' @ m \<noteq> n) \<Longrightarrow> apart (prefixed p (map (field_opt g u) t)) [str_opt n get upd]"
    and "n \<notin> opt_name ` set t \<Longrightarrow> apart (map (field_opt g u) t) [str_opt n get upd]"
  using undisturbed_basic [where get = get and upd = upd and u = u and g = g, OF assms]
  unfolding apart_def prefixed_names field_names undisturbed_simps by (auto simp: str_opt_def)

lemma apart_bool:
  assumes "\<And>d c. get (u (\<lambda>_. d) c) = get c" "\<And>f c. g (upd f c) = g c"
  shows "(\<And>m. p @ ''.'' @ m \<noteq> n) \<Longrightarrow> apart (prefixed p (map (field_opt g u) t)) [bool_opt n get upd]"
    and "n \<notin> opt_name ` set t \<Longrightarrow> apart (map (field_opt g u) t) [bool_opt n get upd]"
  using undisturbed_basic_bool [where get = get and upd = upd and u = u and g = g, OF assms]
  unfolding apart_def prefixed_names field_names undisturbed_simps by (auto simp: bool_opt_def)

lemma diarization_table:
  assumes "option_table vad" "option_table mfcc" "option_table nnet" "option_table plda"
    and "opt_name ` set nnet \<inter>
      {''nnet-rxfilename'', ''extract-config-rxfilename'', ''chunk-size'', ''min-chunk-size''} = {}"
  shows "option_table (Diarization_Register vad mfcc nnet plda)"
proof -
  let ?vad = "prefixed ''vad'' (map (field_opt vad_opts vad_opts_update) vad)"
  let ?mfcc = "prefixed ''mfcc'' (map (field_opt mfcc_opts mfcc_opts_update) mfcc)"
  let ?nnet = "prefixed ''xvector'' (map (field_opt xvector_nnet_opts xvector_nnet_opts_update) (Xvector_Register nnet))"
  let ?plda = "prefixed ''plda'' (map (field_opt plda_opts plda_opts_update) plda)"
  let ?own = "[str_opt ''plda'' plda_filename plda_filename_update,
        str_opt ''centering-vector'' centering_vector_filename centering_vector_filename_update,
        str_opt ''whitening-matrix'' whitening_matrix_filename whitening_matrix_filename_update]"
  have own: "option_table ?own"
    by unfold_locales (auto simp: opt_defs split: opt_value.splits)
  have parts: "option_table ?vad" "option_table ?mfcc" "option_table ?nnet" "option_table ?plda"
    using assms(1,2,4) xvector_table [OF assms(3,5)] by (simp_all add: option_table_part)
  have to_own: "apart ?vad ?own" "apart ?mfcc ?own" "apart ?nnet ?own" "apart ?plda ?own"
    by (intro apart_Cons apart_str(1); simp)+
  have among: "apart ?vad ?mfcc" "apart ?vad ?nnet" "apart ?vad ?plda" "apart ?mfcc ?nnet" "apart ?mfcc ?plda"
    "apart ?nnet ?plda"
    by (rule apart_prefixed; simp)+
  have "option_table (concat [?vad, ?mfcc, ?nnet, ?plda, ?own])"
    by (rule option_table_concat) (use parts own to_own among in simp_all)
  then show ?thesis by (simp add: Diarization_Register_def)
qed

definition model_own_names :: "string set" where
  "model_own_names = {''nnet3-rxfilename'', ''fst-rxfilename'', ''word-syms-rxfilename'', ''align-lexicon-int'',
     ''const-arpa-rxfilename'', ''initial-ivector-rxfilename'', ''language-code'',
     ''word-boundary-int-rxfilename'', ''formatter-enabled'', ''diarization-enabled''}"

text \<open>
  What Kaldi's tables have to satisfy: each is a table, and the names that are registered without a
  prefix neither are the model's own nor start with one of its prefixes.
\<close>

definition kaldi_tables_ok :: "'k kaldi_tables \<Rightarrow> bool" where
  "kaldi_tables_ok kt \<longleftrightarrow>
     (\<forall>t \<in> {kt_model kt, kt_word_boundary kt, kt_vad kt, kt_mfcc kt, kt_nnet kt, kt_plda kt}. option_table t) \<and>
     opt_name ` set (kt_nnet kt) \<inter>
       {''nnet-rxfilename'', ''extract-config-rxfilename'', ''chunk-size'', ''min-chunk-size''} = {} \<and>
     opt_name ` set (kt_model kt) \<inter> model_own_names = {} \<and>
     (\<forall>p \<in> {''word-boundary'', ''punctuator'', ''formatter'', ''diarization''}. \<forall>n.
        p @ ''.'' @ n \<notin> opt_name ` set (kt_model kt))"

lemma model_table:
  assumes "kaldi_tables_ok kt"
  shows "option_table (Model_Register kt)"
proof -
  let ?own1 = "[str_opt ''nnet3-rxfilename'' nnet3_rxfilename nnet3_rxfilename_update,
      str_opt ''fst-rxfilename'' fst_rxfilename fst_rxfilename_update,
      str_opt ''word-syms-rxfilename'' word_syms_rxfilename word_syms_rxfilename_update,
      str_opt ''align-lexicon-int'' align_lexicon_rxfilename align_lexicon_rxfilename_update,
      str_opt ''const-arpa-rxfilename'' const_arpa_rxfilename const_arpa_rxfilename_update,
      str_opt ''initial-ivector-rxfilename'' initial_ivector_rxfilename initial_ivector_rxfilename_update,
      str_opt ''language-code'' config_language_code config_language_code_update]"
  let ?kaldi = "map (field_opt kaldi_options kaldi_options_update) (kt_model kt)"
  let ?boundary = "prefixed ''word-boundary''
      (map (field_opt word_boundary_config word_boundary_config_update) (kt_word_boundary kt))"
  let ?own2 = "[str_opt ''word-boundary-int-rxfilename'' word_boundary_rxfilename word_boundary_rxfilename_update]"
  let ?punct = "prefixed ''punctuator'' (map (field_opt punctuator_config punctuator_config_update) Punctuator_Register)"
  let ?fmt = "prefixed ''formatter'' (map (field_opt formatter_config formatter_config_update) Formatter_Register)"
  let ?own3 = "[bool_opt ''formatter-enabled'' formatter_enabled formatter_enabled_update,
        bool_opt ''diarization-enabled'' diarization_enabled diarization_enabled_update]"
  let ?dia = "prefixed ''diarization''
      (map (field_opt xvector_diarization_config xvector_diarization_config_update)
        (Diarization_Register (kt_vad kt) (kt_mfcc kt) (kt_nnet kt) (kt_plda kt)))"
  note ok_parts = assms [unfolded kaldi_tables_ok_def]
  note each = ok_parts [THEN conjunct1]
  note nnet = ok_parts [THEN conjunct2, THEN conjunct1]
  note own_free = ok_parts [THEN conjunct2, THEN conjunct2, THEN conjunct1]
  note prefix_free = ok_parts [THEN conjunct2, THEN conjunct2, THEN conjunct2]
  have tables: "option_table (kt_model kt)" "option_table (kt_word_boundary kt)" "option_table (kt_vad kt)"
    "option_table (kt_mfcc kt)" "option_table (kt_nnet kt)" "option_table (kt_plda kt)"
    using each by simp_all
  note ok = tables(1,2) diarization_table [OF tables(3-6) nnet]
  have own: "option_table ?own1" "option_table ?own2" "option_table ?own3"
    by (unfold_locales; auto simp: str_opt_def bool_opt_def split: opt_value.splits)+
  have parts: "option_table ?kaldi" "option_table ?boundary" "option_table ?punct" "option_table ?fmt" "option_table ?dia"
    using ok punctuator.option_table_axioms formatter.option_table_axioms
    by (simp_all add: option_table_part)
  have fresh: "n \<notin> opt_name ` set (kt_model kt)" if "n \<in> model_own_names" for n
    using own_free that by blast
  have unpre: "p @ ''.'' @ n \<notin> opt_name ` set (kt_model kt)"
    if "p \<in> {''word-boundary'', ''punctuator'', ''formatter'', ''diarization''}" for p n
    using spec [OF bspec [OF prefix_free that]] .
  have kaldi: "apart ?kaldi ?own1" "apart ?kaldi ?own2" "apart ?kaldi ?own3"
    by (intro apart_Cons apart_str(2) apart_bool(2) fresh; simp add: model_own_names_def)+
  have kaldi2: "apart ?kaldi ?boundary" "apart ?kaldi ?punct" "apart ?kaldi ?fmt" "apart ?kaldi ?dia"
    by (rule apart_unprefixed; (rule unpre)?; simp)+
  have own_apart: "apart ?own1 ?own2" "apart ?own1 ?own3" "apart ?own2 ?own3"
    by (auto simp: apart_def undisturbed_def str_opt_def bool_opt_def split: opt_value.splits)
  have to_own: "apart ?boundary ?own1" "apart ?punct ?own1" "apart ?fmt ?own1" "apart ?dia ?own1"
    "apart ?boundary ?own2" "apart ?punct ?own2" "apart ?fmt ?own2" "apart ?dia ?own2"
    "apart ?boundary ?own3" "apart ?punct ?own3" "apart ?fmt ?own3" "apart ?dia ?own3"
    by (intro apart_Cons apart_str(1) apart_bool(1); simp)+
  have among: "apart ?boundary ?punct" "apart ?boundary ?fmt" "apart ?boundary ?dia" "apart ?punct ?fmt"
    "apart ?punct ?dia" "apart ?fmt ?dia"
    by (rule apart_prefixed; simp)+
  note here = kaldi kaldi2 own_apart to_own among
  note there = here [THEN apart_sym [THEN iffD1]]
  have "option_table (concat [?own1, ?kaldi, ?boundary, ?own2, ?punct, ?fmt, ?own3, ?dia])"
    by (rule option_table_concat)
      (simp_all only: sorted_wrt.simps list.set ball_simps parts own here there simp_thms)
  then show ?thesis by (simp add: Model_Register_def)
qed

text \<open>
  C37. Every option that a model's configuration registers means one field: names are distinct, and
  after any accepted sequence of settings (a config file) each option has the value set last for it,
  or its default when the sequence does not name it, no matter which other options were set.
\<close>

theorem model_options_independent:
  assumes "kaldi_tables_ok kt" "apply_settings (Model_Register kt) settings c = Some c'"
    and "opt \<in> set (Model_Register kt)"
  shows "distinct (map opt_name (Model_Register kt)) \<and>
    opt_get opt c' =
      (case map_of (rev settings) (opt_name opt) of None \<Rightarrow> opt_get opt c | Some v \<Rightarrow> v)"
  using option_table.names_distinct [OF model_table] option_table.last_setting_wins [OF model_table] assms by blast

definition no_kaldi :: "unit kaldi_tables" where
  "no_kaldi = \<lparr>kt_model = [], kt_word_boundary = [], kt_vad = [], kt_mfcc = [], kt_nnet = [], kt_plda = []\<rparr>"

theorem model_options_independent_witness:
  "\<exists>c'. apply_settings (Model_Register no_kaldi)
      [(''punctuator.word-piece.vocab'', Str_value ''a''), (''formatter-enabled'', Bool_value False),
       (''punctuator.word-piece.vocab'', Str_value ''b'')] (model_config_defaults ()) = Some c' \<and>
    opt_get (str_opt ''fst-rxfilename'' fst_rxfilename fst_rxfilename_update) c' = Str_value ''graph/HCLG.fst''"
proof -
  let ?settings = "[(''punctuator.word-piece.vocab'', Str_value ''a''), (''formatter-enabled'', Bool_value False),
       (''punctuator.word-piece.vocab'', Str_value ''b'')]"
  let ?opt = "str_opt ''fst-rxfilename'' fst_rxfilename fst_rxfilename_update :: unit model_config opt"
  have "kaldi_tables_ok no_kaldi" by (simp add: kaldi_tables_ok_def no_kaldi_def option_table_def)
  moreover obtain c' where "apply_settings (Model_Register no_kaldi) ?settings (model_config_defaults ()) = Some c'"
    by (simp add: find_opt_def no_kaldi_def opt_defs comp_def)
  moreover have "?opt \<in> set (Model_Register no_kaldi)" by (simp add: Model_Register_def)
  ultimately show ?thesis
    using model_options_independent [where kt = no_kaldi and settings = ?settings and c = "model_config_defaults ()" and opt = ?opt]
    by (auto simp: str_opt_def model_config_defaults_def)
qed

end
