(* ===== verification/Kaldi_Model.thy ===== *)
theory Kaldi_Model
  imports Options Punctuation Formatter Speech_Messages
begin

text \<open>
  \<open>src/kaldi-model.h\<close>, \<open>src/kaldi-model.cc\<close> and \<open>src/scoped-chdir.h\<close>: checking a model's configuration,
  loading a model, and reading it from a directory. Kaldi's objects are values of the type \<open>'k\<close>, the
  adaptation state of the i-vector extractor is \<open>'a\<close>, the diarization resources are \<open>'x\<close>; how the
  libraries read them from files (relative to the current directory) is the parameter \<open>loader\<close>.
\<close>

section \<open>Checking the configuration\<close>

definition check_errors :: "'k model_config \<Rightarrow> string list" where
  "check_errors config =
     (if nnet3_rxfilename config = [] then [''Flag nnet3-rxfilename can't be empty.''] else [])
     @ (if fst_rxfilename config = [] then [''Flag fst-rxfilename can't be empty.''] else [])
     @ (if word_syms_rxfilename config = [] then [''Flag word_syms_rxfilename can't be empty.''] else [])
     @ (if config_language_code config = [] then [''Flag language_code can't be empty.''] else [])
     @ (if formatter_enabled config \<and> rewrite_fst_filename (formatter_config config) = []
        then [''Flag formatter_enabled set but missing formatter.rewrite-fst''] else [])
     @ (let dia = xvector_diarization_config config in
        if diarization_enabled config \<and>
           (plda_filename dia = [] \<or> whitening_matrix_filename dia = [] \<or> centering_vector_filename dia = [] \<or>
            nnet_rxfilename (xvector_nnet_opts dia) = [])
        then [''Flag diarization_enabled set but missing one of diarization.plda_filename, '' @
              ''diarization.centering_vector_filename, diarization.whitening_matrix_filename and '' @
              ''diarization.nnet_rxfilename'']
        else [])"

text \<open>Errors are logged, and then \<open>TIRO_SPEECH_FATAL\<close> aborts.\<close>

definition KaldiModelConfig_Check :: "'k model_config \<Rightarrow> string list \<times> unit outcome" where
  "KaldiModelConfig_Check config =
     (let errors = check_errors config in (errors, if errors \<noteq> [] then Fault Aborted else Ret ()))"

section \<open>The model\<close>

record feature_info =
  feature_type :: string
  mfcc_samp_freq :: rat
  plp_samp_freq :: rat
  fbank_samp_freq :: rat
  FrameShiftInSeconds :: rat
  frame_subsampling_factor :: int

record ('k, 'a, 'x, 't) loader =
  ReadFstKaldiGeneric :: "string \<Rightarrow> string \<Rightarrow> 'k outcome"
  SymbolTable_ReadText :: "string \<Rightarrow> string \<Rightarrow> (int \<Rightarrow> string) option"
  WordBoundaryInfo :: "string \<Rightarrow> 'k \<Rightarrow> string \<Rightarrow> 'k outcome"
  FeaturePipelineInfo :: "string \<Rightarrow> 'k \<Rightarrow> feature_info outcome"
  IvectorAdaptationState :: "feature_info \<Rightarrow> 'a"
  ReadAdaptationState :: "string \<Rightarrow> string \<Rightarrow> 'a \<Rightarrow> 'a outcome"
  ReadAcousticModel :: "string \<Rightarrow> string \<Rightarrow> 'k outcome"
  ReadConstArpaLm :: "string \<Rightarrow> string \<Rightarrow> 'k outcome"
  jit_load :: "string \<Rightarrow> string \<Rightarrow> (int list \<Rightarrow> int list) outcome"
  open_file :: "string \<Rightarrow> string \<Rightarrow> string option"
  StdFst_Read :: "string \<Rightarrow> string \<Rightarrow> 't vector_fst option"
  XvectorDiarizationDecoderInfo :: "string \<Rightarrow> 'k diarization_options \<Rightarrow> 'x outcome"

record ('k, 'a, 'x, 't) kaldi_model =
  decoding_graph :: 'k
  word_syms :: "(int \<Rightarrow> string) option"
  word_boundary_info :: 'k
  model_feature_info :: feature_info
  initial_adaptation_state :: 'a
  acoustic_model :: 'k
  const_arpa_lm :: "'k option"
  model_punctuator :: "punctuator option"
  model_formatter :: "'t vector_fst option"
  diarization_info :: "'x option"
  model_config :: "'k model_config"

text \<open>\<open>ElectraPunctuator\<close>'s constructor.\<close>

definition ElectraPunctuator ::
    "('k, 'a, 'x, 't) loader \<Rightarrow> string \<Rightarrow> punctuator_config \<Rightarrow> punctuator outcome" where
  "ElectraPunctuator ld cwd opts =
     obind (jit_load ld cwd (pytorch_jit_model_filename opts)) (\<lambda>module.
     let pieces = word_piece_opts opts in
     omap (\<lambda>tok. \<lparr>forward = module, punct_tokenizer = tok, cls_token_id = cls_token_id_opt opts,
                 sep_token_id = sep_token_id_opt opts\<rparr>)
       (WordPieceTokenizer (vocab_filename pieces) (unk_token_opt pieces) (max_input_chars_opt pieces)
         (open_file ld cwd (vocab_filename pieces))))"

definition optional :: "bool \<Rightarrow> 'a outcome \<Rightarrow> 'a option outcome" where
  "optional b m = (if b then omap Some m else Ret None)"

definition KaldiModel ::
    "('k, 'a, 'x, 't) loader \<Rightarrow> string \<Rightarrow> 'k model_config \<Rightarrow> ('k, 'a, 'x, 't) kaldi_model outcome" where
  "KaldiModel ld cwd config =
     obind (ReadFstKaldiGeneric ld cwd (fst_rxfilename config)) (\<lambda>graph.
     let syms = SymbolTable_ReadText ld cwd (word_syms_rxfilename config) in
     obind (WordBoundaryInfo ld cwd (word_boundary_config config) (word_boundary_rxfilename config)) (\<lambda>boundary.
     obind (FeaturePipelineInfo ld cwd (kaldi_options config)) (\<lambda>features.
     let state = IvectorAdaptationState ld features in
     obind (if initial_ivector_rxfilename config \<noteq> []
            then ReadAdaptationState ld cwd (initial_ivector_rxfilename config) state else Ret state) (\<lambda>state.
     obind (ReadAcousticModel ld cwd (nnet3_rxfilename config)) (\<lambda>nnet.
     obind (optional (const_arpa_rxfilename config \<noteq> [])
              (ReadConstArpaLm ld cwd (const_arpa_rxfilename config))) (\<lambda>arpa.
     obind (optional (pytorch_jit_model_filename (punctuator_config config) \<noteq> [] \<and>
                vocab_filename (word_piece_opts (punctuator_config config)) \<noteq> [])
              (ElectraPunctuator ld cwd (punctuator_config config))) (\<lambda>punct.
     obind (optional (formatter_enabled config \<and> rewrite_fst_filename (formatter_config config) \<noteq> [])
              (Formatter_ctor (StdFst_Read ld cwd) (rewrite_fst_filename (formatter_config config)))) (\<lambda>fmt.
     obind (optional (diarization_enabled config)
              (XvectorDiarizationDecoderInfo ld cwd (xvector_diarization_config config))) (\<lambda>dia.
     Ret \<lparr>decoding_graph = graph, word_syms = syms, word_boundary_info = boundary,
          model_feature_info = features, initial_adaptation_state = state, acoustic_model = nnet,
          const_arpa_lm = arpa, model_punctuator = punct, model_formatter = fmt, diarization_info = dia,
          model_config = config\<rparr>)))))))))"

section \<open>Reading a model directory\<close>

text \<open>
  \<open>ScopedChdir\<close> changes the current directory for the rest of its block and changes it back in its
  destructor, also when the block throws; an exception in the destructor ends the program.
  \<open>chdir cwd path\<close> is the new current directory.
\<close>

record fs =
  chdir :: "string \<Rightarrow> string \<Rightarrow> string outcome"
  exists :: "string \<Rightarrow> string \<Rightarrow> bool"

definition ScopedChdir :: "fs \<Rightarrow> string \<Rightarrow> (string \<Rightarrow> 'r outcome) \<Rightarrow> string \<Rightarrow> 'r outcome \<times> string" where
  "ScopedChdir f path block oldpwd =
     (case chdir f oldpwd path of
        Throw e \<Rightarrow> (Throw e, oldpwd)
      | Fault b \<Rightarrow> (Fault b, oldpwd)
      | Ret cwd \<Rightarrow>
          (case block cwd of
             Fault b \<Rightarrow> (Fault b, cwd)
           | r \<Rightarrow> (case chdir f cwd oldpwd of Ret back \<Rightarrow> (r, back) | _ \<Rightarrow> (Fault Aborted, cwd))))"

definition KaldiModel_Read ::
    "('k, 'a, 'x, 't) loader \<Rightarrow> fs \<Rightarrow>
     (string \<Rightarrow> string \<Rightarrow> 'k model_config opt list \<Rightarrow> 'k model_config \<Rightarrow> 'k model_config outcome) \<Rightarrow>
     'k \<Rightarrow> 'k kaldi_tables \<Rightarrow> string \<Rightarrow> string \<Rightarrow> ('k, 'a, 'x, 't) kaldi_model outcome \<times> string" where
  "KaldiModel_Read ld f ReadConfigFile kaldi_defaults kt model_path =
     ScopedChdir f model_path (\<lambda>cwd.
       let config = model_config_defaults kaldi_defaults in
       if \<not> exists f cwd ''main.conf'' then
         Throw (Filesystem_error ([CHR 0x27] @ model_path @ ''/main.conf'' @ [CHR 0x27] @
           '' does not exist! Is this not a packaged model?''))
       else obind (ReadConfigFile cwd ''main.conf'' (Model_Register kt) config) (KaldiModel ld cwd))"

section \<open>Properties\<close>

lemma optional_Ret: "optional b m = Ret r \<longleftrightarrow> (if b then \<exists>x. m = Ret x \<and> r = Some x else r = None)"
  by (auto simp: optional_def outcome_simps)

lemma optional_present: "optional b m = Ret r \<Longrightarrow> r \<noteq> None \<longleftrightarrow> b"
  by (auto simp: optional_Ret split: if_splits)

text \<open>
  A model that loads has exactly the optional parts its configuration asks for: the ConstARPA
  model when its file is named, the punctuator when both its files are named, the formatter when it
  is enabled and its transducer named, the diarizer when it is enabled. In particular a
  configuration that \<open>Check\<close> would reject by aborting, the formatter enabled without a transducer
  (which is the default), loads to a model without formatter: the loading code does not call
  \<open>Check\<close>.
\<close>

theorem KaldiModel_parts:
  assumes "KaldiModel ld cwd config = Ret m"
  shows "(const_arpa_lm m \<noteq> None) = (const_arpa_rxfilename config \<noteq> []) \<and>
    (model_punctuator m \<noteq> None) =
      (pytorch_jit_model_filename (punctuator_config config) \<noteq> [] \<and>
       vocab_filename (word_piece_opts (punctuator_config config)) \<noteq> []) \<and>
    (model_formatter m \<noteq> None) =
      (formatter_enabled config \<and> rewrite_fst_filename (formatter_config config) \<noteq> []) \<and>
    (diarization_info m \<noteq> None) = diarization_enabled config \<and>
    model_config m = config \<and>
    (formatter_enabled config \<and> model_formatter m = None \<longrightarrow>
       snd (KaldiModelConfig_Check config) = Fault Aborted)"
proof -
  from assms obtain arpa punct fmt dia where parts:
    "optional (const_arpa_rxfilename config \<noteq> []) (ReadConstArpaLm ld cwd (const_arpa_rxfilename config)) = Ret arpa"
    "optional (pytorch_jit_model_filename (punctuator_config config) \<noteq> [] \<and>
        vocab_filename (word_piece_opts (punctuator_config config)) \<noteq> [])
        (ElectraPunctuator ld cwd (punctuator_config config)) = Ret punct"
    "optional (formatter_enabled config \<and> rewrite_fst_filename (formatter_config config) \<noteq> [])
        (Formatter_ctor (StdFst_Read ld cwd) (rewrite_fst_filename (formatter_config config))) = Ret fmt"
    "optional (diarization_enabled config)
        (XvectorDiarizationDecoderInfo ld cwd (xvector_diarization_config config)) = Ret dia"
    "const_arpa_lm m = arpa" "model_punctuator m = punct" "model_formatter m = fmt" "diarization_info m = dia"
    "model_config m = config"
    unfolding KaldiModel_def Let_def by (auto simp: outcome_simps)
  have "rewrite_fst_filename (formatter_config config) = [] \<Longrightarrow> formatter_enabled config \<Longrightarrow>
      snd (KaldiModelConfig_Check config) = Fault Aborted"
    by (simp add: KaldiModelConfig_Check_def check_errors_def Let_def)
  then show ?thesis
    using parts(1-4) [THEN optional_present] parts(5-9) by auto
qed

definition empty_loader :: "(unit, unit, unit, unit) loader" where
  "empty_loader = \<lparr>ReadFstKaldiGeneric = \<lambda>_ _. Ret (), SymbolTable_ReadText = \<lambda>_ _. None,
     WordBoundaryInfo = \<lambda>_ _ _. Ret (),
     FeaturePipelineInfo = \<lambda>_ _. Ret \<lparr>feature_type = ''mfcc'', mfcc_samp_freq = 16000, plp_samp_freq = 0,
       fbank_samp_freq = 0, FrameShiftInSeconds = 1 / 100, frame_subsampling_factor = 3\<rparr>,
     IvectorAdaptationState = \<lambda>_. (), ReadAdaptationState = \<lambda>_ _ s. Ret s, ReadAcousticModel = \<lambda>_ _. Ret (),
     ReadConstArpaLm = \<lambda>_ _. Ret (), jit_load = \<lambda>_ _. Ret (\<lambda>ids. ids), open_file = \<lambda>_ _. None,
     StdFst_Read = \<lambda>_ _. None, XvectorDiarizationDecoderInfo = \<lambda>_ _. Ret ()\<rparr>"

theorem KaldiModel_parts_witness:
  "\<exists>m. KaldiModel empty_loader [] (model_config_defaults ()) = Ret m \<and> model_formatter m = None \<and>
     snd (KaldiModelConfig_Check (model_config_defaults ())) = Fault Aborted"
proof -
  obtain m where m: "KaldiModel empty_loader [] (model_config_defaults ()) = Ret m"
    by (simp add: KaldiModel_def empty_loader_def model_config_defaults_def punctuator_defaults_def
        word_piece_defaults_def formatter_defaults_def optional_def)
  with KaldiModel_parts [OF m] show ?thesis
    by (auto simp: model_config_defaults_def formatter_defaults_def)
qed

text \<open>
  Reading a model leaves the current directory of the process as it was, whether it succeeds or
  throws, provided that a directory that was current can be made current again; and a directory
  without \<open>main.conf\<close> is refused with a filesystem error that names it.
\<close>

theorem KaldiModel_Read_directory:
  assumes "\<And>path cwd. chdir f oldpwd path = Ret cwd \<Longrightarrow> chdir f cwd oldpwd = Ret oldpwd"
  shows "case KaldiModel_Read ld f ReadConfigFile kaldi_defaults kt model_path oldpwd of (r, cwd) \<Rightarrow>
    (no_fault r \<longrightarrow> cwd = oldpwd) \<and>
    (\<forall>dir. chdir f oldpwd model_path = Ret dir \<and> \<not> exists f dir ''main.conf'' \<longrightarrow>
       r = Throw (Filesystem_error ([CHR 0x27] @ model_path @ ''/main.conf'' @ [CHR 0x27] @
         '' does not exist! Is this not a packaged model?'')))"
proof (cases "chdir f oldpwd model_path")
  case (Ret dir)
  note again = assms [OF Ret]
  show ?thesis
    by (cases "exists f dir ''main.conf''";
        cases "obind (ReadConfigFile dir ''main.conf'' (Model_Register kt) (model_config_defaults kaldi_defaults)) (KaldiModel ld dir)")
      (simp_all add: KaldiModel_Read_def ScopedChdir_def Ret again Let_def)
qed (simp_all add: KaldiModel_Read_def ScopedChdir_def)

theorem KaldiModel_Read_directory_witness:
  "case KaldiModel_Read empty_loader \<lparr>chdir = \<lambda>_ path. Ret path, exists = \<lambda>_ _. False\<rparr> (\<lambda>_ _ _ c. Ret c) ()
     no_kaldi ''models/is'' ''/srv'' of (r, cwd) \<Rightarrow> cwd = ''/srv'' \<and> r \<noteq> Fault Aborted"
  using KaldiModel_Read_directory [where f = "\<lparr>chdir = \<lambda>_ path. Ret path, exists = \<lambda>_ _. False\<rparr>"
      and oldpwd = "''/srv''" and ld = empty_loader and ReadConfigFile = "\<lambda>_ _ _ c. Ret c" and kaldi_defaults = "()"
      and kt = no_kaldi and model_path = "''models/is''"]
  by (auto split: prod.splits)

end
