(* ===== verification/Server.thy ===== *)
theory Server
  imports Kaldi_Model Text_Utils
begin

text \<open>
  \<open>src/server.h\<close> and \<open>src/server.cc\<close>: the server's options, the models it loads, its credentials, and
  the life of the server from registering models to \<open>Start\<close>, \<open>Wait\<close> and \<open>Shutdown\<close>. A model is a value
  of the type \<open>'m\<close> (a shared pointer); \<open>language\<close> is its \<open>config.language_code\<close>. A model map is a partial
  function, and the order in which the hash table is walked is the parameter \<open>entries\<close>.
\<close>

section \<open>Registries of models\<close>

text \<open>
  \<open>SpeechServer\<close> and \<open>SpeechService\<close> both keep a map of models under \<open>RegisterModel\<close>, which replaces a
  model of the same id. The client copies one registry into another.
\<close>

definition entries_of :: "((model_id \<rightharpoonup> 'm) \<Rightarrow> (model_id \<times> 'm) list) \<Rightarrow> (model_id \<rightharpoonup> 'm) \<Rightarrow> bool" where
  "entries_of entries m \<longleftrightarrow> distinct (map fst (entries m)) \<and> map_of (entries m) = m"

locale model_registry =
  fixes models_of :: "'s \<Rightarrow> model_id \<rightharpoonup> 'm" and RegisterModel :: "model_id \<Rightarrow> 'm \<Rightarrow> 's \<Rightarrow> 's"
  assumes register: "models_of (RegisterModel i m s) = (models_of s)(i \<mapsto> m)"
begin

definition register_all :: "(model_id \<times> 'm) list \<Rightarrow> 's \<Rightarrow> 's" where
  "register_all xs s = foldl (\<lambda>s (mid, m). RegisterModel mid m s) s xs"

lemma register_all_models:
  "distinct (map fst xs) \<Longrightarrow> models_of (register_all xs s) = models_of s ++ map_of xs"
proof (induction xs arbitrary: s)
  case (Cons x xs)
  obtain i m where x: "x = (i, m)" by force
  have "i \<notin> dom (map_of xs)" using Cons.prems by (simp add: x dom_map_of_conv_image_fst)
  have "models_of (register_all (x # xs) s) = models_of (register_all xs (RegisterModel i m s))"
    by (simp add: register_all_def x)
  also have "\<dots> = (models_of s)(i \<mapsto> m) ++ map_of xs" using Cons by (simp add: register)
  also have "\<dots> = (models_of s ++ map_of xs)(i \<mapsto> m)"
    using \<open>i \<notin> dom (map_of xs)\<close> by (rule map_add_upd_left)
  also have "\<dots> = models_of s ++ map_of (x # xs)" unfolding x map_of.simps fst_conv snd_conv map_add_upd ..
  finally show ?case .
qed (simp add: register_all_def)

lemma copy_models:
  assumes "entries_of entries m" "models_of s = Map.empty"
  shows "models_of (register_all (entries m) s) = m"
  using assms register_all_models [of "entries m" s] by (simp add: entries_of_def)

end

section \<open>Options and their check\<close>

definition server_option_defaults :: "'k \<Rightarrow> 'k server_options" where
  "server_option_defaults k = \<lparr>listen_address = ''0.0.0.0:50051'', tls_server_cert_filename = [],
     tls_server_key_filename = [], tls_ca_cert_filename = [], tls_require_client_cert = False, use_tls = False,
     kaldi_models = [], server_decoder_config = k\<rparr>"

text \<open>\<open>Check\<close> only logs.\<close>

definition SpeechServerOptions_Check :: "'k server_options \<Rightarrow> string list" where
  "SpeechServerOptions_Check opts =
     (if use_tls opts \<and> (tls_server_cert_filename opts = [] \<or> tls_server_key_filename opts = [])
      then [''tls-server-key or tls-server-cert empty while use-tls=true''] else [])"

section \<open>SpeechServerInfo\<close>

record ('k, 'm) server_info =
  options :: "'k server_options"
  tls_server_cert :: string
  tls_server_key :: string
  tls_ca_cert :: string
  info_models :: "'m model_map"

text \<open>\<open>emplace\<close> does nothing when the key is present.\<close>

definition emplace :: "'k \<Rightarrow> 'v \<Rightarrow> ('k \<rightharpoonup> 'v) \<Rightarrow> 'k \<rightharpoonup> 'v" where
  "emplace k v m = (case m k of None \<Rightarrow> m(k \<mapsto> v) | Some _ \<Rightarrow> m)"

fun load_models :: "(string \<Rightarrow> 'm outcome) \<Rightarrow> ('m \<Rightarrow> string) \<Rightarrow> string list \<Rightarrow> 'm model_map \<Rightarrow> 'm model_map outcome" where
  "load_models Read language [] models = Ret models"
| "load_models Read language (path # paths) models =
     obind (Read path) (\<lambda>model. load_models Read language paths (emplace (generic_id (language model)) model models))"

definition SpeechServerInfo ::
    "(string \<Rightarrow> string option) \<Rightarrow> (string \<Rightarrow> 'm outcome) \<Rightarrow> ('m \<Rightarrow> string) \<Rightarrow> 'k server_options \<Rightarrow>
     ('k, 'm) server_info outcome" where
  "SpeechServerInfo files Read language opts =
     (let file = (\<lambda>name. if use_tls opts then GetFileContents (files name) else Ret []) in
      obind (file (tls_server_cert_filename opts)) (\<lambda>cert.
      obind (file (tls_server_key_filename opts)) (\<lambda>key.
      obind (file (tls_ca_cert_filename opts)) (\<lambda>ca.
      omap (\<lambda>models. \<lparr>options = opts, tls_server_cert = cert, tls_server_key = key, tls_ca_cert = ca,
                     info_models = models\<rparr>)
        (if kaldi_models opts \<noteq> [] then
           load_models Read language (Split (kaldi_models opts) (CHR '','')) Map.empty
         else Ret Map.empty)))))"

datatype client_certificate =
    DONT_REQUEST_CLIENT_CERTIFICATE
  | REQUEST_AND_REQUIRE_CLIENT_CERTIFICATE_AND_VERIFY

datatype credentials =
    Insecure
  | Ssl (private_key: string) (cert_chain: string) (client_certificate: client_certificate)
      (pem_root_certs: string)

definition CreateSpeechServerCredentials :: "('k, 'm) server_info \<Rightarrow> credentials outcome" where
  "CreateSpeechServerCredentials info =
     (if use_tls (options info) then
        if tls_server_key info = [] \<or> tls_server_cert info = [] then Fault Assertion_failed
        else Ret (Ssl (tls_server_key info) (tls_server_cert info)
          (if tls_require_client_cert (options info)
           then REQUEST_AND_REQUIRE_CLIENT_CERTIFICATE_AND_VERIFY else DONT_REQUEST_CLIENT_CERTIFICATE)
          (if tls_ca_cert info \<noteq> [] then tls_ca_cert info else []))
      else Ret Insecure)"

section \<open>SpeechService\<close>

text \<open>\<open>SpeechService\<close> of \<open>src/api/services.h\<close> as far as its models go.\<close>

record 'm speech_service =
  service_models :: "'m model_map"

definition SpeechService_RegisterModel :: "model_id \<Rightarrow> 'm \<Rightarrow> 'm speech_service \<Rightarrow> 'm speech_service" where
  "SpeechService_RegisterModel mid model s = s\<lparr>service_models := (service_models s)(mid \<mapsto> model)\<rparr>"

interpretation service_registry: model_registry service_models SpeechService_RegisterModel
  by unfold_locales (simp add: SpeechService_RegisterModel_def)

section \<open>SpeechServer\<close>

text \<open>
  The proxy service for Google's API only holds a pointer to the speech service, its number in the
  list \<open>services_\<close>. What gRPC's \<open>BuildAndStart\<close> returns, null when it fails, is the parameter \<open>build\<close>.
\<close>

datatype 'm service = Google_cloud_proxy nat | Speech_service "'m speech_service"

record ('k, 'm, 'r) speech_server =
  server_models :: "'m model_map"
  server_info :: "('k, 'm) server_info"
  services :: "'m service list"
  rpc_server :: "'r option"

text \<open>Registering after \<open>Start\<close> logs a warning.\<close>

definition SpeechServer_RegisterModel ::
    "model_id \<Rightarrow> 'm \<Rightarrow> ('k, 'm, 'r) speech_server \<Rightarrow> ('k, 'm, 'r) speech_server" where
  "SpeechServer_RegisterModel mid model s = s\<lparr>server_models := (server_models s)(mid \<mapsto> model)\<rparr>"

definition SpeechServer_RegisterModel_default ::
    "('m \<Rightarrow> string) \<Rightarrow> 'm \<Rightarrow> ('k, 'm, 'r) speech_server \<Rightarrow> ('k, 'm, 'r) speech_server" where
  "SpeechServer_RegisterModel_default language model s =
     SpeechServer_RegisterModel (generic_id (language model)) model s"

interpretation server_registry: model_registry server_models SpeechServer_RegisterModel
  by unfold_locales (simp add: SpeechServer_RegisterModel_def)

definition SpeechServer ::
    "('m model_map \<Rightarrow> (model_id \<times> 'm) list) \<Rightarrow> ('k, 'm) server_info \<Rightarrow> ('k, 'm, 'r) speech_server" where
  "SpeechServer entries info =
     foldl (\<lambda>s (mid, model). SpeechServer_RegisterModel mid model s)
       \<lparr>server_models = Map.empty, server_info = info, services = [], rpc_server = None\<rparr>
       (entries (info_models info))"

definition Start ::
    "('m model_map \<Rightarrow> (model_id \<times> 'm) list) \<Rightarrow> (string \<Rightarrow> credentials \<Rightarrow> 'm service list \<Rightarrow> 'r option) \<Rightarrow>
     ('k, 'm, 'r) speech_server \<Rightarrow> ('k, 'm, 'r) speech_server outcome" where
  "Start entries build s =
     (let service = foldl (\<lambda>v (mid, model). SpeechService_RegisterModel mid model v)
            \<lparr>service_models = Map.empty\<rparr> (entries (server_models s));
          all = services s @ [Google_cloud_proxy (length (services s) + 1), Speech_service service]
      in omap (\<lambda>creds. s\<lparr>services := all,
                rpc_server := build (listen_address (options (server_info s))) creds all\<rparr>)
           (CreateSpeechServerCredentials (server_info s)))"

text \<open>\<open>Wait\<close> and \<open>Shutdown\<close> call a method of the server that \<open>Start\<close> stored.\<close>

definition call_server :: "('r \<Rightarrow> 'r) \<Rightarrow> ('k, 'm, 'r) speech_server \<Rightarrow> ('k, 'm, 'r) speech_server outcome" where
  "call_server method s =
     (case rpc_server s of None \<Rightarrow> Fault Null_dereference | Some r \<Rightarrow> Ret (s\<lparr>rpc_server := Some (method r)\<rparr>))"

definition Wait :: "('r \<Rightarrow> 'r) \<Rightarrow> ('k, 'm, 'r) speech_server \<Rightarrow> ('k, 'm, 'r) speech_server outcome" where
  "Wait wait s = call_server wait s"

definition Shutdown :: "('r \<Rightarrow> 'r) \<Rightarrow> ('k, 'm, 'r) speech_server \<Rightarrow> ('k, 'm, 'r) speech_server outcome" where
  "Shutdown shutdown s = call_server shutdown s"

section \<open>Properties\<close>

lemma emplace_conv: "emplace k v m = [k \<mapsto> v] ++ m"
  by (auto simp: emplace_def map_add_def fun_eq_iff split: option.split)

lemma load_models_Ret:
  "load_models Read language paths models = Ret models' \<longleftrightarrow>
     (\<exists>ms. otraverse Read paths = Ret ms \<and>
        models' = map_of (map (\<lambda>m. (generic_id (language m), m)) ms) ++ models)"
proof (induction paths arbitrary: models)
  case (Cons path paths)
  have "map_of (map (\<lambda>m. (generic_id (language m), m)) ms) ++ emplace (generic_id (language model)) model models =
      map_of (map (\<lambda>m. (generic_id (language m), m)) (model # ms)) ++ models" for model ms
    by (auto simp: emplace_conv map_add_def fun_eq_iff split: option.split)
  then show ?case by (simp add: outcome_simps Cons.IH del: map_of.simps list.map) blast
qed auto

lemma register_all_conv:
  "foldl (\<lambda>v (i, model). SpeechService_RegisterModel i model v) v xs = service_registry.register_all xs v"
  "foldl (\<lambda>s (i, model). SpeechServer_RegisterModel i model s) s xs = server_registry.register_all xs s"
  by (simp_all add: service_registry.register_all_def server_registry.register_all_def)

lemma register_all_frame:
  "services (server_registry.register_all xs s) = services s"
  "server_info (server_registry.register_all xs s) = server_info s"
  by (induction xs arbitrary: s) (auto simp: server_registry.register_all_def SpeechServer_RegisterModel_def)

lemma info_models_loaded:
  assumes "SpeechServerInfo files Read language opts = Ret info"
  shows "\<exists>ms. (if kaldi_models opts = [] then ms = []
       else otraverse Read (Split (kaldi_models opts) (CHR '','')) = Ret ms) \<and>
     info_models info = map_of (map (\<lambda>m. (generic_id (language m), m)) ms)"
  using assms by (auto simp: SpeechServerInfo_def Let_def outcome_simps load_models_Ret split: if_split_asm)

lemma Start_serves:
  fixes info :: "('k, 'm) server_info" and s :: "('k, 'm, 'r) speech_server"
  assumes "SpeechServerInfo files Read language opts = Ret info" "entries_of entries (info_models info)"
    and "Start entries build (SpeechServer entries info) = Ret s"
  shows "\<exists>v ms. services s = [Google_cloud_proxy 1, Speech_service v] \<and>
    (if kaldi_models opts = [] then ms = []
     else otraverse Read (Split (kaldi_models opts) (CHR '','')) = Ret ms) \<and>
    service_models v = map_of (map (\<lambda>m. (generic_id (language m), m)) ms) \<and>
    services (SpeechServer_RegisterModel i m s) = services s"
proof -
  define s0 :: "('k, 'm, 'r) speech_server" where "s0 = SpeechServer entries info"
  obtain ms where ms: "if kaldi_models opts = [] then ms = []
       else otraverse Read (Split (kaldi_models opts) (CHR '','')) = Ret ms"
     "info_models info = map_of (map (\<lambda>m. (generic_id (language m), m)) ms)"
    using info_models_loaded [OF assms(1)] by blast
  have models: "server_models s0 = info_models info"
    by (simp add: s0_def SpeechServer_def register_all_conv server_registry.copy_models [OF assms(2)])
  have "services s0 = []" by (simp add: s0_def SpeechServer_def register_all_conv register_all_frame)
  then have "services s = [Google_cloud_proxy 1, Speech_service
      (service_registry.register_all (entries (info_models info)) \<lparr>service_models = Map.empty\<rparr>)]"
    using assms(3) unfolding s0_def [symmetric] by (auto simp: Start_def Let_def outcome_simps register_all_conv models)
  moreover have "service_models (service_registry.register_all (entries (info_models info)) \<lparr>service_models = Map.empty\<rparr>)
      = info_models info"
    by (simp add: service_registry.copy_models [OF assms(2)])
  moreover have "services (SpeechServer_RegisterModel i m s) = services s"
    by (simp add: SpeechServer_RegisterModel_def)
  ultimately show ?thesis using ms
    by (intro exI [where x = "service_registry.register_all (entries (info_models info)) \<lparr>service_models = Map.empty\<rparr>"]
        exI [where x = ms]) auto
qed

lemma Start_builds:
  fixes info :: "('k, 'm) server_info" and s :: "('k, 'm, 'r) speech_server"
  assumes "SpeechServerInfo files Read language opts = Ret info"
    and "Start entries build (SpeechServer entries info) = Ret s"
  shows "\<exists>creds. rpc_server s = build (listen_address opts) creds (services s)"
proof -
  have "options info = opts" using assms(1) by (auto simp: SpeechServerInfo_def Let_def outcome_simps)
  moreover have "server_info (SpeechServer entries info :: ('k, 'm, 'r) speech_server) = info"
    by (simp add: SpeechServer_def register_all_conv register_all_frame)
  ultimately show ?thesis using assms(2) by (auto simp: Start_def Let_def outcome_simps)
qed

text \<open>
  C25. What a started server serves: the models of the directories listed in \<open>kaldi_models\<close>, each under
  its language and the name generic; of several models of one language the first in the list. The
  Google proxy forwards to this service. Registering models later does not change what is served.
\<close>

theorem Start_serves_models:
  fixes info :: "('k, 'm) server_info" and s :: "('k, 'm, 'r) speech_server"
  assumes "SpeechServerInfo files Read language opts = Ret info" "entries_of entries (info_models info)"
    and "Start entries build (SpeechServer entries info) = Ret s"
  shows "\<exists>v ms. services s = [Google_cloud_proxy 1, Speech_service v] \<and>
    (if kaldi_models opts = [] then ms = []
     else otraverse Read (Split (kaldi_models opts) (CHR '','')) = Ret ms) \<and>
    service_models v = map_of (map (\<lambda>m. (generic_id (language m), m)) ms) \<and>
    services (SpeechServer_RegisterModel i m s) = services s"
  using assms by (rule Start_serves)

text \<open>Models that are pairs of a language and a directory.\<close>

definition example_options :: "unit server_options" where
  "example_options = server_option_defaults ()\<lparr>kaldi_models := ''a,b''\<rparr>"

theorem Start_serves_models_witness:
  "\<exists>info s v. SpeechServerInfo (\<lambda>_. None) (\<lambda>path. Ret (''is'', path)) fst example_options = Ret info \<and>
     Start (\<lambda>_. [(generic_id ''is'', (''is'', ''a''))]) (\<lambda>_ _ _. Some ()) (SpeechServer (\<lambda>_. [(generic_id ''is'', (''is'', ''a''))]) info) = Ret s \<and>
     services s = [Google_cloud_proxy 1, Speech_service v] \<and>
     service_models v (generic_id ''is'') = Some (''is'', ''a'')"
proof -
  let ?entries = "\<lambda>_ :: (char list \<times> char list) model_map. [(generic_id ''is'', (''is'', ''a''))]"
  have split: "Split ''a,b'' (CHR '','') = [''a'', ''b'']" by code_simp
  have "\<exists>info. SpeechServerInfo (\<lambda>_. None) (\<lambda>path. Ret (''is'', path)) fst example_options = Ret info \<and>
      use_tls (options info) = False \<and> info_models info = [generic_id ''is'' \<mapsto> (''is'', ''a'')]"
    by (simp add: SpeechServerInfo_def example_options_def server_option_defaults_def split emplace_def)
  then obtain info where info: "SpeechServerInfo (\<lambda>_. None) (\<lambda>path. Ret (''is'', path)) fst example_options = Ret info"
    "use_tls (options info) = False" "info_models info = [generic_id ''is'' \<mapsto> (''is'', ''a'')]"
    by blast
  have entries: "entries_of ?entries (info_models info)" by (simp add: entries_of_def info(3))
  obtain s where s: "Start ?entries (\<lambda>_ _ _. Some ()) (SpeechServer ?entries info) = Ret s"
    using info(2) by (simp add: Start_def SpeechServer_def CreateSpeechServerCredentials_def Let_def SpeechServer_RegisterModel_def)
  from Start_serves_models [OF info(1) entries s, of "generic_id []" "([], [])"] obtain v ms where "services s = [Google_cloud_proxy 1, Speech_service v]"
    "otraverse (\<lambda>path. Ret (''is'', path)) (Split ''a,b'' (CHR '','')) = Ret ms"
    "service_models v = map_of (map (\<lambda>m. (generic_id (fst m), m)) ms)"
    by (auto simp: example_options_def)
  with info(1) s show ?thesis by (auto simp: split)
qed

text \<open>
  With TLS on, the server needs all three files, the certificate authority's included, although
  its own check asks for two and the credentials use the third only when it is not empty; and when
  the key or the certificate file is empty, creating the credentials fails an assertion. Otherwise
  the credentials hold the contents of these files.
\<close>

theorem tls_credentials:
  assumes "use_tls opts" "kaldi_models opts = []"
  shows "case (files (tls_server_cert_filename opts), files (tls_server_key_filename opts), files (tls_ca_cert_filename opts)) of
      (Some cert, Some key, Some ca) \<Rightarrow>
        obind (SpeechServerInfo files Read language opts) CreateSpeechServerCredentials =
          (if key = [] \<or> cert = [] then Fault Assertion_failed
           else Ret (Ssl key cert
             (if tls_require_client_cert opts then REQUEST_AND_REQUIRE_CLIENT_CERTIFICATE_AND_VERIFY
              else DONT_REQUEST_CLIENT_CERTIFICATE) ca))
    | _ \<Rightarrow> SpeechServerInfo files Read language opts = Throw Ios_failure"
  using assms by (auto simp: SpeechServerInfo_def GetFileContents_def CreateSpeechServerCredentials_def Let_def
      split: option.split)

theorem tls_credentials_witness:
  "SpeechServerInfo (\<lambda>name. if name = [] then None else Some name) (\<lambda>_. Throw Out_of_range) (\<lambda>_. [])
     (server_option_defaults ()\<lparr>use_tls := True, tls_server_cert_filename := ''c'', tls_server_key_filename := ''k''\<rparr>)
   = Throw Ios_failure"
  using tls_credentials [where files = "\<lambda>name. if name = [] then None else Some name"
      and opts = "server_option_defaults ()\<lparr>use_tls := True, tls_server_cert_filename := ''c'', tls_server_key_filename := ''k''\<rparr>"
      and Read = "\<lambda>_. Throw Out_of_range" and language = "\<lambda>_. []"]
  by (simp add: server_option_defaults_def)

end
