(* ===== verification/Recognizer.thy ===== *)
theory Recognizer
  imports Kaldi_Model Audio
begin

text \<open>
  \<open>src/recognizer.h\<close> and \<open>src/recognizer.cc\<close>. Kaldi's decoder, its feature pipeline and its lattices
  are the parameter record \<open>decoder_lib\<close>: \<open>'f\<close> is the state of the feature pipeline, \<open>'d\<close> of the
  decoder, \<open>'w\<close> of the silence weighting, \<open>'l\<close> a lattice of any kind, \<open>'a\<close> an adaptation state. What
  the code does with them, and everything it does with words, times and text, is written out.
\<close>

section \<open>End points\<close>

record endpoint_rule =
  must_contain_nonsilence :: bool
  min_trailing_silence :: fval
  max_relative_cost :: fval
  min_utterance_length :: fval

record endpoint_config =
  silence_phones :: string
  rule1 :: endpoint_rule
  rule2 :: endpoint_rule
  rule3 :: endpoint_rule
  rule4 :: endpoint_rule
  rule5 :: endpoint_rule

text \<open>The rules for a single utterance, from Kaldi's default configuration; rule 4 is changed twice.\<close>

definition single_utterance_config :: "endpoint_config \<Rightarrow> endpoint_config \<Rightarrow> endpoint_config" where
  "single_utterance_config defaults model_endpoint_config =
     (let conf = defaults\<lparr>silence_phones := silence_phones model_endpoint_config\<rparr>;
          conf = conf\<lparr>rule1 := \<lparr>must_contain_nonsilence = False, min_trailing_silence = Fin 10,
            max_relative_cost = Pos_inf, min_utterance_length = Fin 0\<rparr>\<rparr>;
          conf = conf\<lparr>rule2 := \<lparr>must_contain_nonsilence = True, min_trailing_silence = Fin (1 / 2),
            max_relative_cost = Fin 2, min_utterance_length = Fin 1\<rparr>\<rparr>;
          conf = conf\<lparr>rule3 := rule3 conf\<lparr>min_utterance_length := Pos_inf\<rparr>\<rparr>;
          conf = conf\<lparr>rule4 := rule4 conf\<lparr>min_utterance_length := Pos_inf\<rparr>\<rparr>
      in conf\<lparr>rule4 := rule4 conf\<lparr>min_utterance_length := Pos_inf\<rparr>\<rparr>)"

section \<open>The recognizer\<close>

record ('k, 'a, 'd, 'f, 'w, 'l) decoder_lib =
  new_pipeline :: "feature_info \<Rightarrow> 'f"
  AcceptWaveform :: "rat \<Rightarrow> waveform \<Rightarrow> 'f \<Rightarrow> 'f outcome"
  InputFinished :: "'f \<Rightarrow> 'f"
  pipeline_SetAdaptationState :: "'a \<Rightarrow> 'f \<Rightarrow> 'f"
  pipeline_GetAdaptationState :: "'f \<Rightarrow> 'a"
  NumFramesReady :: "'f \<Rightarrow> int"
  has_ivector :: "'f \<Rightarrow> bool"
  UpdateFrameWeights :: "(int \<times> rat) list \<Rightarrow> 'f \<Rightarrow> 'f"
  new_silence_weighting :: "feature_info \<Rightarrow> 'w"
  Active :: "'w \<Rightarrow> bool"
  ComputeCurrentTraceback :: "'d \<Rightarrow> 'w \<Rightarrow> 'w"
  GetDeltaWeights :: "int \<Rightarrow> int \<Rightarrow> 'w \<Rightarrow> (int \<times> rat) list"
  new_decoder :: "'d"
  AdvanceDecoding :: "'f \<Rightarrow> 'd \<Rightarrow> 'f \<times> 'd"
  decoder_NumFramesDecoded :: "'d \<Rightarrow> int"
  FinalizeDecoding :: "'d \<Rightarrow> 'd"
  InitDecoding :: "int \<Rightarrow> 'd \<Rightarrow> 'd"
  EndpointDetected :: "endpoint_config option \<Rightarrow> 'd \<Rightarrow> bool"
  GetBestPath :: "bool \<Rightarrow> 'd \<Rightarrow> 'l"
  GetLattice :: "bool \<Rightarrow> 'd \<Rightarrow> 'l"
  ComposeConstArpa :: "'k \<Rightarrow> 'l \<Rightarrow> 'l"
  ConvertLattice :: "'l \<Rightarrow> 'l"
  InvertLattice :: "'l \<Rightarrow> 'l"
  DeterminizeLattice :: "'l \<Rightarrow> 'l"
  ShortestPaths :: "int \<Rightarrow> 'l \<Rightarrow> 'l"
  ConvertNbestToVector :: "'l \<Rightarrow> 'l list"
  NbestAsFsts :: "int \<Rightarrow> 'l \<Rightarrow> 'l list"
  RmEpsilonLattice :: "'l \<Rightarrow> 'l"
  WordAlignLattice :: "'l \<Rightarrow> bool \<times> 'l"
  NumStates :: "'l \<Rightarrow> int"
  WordAlignment :: "'l \<Rightarrow> int list \<times> int list \<times> int list"
  LinearSymbolSequence :: "'l \<Rightarrow> (int list \<times> rat) option"
  endpoint_defaults :: endpoint_config
  kaldi_Exp :: "rat \<Rightarrow> rat"

record ('a, 'd, 'f, 'w) recognizer =
  adaptation_state :: 'a
  feature_pipeline :: 'f
  silence_weighting :: 'w
  delta_weights :: "(int \<times> rat) list"
  decoder :: 'd
  recognizer_sample_rate :: rat
  left_context :: "aligned_word list"
  left_context_words :: "string list"
  frame_offset :: int

text \<open>\<open>TIRO_SPEECH_ERROR\<close> only logs, so an unknown feature type has the sample rate -1.\<close>

definition GetSampleRate :: "feature_info \<Rightarrow> rat" where
  "GetSampleRate info =
     (if feature_type info = ''mfcc'' then mfcc_samp_freq info
      else if feature_type info = ''plp'' then plp_samp_freq info
      else if feature_type info = ''fbank'' then fbank_samp_freq info
      else - 1)"

definition Recognizer ::
    "('k, 'a, 'd, 'f, 'w, 'l) decoder_lib \<Rightarrow> ('k, 'a, 'x, 't) kaldi_model \<Rightarrow> 'a \<Rightarrow> aligned_word list \<Rightarrow>
     ('a, 'd, 'f, 'w) recognizer" where
  "Recognizer lib model state context =
     \<lparr>adaptation_state = state, feature_pipeline = new_pipeline lib (model_feature_info model),
      silence_weighting = new_silence_weighting lib (model_feature_info model), delta_weights = [],
      decoder = new_decoder lib, recognizer_sample_rate = GetSampleRate (model_feature_info model),
      left_context = context, left_context_words = map aw_symbol context, frame_offset = 0\<rparr>"

definition Recognizer_fresh ::
    "('k, 'a, 'd, 'f, 'w, 'l) decoder_lib \<Rightarrow> ('k, 'a, 'x, 't) kaldi_model \<Rightarrow> ('a, 'd, 'f, 'w) recognizer" where
  "Recognizer_fresh lib model = Recognizer lib model (initial_adaptation_state model) []"

definition SetAdaptationState ::
    "('k, 'a, 'd, 'f, 'w, 'l) decoder_lib \<Rightarrow> 'a \<Rightarrow> ('a, 'd, 'f, 'w) recognizer \<Rightarrow> ('a, 'd, 'f, 'w) recognizer" where
  "SetAdaptationState lib state r = r\<lparr>feature_pipeline := pipeline_SetAdaptationState lib state (feature_pipeline r)\<rparr>"

definition GetAdaptationState ::
    "('k, 'a, 'd, 'f, 'w, 'l) decoder_lib \<Rightarrow> ('a, 'd, 'f, 'w) recognizer \<Rightarrow> 'a \<times> ('a, 'd, 'f, 'w) recognizer" where
  "GetAdaptationState lib r =
     (let state = pipeline_GetAdaptationState lib (feature_pipeline r) in (state, r\<lparr>adaptation_state := state\<rparr>))"

definition ReadAdaptationState ::
    "('k, 'a, 'd, 'f, 'w, 'l) decoder_lib \<Rightarrow> ('a \<Rightarrow> 'a outcome) \<Rightarrow> ('a, 'd, 'f, 'w) recognizer \<Rightarrow>
     ('a, 'd, 'f, 'w) recognizer outcome" where
  "ReadAdaptationState lib read_stream r =
     omap (\<lambda>state. SetAdaptationState lib state (r\<lparr>adaptation_state := state\<rparr>)) (read_stream (adaptation_state r))"

definition WriteAdaptationState ::
    "('k, 'a, 'd, 'f, 'w, 'l) decoder_lib \<Rightarrow> ('a \<Rightarrow> 'o) \<Rightarrow> ('a, 'd, 'f, 'w) recognizer \<Rightarrow>
     'o \<times> ('a, 'd, 'f, 'w) recognizer" where
  "WriteAdaptationState lib write_stream r =
     (let (state, r') = GetAdaptationState lib r in (write_stream state, r'))"

definition recognizer_Decode ::
    "('k, 'a, 'd, 'f, 'w, 'l) decoder_lib \<Rightarrow> ('k, 'a, 'x, 't) kaldi_model \<Rightarrow> waveform \<Rightarrow> bool \<Rightarrow>
     ('a, 'd, 'f, 'w) recognizer \<Rightarrow> ('a, 'd, 'f, 'w) recognizer outcome" where
  "recognizer_Decode lib model wave flush r =
     omap (\<lambda>f1.
       let f2 = (if flush then InputFinished lib f1 else f1);
           (w3, delta3, f3) =
             (if Active lib (silence_weighting r) \<and> has_ivector lib f2 then
                let w = ComputeCurrentTraceback lib (decoder r) (silence_weighting r);
                    delta = GetDeltaWeights lib (NumFramesReady lib f2)
                      (frame_offset r * frame_subsampling_factor (model_feature_info model)) w
                in (w, delta, UpdateFrameWeights lib delta f2)
              else (silence_weighting r, delta_weights r, f2));
           (f4, d4) = AdvanceDecoding lib f3 (decoder r)
       in r\<lparr>feature_pipeline := f4, silence_weighting := w3, delta_weights := delta3, decoder := d4\<rparr>)
     (AcceptWaveform lib (recognizer_sample_rate r) wave (feature_pipeline r))"

definition recognizer_NumFramesDecoded ::
    "('k, 'a, 'd, 'f, 'w, 'l) decoder_lib \<Rightarrow> ('a, 'd, 'f, 'w) recognizer \<Rightarrow> int" where
  "recognizer_NumFramesDecoded lib r = decoder_NumFramesDecoded lib (decoder r)"

text \<open>The model's own endpoint configuration is \<open>None\<close> for the library.\<close>

definition HasEndpoint ::
    "('k, 'a, 'd, 'f, 'w, 'l) decoder_lib \<Rightarrow> endpoint_config \<Rightarrow> bool \<Rightarrow> ('a, 'd, 'f, 'w) recognizer \<Rightarrow> bool" where
  "HasEndpoint lib model_endpoint_config one_utterance r =
     (if recognizer_NumFramesDecoded lib r > 0 then
        if one_utterance then
          EndpointDetected lib (Some (single_utterance_config (endpoint_defaults lib) model_endpoint_config)) (decoder r)
        else EndpointDetected lib None (decoder r)
      else False)"

definition Finalize ::
    "('k, 'a, 'd, 'f, 'w, 'l) decoder_lib \<Rightarrow> ('a, 'd, 'f, 'w) recognizer \<Rightarrow> ('a, 'd, 'f, 'w) recognizer" where
  "Finalize lib r = r\<lparr>decoder := FinalizeDecoding lib (decoder r)\<rparr>"

definition EndSegment ::
    "('k, 'a, 'd, 'f, 'w, 'l) decoder_lib \<Rightarrow> ('a, 'd, 'f, 'w) recognizer \<Rightarrow> ('a, 'd, 'f, 'w) recognizer" where
  "EndSegment lib r = r\<lparr>frame_offset := frame_offset r + decoder_NumFramesDecoded lib (decoder r)\<rparr>"

definition InitSegment ::
    "('k, 'a, 'd, 'f, 'w, 'l) decoder_lib \<Rightarrow> ('k, 'a, 'x, 't) kaldi_model \<Rightarrow> ('a, 'd, 'f, 'w) recognizer \<Rightarrow>
     ('a, 'd, 'f, 'w) recognizer" where
  "InitSegment lib model r = r\<lparr>decoder := InitDecoding lib (frame_offset r) (decoder r),
     silence_weighting := new_silence_weighting lib (model_feature_info model)\<rparr>"

section \<open>Times and words\<close>

text \<open>
  Frames to milliseconds: the products are \<open>float\<close> products of the converted integers, and the result
  is cut to an integer.
\<close>

definition FramesToMillis :: "feature_info \<Rightarrow> int \<Rightarrow> int" where
  "FramesToMillis info num_frames =
     trunc (f32 (f32 (f32 (f32 (of_int num_frames) * FrameShiftInSeconds info) * 1000) *
       f32 (of_int (frame_subsampling_factor info))))"

text \<open>A symbol table that failed to load is a null pointer.\<close>

definition find_symbol :: "('k, 'a, 'x, 't) kaldi_model \<Rightarrow> int \<Rightarrow> string outcome" where
  "find_symbol model w = (case word_syms model of None \<Rightarrow> Fault Null_dereference | Some syms \<Rightarrow> Ret (syms w))"

text \<open>The result is false when no word is left; \<open>given\<close> says that the output argument is not null.\<close>

definition GetWordAlignments ::
    "('k, 'a, 'd, 'f, 'w, 'l) decoder_lib \<Rightarrow> ('k, 'a, 'x, 't) kaldi_model \<Rightarrow> bool \<Rightarrow> 'l \<Rightarrow>
     (bool \<times> aligned_word list) outcome" where
  "GetWordAlignments lib model given lat =
     (if \<not> given then Fault Null_dereference
      else
        let clat = RmEpsilonLattice lib (ConvertLattice lib lat);
            (aligned, aligned_clat) = WordAlignLattice lib clat
        in if \<not> aligned \<and> NumStates lib aligned_clat = 0 then Ret (False, [])
           else
             let (word_ids, begin_times, lengths) = WordAlignment lib aligned_clat in
             omap (\<lambda>ws. let word_alignments = concat ws in (0 < length word_alignments, word_alignments))
               (otraverse (\<lambda>i.
                  if word_ids ! i = 0 then Ret []
                  else
                    obind (idx_vec begin_times i) (\<lambda>b.
                    obind (idx_vec lengths i) (\<lambda>l.
                    omap (\<lambda>sym. [\<lparr>aw_start_time = FramesToMillis (model_feature_info model) b,
                                  aw_duration = FramesToMillis (model_feature_info model) l, aw_symbol = sym\<rparr>])
                      (find_symbol model (word_ids ! i)))))
                 [0..<length word_ids]))"

definition GetLinearSymbolSequenceString ::
    "('k, 'a, 'd, 'f, 'w, 'l) decoder_lib \<Rightarrow> ('k, 'a, 'x, 't) kaldi_model \<Rightarrow> 'l \<Rightarrow> string option outcome" where
  "GetLinearSymbolSequenceString lib model lat =
     (case LinearSymbolSequence lib lat of
        None \<Rightarrow> Ret None
      | Some (word_ids, cost) \<Rightarrow>
          omap (\<lambda>syms. Some (concat (map (\<lambda>s. s @ '' '') syms))) (otraverse (find_symbol model) word_ids))"

definition GetBestHypothesis ::
    "('k, 'a, 'd, 'f, 'w, 'l) decoder_lib \<Rightarrow> ('k, 'a, 'x, 't) kaldi_model \<Rightarrow> bool \<Rightarrow>
     ('a, 'd, 'f, 'w) recognizer \<Rightarrow> string outcome" where
  "GetBestHypothesis lib model end_of_utt r =
     omap (\<lambda>s. case s of None \<Rightarrow> [] | Some hyp \<Rightarrow> hyp)
       (GetLinearSymbolSequenceString lib model (GetBestPath lib end_of_utt (decoder r)))"

section \<open>Alternatives\<close>

definition RescoreLattice :: "('k, 'a, 'd, 'f, 'w, 'l) decoder_lib \<Rightarrow> 'k \<Rightarrow> 'l \<Rightarrow> 'l" where
  "RescoreLattice lib arpa clat =
     (let composed_lat = ConvertLattice lib (ComposeConstArpa lib arpa clat)
      in DeterminizeLattice lib (InvertLattice lib composed_lat))"

definition GetShortestPaths ::
    "('k, 'a, 'd, 'f, 'w, 'l) decoder_lib \<Rightarrow> ('k, 'a, 'x, 't) kaldi_model \<Rightarrow> int \<Rightarrow> bool \<Rightarrow> bool \<Rightarrow>
     ('a, 'd, 'f, 'w) recognizer \<Rightarrow> 'l list outcome" where
  "GetShortestPaths lib model n_max end_of_utt constarpa_rescoring r =
     (if \<not> n_max > 0 then Fault Assertion_failed
      else if decoder_NumFramesDecoded lib (decoder r) = 0 then Ret []
      else
        let clat = GetLattice lib end_of_utt (decoder r);
            clat = (case const_arpa_lm model of
                Some arpa \<Rightarrow> if constarpa_rescoring then RescoreLattice lib arpa clat else clat
              | None \<Rightarrow> clat)
        in Ret (ConvertNbestToVector lib (ShortestPaths lib n_max (ConvertLattice lib clat))))"

text \<open>The loop over the n-best paths: the sentences and costs of the linear ones.\<close>

fun nbest_sentences ::
    "('k, 'a, 'd, 'f, 'w, 'l) decoder_lib \<Rightarrow> ('k, 'a, 'x, 't) kaldi_model \<Rightarrow> 'l list \<Rightarrow>
     (string \<times> rat) list outcome" where
  "nbest_sentences lib model [] = Ret []"
| "nbest_sentences lib model (lat # lats) =
     (case LinearSymbolSequence lib lat of
        None \<Rightarrow> nbest_sentences lib model lats
      | Some (word_ids, cost) \<Rightarrow>
          obind (otraverse (find_symbol model) (filter (\<lambda>w. w \<noteq> 0) word_ids)) (\<lambda>syms.
          omap ((#) (concat (map (\<lambda>s. s @ '' '') syms), f32 cost)) (nbest_sentences lib model lats)))"

definition GetNbestWithConf ::
    "('k, 'a, 'd, 'f, 'w, 'l) decoder_lib \<Rightarrow> ('k, 'a, 'x, 't) kaldi_model \<Rightarrow> 'l \<Rightarrow> int \<Rightarrow> (string \<times> rat) list \<Rightarrow>
     (bool \<times> (string \<times> rat) list) outcome" where
  "GetNbestWithConf lib model clat n nbest_with_conf =
     (let nbest_lats = NbestAsFsts lib n (ConvertLattice lib clat) in
      if nbest_lats = [] then Ret (False, nbest_with_conf)
      else omap (\<lambda>found.
        let costs = map snd found;
            nbest = nbest_with_conf @ map (\<lambda>(sentence, cost). (sentence, 0)) found
        in if length costs > 1 then
             (True, nbest[0 := (fst (nbest ! 0), f32 (1 - kaldi_Exp lib (- f32 (costs ! 1 - costs ! 0))))])
           else if length costs = 0 then (False, nbest)
           else (True, nbest[0 := (fst (nbest ! 0), 1)]))
        (nbest_sentences lib model nbest_lats))"

section \<open>GetResults\<close>

text \<open>What the formatter and the punctuator need besides the model: OpenFst and ICU.\<close>

record 't text_lib =
  text_fst :: "'t fst_ops"
  text_minmax :: minmax
  text_bad_cast :: "int outcome"
  text_icu :: icu

definition format_best ::
    "'t text_lib \<Rightarrow> ('k, 'a, 'x, 't) kaldi_model \<Rightarrow> aligned_word list \<Rightarrow> aligned_word list outcome" where
  "format_best tx model best_aligned =
     (case model_formatter model of
        None \<Rightarrow> Ret best_aligned
      | Some rewrite_fst \<Rightarrow> FormatWords (text_fst tx) (text_minmax tx) (text_bad_cast tx) rewrite_fst best_aligned)"

definition punctuate_best ::
    "'t text_lib \<Rightarrow> punctuator \<Rightarrow> bool \<Rightarrow> aligned_word list \<Rightarrow> aligned_word list \<Rightarrow>
     (string list \<times> aligned_word list) outcome" where
  "punctuate_best tx p end_of_utt context best_aligned =
     obind (PunctuateWithContext (text_icu tx) p (map aw_symbol best_aligned) (map aw_symbol context) True)
       (\<lambda>first_word_symbols.
     obind (if end_of_utt \<and> length context = 0 then
              omap (\<lambda>w. first_word_symbols[0 := Capitalize (text_icu tx) w]) (at_vec first_word_symbols 0)
            else Ret first_word_symbols) (\<lambda>first_word_symbols.
     omap (\<lambda>ws. (first_word_symbols, map2 (\<lambda>ali w. ali\<lparr>aw_symbol := w\<rparr>) best_aligned ws))
       (otraverse (idx_vec first_word_symbols) [0..<length best_aligned])))"

fun other_transcripts ::
    "('k, 'a, 'd, 'f, 'w, 'l) decoder_lib \<Rightarrow> ('k, 'a, 'x, 't) kaldi_model \<Rightarrow> 'l list \<Rightarrow> string list \<Rightarrow>
     (bool \<times> string list) outcome" where
  "other_transcripts lib model [] transcripts = Ret (True, transcripts)"
| "other_transcripts lib model (lat # lats) transcripts =
     (case LinearSymbolSequence lib lat of
        None \<Rightarrow> Ret (False, transcripts)
      | Some (word_ids, cost) \<Rightarrow>
          obind (otraverse (find_symbol model) (filter (\<lambda>w. w \<noteq> 0) word_ids)) (\<lambda>word_symbols.
          other_transcripts lib model lats (transcripts @ [Join word_symbols '' ''])))"

text \<open>The result: the value, the best alignment and the transcripts, with the new recognizer.\<close>

definition GetResults ::
    "('k, 'a, 'd, 'f, 'w, 'l) decoder_lib \<Rightarrow> 't text_lib \<Rightarrow> ('k, 'a, 'x, 't) kaldi_model \<Rightarrow> int \<Rightarrow> bool \<Rightarrow> bool \<Rightarrow>
     bool \<Rightarrow> ('a, 'd, 'f, 'w) recognizer \<Rightarrow>
     ((bool \<times> aligned_word list \<times> string list) \<times> ('a, 'd, 'f, 'w) recognizer) outcome" where
  "GetResults lib tx model num_alternatives given end_of_utt punctuate r =
     (if \<not> num_alternatives > 0 then Fault Assertion_failed
      else if num_alternatives > 1 \<and> \<not> end_of_utt then Fault Assertion_failed
      else
        obind (if num_alternatives > 1 \<or> const_arpa_lm model \<noteq> None
               then GetShortestPaths lib model num_alternatives end_of_utt True r
               else Ret [GetBestPath lib end_of_utt (decoder r)]) (\<lambda>lats.
        case lats of
          [] \<Rightarrow> Ret ((False, [], []), r)
        | lat # rest \<Rightarrow>
            obind (GetWordAlignments lib model given lat) (\<lambda>(aligned, best_aligned).
            if \<not> aligned then Ret ((False, best_aligned, []), r)
            else
              obind (format_best tx model best_aligned) (\<lambda>best_aligned.
              obind (case model_punctuator model of
                  Some p \<Rightarrow>
                    if punctuate then punctuate_best tx p end_of_utt (left_context r) best_aligned
                    else Ret (map aw_symbol best_aligned, best_aligned)
                | None \<Rightarrow> Ret (map aw_symbol best_aligned, best_aligned)) (\<lambda>(first_word_symbols, best_aligned).
              let r' = (if punctuate \<and> model_punctuator model \<noteq> None \<and> end_of_utt \<and> best_aligned \<noteq> []
                        then r\<lparr>left_context := best_aligned\<rparr> else r)
              in omap (\<lambda>(found, transcripts). ((found, best_aligned, transcripts), r'))
                   (other_transcripts lib model rest [Join first_word_symbols '' '']))))))"

definition GetLeftContext :: "('a, 'd, 'f, 'w) recognizer \<Rightarrow> aligned_word list" where
  "GetLeftContext r = left_context r"

section \<open>Properties\<close>

lemma otraverse_idx: "otraverse (idx_vec xs) [0..<n] = Ret ys \<Longrightarrow> n \<le> length xs \<and> ys = take n xs"
proof (induction n arbitrary: ys)
  case (Suc n)
  have split: "otraverse f (as @ bs) = obind (otraverse f as) (\<lambda>ys. omap ((@) ys) (otraverse f bs))"
    for f :: "nat \<Rightarrow> 'a outcome" and as bs
  proof (induction as)
    case (Cons a as)
    then show ?case by (cases "f a"; cases "otraverse f as"; cases "otraverse f bs") simp_all
  qed (cases "otraverse f bs"; simp)
  from Suc.prems obtain zs where "otraverse (idx_vec xs) [0..<n] = Ret zs" "n < length xs" "ys = zs @ [xs ! n]"
    by (auto simp: split outcome_simps)
  with Suc.IH [of zs] show ?case by (simp add: take_Suc_conv_app_nth)
qed simp

lemma map_symbol_map2:
  "length ws = length alis \<Longrightarrow> map aw_symbol (map2 (\<lambda>ali w. ali\<lparr>aw_symbol := w\<rparr>) alis ws) = ws"
  by (induction alis ws rule: list_induct2') simp_all

lemma punctuate_best_symbols:
  assumes "punctuate_best tx p fin ctx alis = Ret (symbols, best)"
  shows "map aw_symbol best = symbols \<and> length best = length alis"
proof -
  from assms obtain ws ws' where ws:
    "PunctuateWithContext (text_icu tx) p (map aw_symbol alis) (map aw_symbol ctx) True = Ret ws"
    "length symbols = length ws" "otraverse (idx_vec symbols) [0..<length alis] = Ret ws'"
    "best = map2 (\<lambda>ali w. ali\<lparr>aw_symbol := w\<rparr>) alis ws'"
    unfolding punctuate_best_def by (auto simp: outcome_simps split: if_splits)
  then have "length symbols = length alis" using PunctuateWithContext_length by fastforce
  with ws(3,4) show ?thesis by (metis otraverse_idx map_symbol_map2 take_all_iff order_refl length_map)
qed

lemma other_transcripts_extend:
  "other_transcripts lib model lats ts = Ret (found, out) \<Longrightarrow>
     \<exists>more. out = ts @ more \<and> length more \<le> length lats \<and> (found \<longrightarrow> length more = length lats)"
proof (induction lats arbitrary: ts)
  case (Cons lat lats)
  show ?case
  proof (cases "LinearSymbolSequence lib lat")
    case (Some p)
    with Cons.prems obtain syms where
      "other_transcripts lib model lats (ts @ [Join syms '' '']) = Ret (found, out)"
      by (cases p) (auto simp: outcome_simps)
    from Cons.IH [OF this] show ?thesis by auto
  qed (use Cons.prems in auto)
qed auto

lemma GetWordAlignments_False:
  "GetWordAlignments lib model given lat = Ret (aligned, alis) \<Longrightarrow> aligned \<longleftrightarrow> alis \<noteq> []"
  unfolding GetWordAlignments_def Let_def
  by (auto simp: outcome_simps split: if_splits prod.splits)

lemma GetResults_cases:
  assumes "GetResults lib tx model n given fin punct r = Ret ((found, best, ts), r')"
  obtains lats where "0 < n"
    "(if n > 1 \<or> const_arpa_lm model \<noteq> None then GetShortestPaths lib model n fin True r
      else Ret [GetBestPath lib fin (decoder r)]) = Ret lats"
    "if ts = [] then \<not> found \<and> best = [] \<and> r' = r
     else ts ! 0 = Join (map aw_symbol best) '' '' \<and> length ts \<le> length lats \<and>
       r' = (if punct \<and> model_punctuator model \<noteq> None \<and> fin \<and> best \<noteq> [] then r\<lparr>left_context := best\<rparr> else r)"
proof -
  from assms have n: "0 < n" by (auto simp: GetResults_def split: if_splits)
  from assms obtain lats where lats:
    "(if n > 1 \<or> const_arpa_lm model \<noteq> None then GetShortestPaths lib model n fin True r
      else Ret [GetBestPath lib fin (decoder r)]) = Ret lats"
    by (auto simp: GetResults_def outcome_simps split: if_splits)
  show thesis
  proof (cases lats)
    case Nil
    with assms lats n that show ?thesis by (auto simp: GetResults_def split: if_splits)
  next
    case (Cons lat rest)
    with assms lats obtain aligned alis where alis: "GetWordAlignments lib model given lat = Ret (aligned, alis)"
      by (auto simp: GetResults_def outcome_simps split: if_splits)
    show ?thesis
    proof (cases aligned)
      case False
      with assms lats alis Cons n GetWordAlignments_False [OF alis] that show ?thesis
        by (auto simp: GetResults_def outcome_simps split: if_splits)
    next
      case True
      with assms lats alis Cons obtain alis' symbols where res:
        "format_best tx model alis = Ret alis'"
        "(case model_punctuator model of Some p \<Rightarrow>
            if punct then punctuate_best tx p fin (left_context r) alis' else Ret (map aw_symbol alis', alis')
          | None \<Rightarrow> Ret (map aw_symbol alis', alis')) = Ret (symbols, best)"
        "other_transcripts lib model rest [Join symbols '' ''] = Ret (found, ts)"
        "r' = (if punct \<and> model_punctuator model \<noteq> None \<and> fin \<and> best \<noteq> [] then r\<lparr>left_context := best\<rparr> else r)"
        by (auto simp: GetResults_def outcome_simps Let_def split: if_splits)
      have "map aw_symbol best = symbols"
        using res(2) by (auto split: option.splits if_splits dest!: punctuate_best_symbols)
      moreover obtain more where "ts = Join symbols '' '' # more" "length more \<le> length rest"
        using other_transcripts_extend [OF res(3)] by auto
      ultimately show ?thesis using res(4) lats n Cons by (intro that [of lats]) auto
    qed
  qed
qed

lemma GetResults_found:
  "GetResults lib tx model n given fin punct r = Ret ((True, best, ts), r') \<Longrightarrow> ts \<noteq> []"
  by (erule GetResults_cases) (auto split: if_split_asm)

lemma GetResults_facts:
  assumes "GetResults lib tx model n given fin punct r = Ret ((found, best, ts), r')"
    and "\<forall>m lat. length (ConvertNbestToVector lib (ShortestPaths lib m lat)) \<le> nat m"
  shows "(if ts = [] then \<not> found \<and> best = [] \<and> r' = r
          else ts ! 0 = Join (map aw_symbol best) '' '') \<and>
    length ts \<le> nat n \<and>
    r' = r\<lparr>left_context := left_context r'\<rparr> \<and>
    (left_context r' = (if fin \<and> punct \<and> model_punctuator model \<noteq> None \<and> best \<noteq> [] then best else left_context r))"
proof -
  from assms(1) obtain lats where lats: "0 < n"
    "(if n > 1 \<or> const_arpa_lm model \<noteq> None then GetShortestPaths lib model n fin True r
      else Ret [GetBestPath lib fin (decoder r)]) = Ret lats"
    and res: "if ts = [] then \<not> found \<and> best = [] \<and> r' = r
     else ts ! 0 = Join (map aw_symbol best) '' '' \<and> length ts \<le> length lats \<and>
       r' = (if punct \<and> model_punctuator model \<noteq> None \<and> fin \<and> best \<noteq> [] then r\<lparr>left_context := best\<rparr> else r)"
    by (rule GetResults_cases)
  have "length lats \<le> nat n"
    using lats assms(2) by (auto simp: GetShortestPaths_def Let_def split: if_splits option.splits)
  with res show ?thesis by (auto split: if_split_asm)
qed


definition toy_decoder :: "(unit, unit, int, int, unit, int list) decoder_lib" where
  "toy_decoder = \<lparr>new_pipeline = \<lambda>_. 0, AcceptWaveform = \<lambda>_ wave f. Ret (f + int (length wave)),
     InputFinished = \<lambda>f. f, pipeline_SetAdaptationState = \<lambda>_ f. f, pipeline_GetAdaptationState = \<lambda>_. (),
     NumFramesReady = \<lambda>f. f, has_ivector = \<lambda>_. False, UpdateFrameWeights = \<lambda>_ f. f,
     new_silence_weighting = \<lambda>_. (), Active = \<lambda>_. False, ComputeCurrentTraceback = \<lambda>_ w. w,
     GetDeltaWeights = \<lambda>_ _ _. [], new_decoder = 0, AdvanceDecoding = \<lambda>f d. (0, d + f),
     decoder_NumFramesDecoded = \<lambda>d. d, FinalizeDecoding = \<lambda>d. d, InitDecoding = \<lambda>_ _. 0,
     EndpointDetected = \<lambda>_ d. 6 \<le> d, GetBestPath = \<lambda>_ d. [1, 2], GetLattice = \<lambda>_ d. [1, 2],
     ComposeConstArpa = \<lambda>_ l. l, ConvertLattice = \<lambda>l. l, InvertLattice = \<lambda>l. l, DeterminizeLattice = \<lambda>l. l,
     ShortestPaths = \<lambda>n l. take (nat n) l, ConvertNbestToVector = \<lambda>l. take (length l) [l, [2]],
     NbestAsFsts = \<lambda>n l. [l], RmEpsilonLattice = filter (\<lambda>w. w \<noteq> 0), WordAlignLattice = \<lambda>l. (True, l),
     NumStates = \<lambda>l. int (length l),
     WordAlignment = \<lambda>l. (l, map (\<lambda>i. 5 * int i) [0..<length l], map (\<lambda>_. 5) l),
     LinearSymbolSequence = \<lambda>l. Some (l, 1),
     endpoint_defaults = \<lparr>silence_phones = [], rule1 = \<lparr>must_contain_nonsilence = False, min_trailing_silence = Fin 5,
        max_relative_cost = Pos_inf, min_utterance_length = Fin 0\<rparr>,
       rule2 = \<lparr>must_contain_nonsilence = True, min_trailing_silence = Fin (1 / 2), max_relative_cost = Fin 2,
        min_utterance_length = Fin 0\<rparr>,
       rule3 = \<lparr>must_contain_nonsilence = True, min_trailing_silence = Fin 1, max_relative_cost = Fin 8,
        min_utterance_length = Fin 0\<rparr>,
       rule4 = \<lparr>must_contain_nonsilence = True, min_trailing_silence = Fin 2, max_relative_cost = Pos_inf,
        min_utterance_length = Fin 0\<rparr>,
       rule5 = \<lparr>must_contain_nonsilence = False, min_trailing_silence = Fin 0, max_relative_cost = Pos_inf,
        min_utterance_length = Fin 20\<rparr>\<rparr>,
     kaldi_Exp = \<lambda>x. x\<rparr>"

text \<open>Frames of 10 ms as \<open>float\<close> has them, three to a decoded frame.\<close>

definition toy_features :: feature_info where
  "toy_features = \<lparr>feature_type = ''mfcc'', mfcc_samp_freq = 16000, plp_samp_freq = 0, fbank_samp_freq = 0,
     FrameShiftInSeconds = f32 (1 / 100), frame_subsampling_factor = 3\<rparr>"

definition toy_model :: "(unit, unit, unit, unit) kaldi_model" where
  "toy_model = \<lparr>decoding_graph = (), word_syms = Some (\<lambda>w. if w = 1 then ''sem'' else ''betur''),
     word_boundary_info = (), model_feature_info = toy_features, initial_adaptation_state = (), acoustic_model = (),
     const_arpa_lm = None, model_punctuator = None, model_formatter = None, diarization_info = None,
     model_config = model_config_defaults ()\<rparr>"

definition toy_ops :: "unit fst_ops" where
  "toy_ops = \<lparr>Relabel = \<lambda>_ f. f, ArcSort_olabel = \<lambda>f. f, ArcSort_ilabel = \<lambda>f. f, ArcSort_timing = \<lambda>f. f,
     Compose = \<lambda>f g. f, Compose_timing = \<lambda>f g. f, ShortestPath = \<lambda>f. f, TopSort = \<lambda>f. f,
     StringMapCompile = \<lambda>_. None, Concat = \<lambda>f g. f, Closure_plus = \<lambda>f. f, RmEpsilon = \<lambda>f. f, Encode = \<lambda>f. f,
     Determinize = \<lambda>f. f, Minimize = \<lambda>f. f, Decode = \<lambda>f. f, RelabelPairs = \<lambda>_. [], LookAhead = \<lambda>f. f,
     tropical_One = ()\<rparr>"

definition toy_text :: "unit text_lib" where
  "toy_text = \<lparr>text_fst = toy_ops, text_minmax = sample_minmax, text_bad_cast = Ret 0, text_icu = ascii_icu\<rparr>"

text \<open>
  C39. The time of a frame number: the three \<open>float\<close> products are off by less than a part in four
  million, and the conversion to an integer cuts the rest, so the milliseconds are at most one below
  the exact time (up to the rounding).
\<close>

theorem FramesToMillis_bounds:
  assumes "0 \<le> n" "n < 2 ^ 24" "0 \<le> FrameShiftInSeconds info"
    and "0 \<le> frame_subsampling_factor info" "frame_subsampling_factor info < 2 ^ 24"
  defines "t \<equiv> of_int n * FrameShiftInSeconds info * 1000 * of_int (frame_subsampling_factor info)"
  shows "t - t / 2 ^ 22 - 1 < of_int (FramesToMillis info n) \<and>
    of_int (FramesToMillis info n) \<le> t + t / 2 ^ 22"
proof -
  let ?s = "FrameShiftInSeconds info" and ?k = "of_int (frame_subsampling_factor info) :: rat"
  let ?u = "1 / 2 ^ 24 :: rat"
  have exact: "f32 (of_int n) = of_int n" "f32 ?k = ?k"
    using assms(1-5) by (simp_all add: f32_of_int)
  have nn: "0 \<le> (of_int n :: rat)" "0 \<le> ?k" "0 \<le> t" using assms by simp_all
  have "of_int n * ?s * (1 * (1 - ?u)) \<le> f32 (of_int n * ?s) \<and> f32 (of_int n * ?s) \<le> of_int n * ?s * (1 * (1 + ?u))"
    by (rule f32_chain) (use nn assms(3) in simp_all)
  then have "of_int n * ?s * 1000 * (1 * (1 - ?u) * (1 - ?u)) \<le> f32 (f32 (of_int n * ?s) * 1000) \<and>
      f32 (f32 (of_int n * ?s) * 1000) \<le> of_int n * ?s * 1000 * (1 * (1 + ?u) * (1 + ?u))"
    by (intro f32_chain) (use nn assms(3) in simp_all)
  then have "t * (1 * (1 - ?u) * (1 - ?u) * (1 - ?u)) \<le> f32 (f32 (f32 (of_int n * ?s) * 1000) * ?k) \<and>
      f32 (f32 (f32 (of_int n * ?s) * 1000) * ?k) \<le> t * (1 * (1 + ?u) * (1 + ?u) * (1 + ?u))"
    unfolding t_def by (intro f32_chain) (use nn assms(3) in simp_all)
  moreover define y where "y = f32 (f32 (f32 (of_int n * ?s) * 1000) * ?k)"
  ultimately have y: "t * (1 * (1 - ?u) * (1 - ?u) * (1 - ?u)) \<le> y" "y \<le> t * (1 * (1 + ?u) * (1 + ?u) * (1 + ?u))"
    by simp_all
  have "t * (1 - 1 / 2 ^ 22) \<le> t * (1 * (1 - ?u) * (1 - ?u) * (1 - ?u))"
    "t * (1 * (1 + ?u) * (1 + ?u) * (1 + ?u)) \<le> t * (1 + 1 / 2 ^ 22)"
    by (rule mult_left_mono; use nn in simp)+
  with y have y': "t - t / 2 ^ 22 \<le> y" "y \<le> t + t / 2 ^ 22" by (simp_all add: algebra_simps)
  moreover have "0 \<le> t - t / 2 ^ 22" using nn by simp
  ultimately have "0 \<le> y" by linarith
  moreover have "FramesToMillis info n = trunc y"
    by (simp add: FramesToMillis_def exact y_def)
  ultimately have "FramesToMillis info n = \<lfloor>y\<rfloor>" by (simp add: trunc_def)
  with y' show ?thesis by linarith
qed

lemma toy_nbest: "length (ConvertNbestToVector toy_decoder (ShortestPaths toy_decoder m lat)) \<le> nat m"
  by (simp add: toy_decoder_def)

lemma toy_times: "FramesToMillis toy_features 0 = 0" "FramesToMillis toy_features 5 = 149"
  by (code_simp, code_simp)
lemma toy_alignment: "GetWordAlignments toy_decoder toy_model True [1, 2] = 
   Ret (True, [\<lparr>aw_start_time = 0, aw_duration = 149, aw_symbol = ''sem''\<rparr>,
          \<lparr>aw_start_time = 149, aw_duration = 149, aw_symbol = ''betur''\<rparr>])" 
  by (simp add: GetWordAlignments_def toy_decoder_def toy_model_def find_symbol_def idx_vec_def upt_rec toy_times)

lemma toy_paths: "GetShortestPaths toy_decoder toy_model 2 True True ((Recognizer_fresh toy_decoder toy_model)\<lparr>decoder := 6\<rparr>)
   = Ret [[1, 2], [2]]"
  by (simp add: GetShortestPaths_def toy_decoder_def toy_model_def)


theorem FramesToMillis_bounds_witness:
  "149 \<le> FramesToMillis toy_features 5 \<and> FramesToMillis toy_features 5 \<le> 150"
proof -
  have shift: "f32 (1 / 100) = 10737418 / 2 ^ 30" by code_simp
  show ?thesis
    using FramesToMillis_bounds [of 5 toy_features] by (simp add: toy_features_def shift)
qed

text \<open>Five frames of three times 10 ms are reported as 149 ms.\<close>

lemma five_frames: "FramesToMillis toy_features 5 = 149"
  by (rule toy_times)
lemma toy_model_fields: "model_formatter toy_model = None" "model_punctuator toy_model = None" "const_arpa_lm toy_model = None"
  "diarization_info toy_model = None" "model_feature_info toy_model = toy_features" "initial_adaptation_state toy_model = ()"
  by (simp_all add: toy_model_def)

lemma toy_best: "GetResults toy_decoder toy_text toy_model 1 True fin False r =
   Ret ((True, [\<lparr>aw_start_time = 0, aw_duration = 149, aw_symbol = ''sem''\<rparr>,
          \<lparr>aw_start_time = 149, aw_duration = 149, aw_symbol = ''betur''\<rparr>], [''sem betur'']), r)"
proof -
  have "GetBestPath toy_decoder = (\<lambda>_ _. [1, 2])" by (simp add: toy_decoder_def)
  then show ?thesis
    by (simp add: GetResults_def format_best_def toy_alignment toy_model_fields)
qed

lemma toy_Decode: "recognizer_Decode toy_decoder toy_model wave flush r =
   Ret (r\<lparr>feature_pipeline := 0, decoder := decoder r + (feature_pipeline r + int (length wave))\<rparr>)"
  by (simp add: recognizer_Decode_def toy_decoder_def Let_def)

lemma toy_frames: "recognizer_NumFramesDecoded toy_decoder r = decoder r"
  "HasEndpoint toy_decoder conf False r \<longleftrightarrow> 6 \<le> decoder r"
  "Finalize toy_decoder r = r" "GetAdaptationState toy_decoder r = ((), r)"
  by (simp_all add: HasEndpoint_def recognizer_NumFramesDecoded_def Finalize_def GetAdaptationState_def toy_decoder_def)

end
