(* ===== verification/Recognize_Service.thy ===== *)
theory Recognize_Service
  imports Recognizer Validation Uri_Source Diarization
begin

text \<open>
  The unary call of \<open>src/api/services.cc\<close>: \<open>SpeechService::Recognize\<close>, the conversions of words and
  encodings, and the speaker tags. The libraries are the fields of \<open>recognize_env\<close>; a call that
  needs more loop rounds than its fuel has the value \<open>None\<close>.
\<close>

section \<open>Conversions\<close>

definition duration_of_millis :: "int \<Rightarrow> duration" where
  "duration_of_millis ms = \<lparr>seconds = cdiv ms 1000, nanos = Prelude.cmod ms 1000 * 1000000\<rparr>"

definition Convert_word :: "aligned_word \<Rightarrow> word_info" where
  "Convert_word aligned_word =
     \<lparr>word = aw_symbol aligned_word, start_time = duration_of_millis (aw_start_time aligned_word),
      end_time = duration_of_millis (aw_start_time aligned_word + aw_duration aligned_word), speaker_tag = 0\<rparr>"

definition Convert_encoding :: "proto_encoding \<Rightarrow> audio_encoding outcome" where
  "Convert_encoding external =
     (case external of
        ENCODING_UNSPECIFIED \<Rightarrow> Ret AE_UNSPECIFIED
      | FLAC \<Rightarrow> Ret AE_FLAC
      | LINEAR16 \<Rightarrow> Ret AE_LINEAR16
      | MP3 \<Rightarrow> Ret AE_MP3
      | Unknown_encoding _ \<Rightarrow> Throw (Runtime_error ''Unsupported encoding.''))"

section \<open>Speaker tags\<close>

text \<open>Frames to milliseconds: a \<open>float\<close> product, then a conversion to a 32-bit integer.\<close>

definition dia_frames_to_milli :: "rat \<Rightarrow> nat \<Rightarrow> int outcome" where
  "dia_frames_to_milli frame_shift_ms n =
     (let t = trunc (f32 (f32 (of_nat n) * frame_shift_ms)) in
      if int32_range t then Ret t else Fault Invalid_conversion)"

definition millis_of_duration :: "duration \<Rightarrow> int" where
  "millis_of_duration d = to_int32 (seconds d * 1000 + cdiv (nanos d) 1000000)"

fun find_speaker :: "rat \<Rightarrow> int \<Rightarrow> diarization_segment list \<Rightarrow> int option outcome" where
  "find_speaker shift t [] = Ret None"
| "find_speaker shift t (seg # segs) =
     obind (dia_frames_to_milli shift (start_frame seg)) (\<lambda>start_frame_milli.
     obind (dia_frames_to_milli shift (end_frame seg)) (\<lambda>end_frame_milli.
     if start_frame_milli \<le> t \<and> t < end_frame_milli then Ret (Some (spk_id seg))
     else find_speaker shift t segs))"

definition TagSpeaker :: "rat \<Rightarrow> diarization_segment list \<Rightarrow> alternative \<Rightarrow> alternative outcome" where
  "TagSpeaker shift diarization_decisions alt =
     (if diarization_decisions = [] then Ret alt
      else omap (\<lambda>ws. alt\<lparr>words := ws\<rparr>)
        (otraverse (\<lambda>w. omap (\<lambda>spk. case spk of None \<Rightarrow> w | Some s \<Rightarrow> w\<lparr>speaker_tag := s\<rparr>)
           (find_speaker shift (millis_of_duration (start_time w)) diarization_decisions)) (words alt)))"

section \<open>The audio sources behind one interface\<close>

datatype 'v audio_source = Content_source content_source | Streaming_source "'v streaming_source"

record ('k, 'a, 'x, 't, 'd, 'f, 'w, 'l, 'v, 'o, 'p) recognize_env =
  env_decoder :: "('k, 'a, 'd, 'f, 'w, 'l) decoder_lib"
  env_text :: "'t text_lib"
  env_resampler :: resampler
  env_coded_bytes :: "audio_encoding \<Rightarrow> string \<Rightarrow> int \<Rightarrow> waveform outcome option"
  env_av :: "'v av_lib"
  env_strerror :: "int \<Rightarrow> string"
  env_url :: 'v
  env_sync :: "nat \<Rightarrow> nat \<Rightarrow> nat"
  env_diarization :: "'p diarization_lib"
  env_info :: "'x \<Rightarrow> 'p diarizer_info"
  env_in_segment :: "bool outcome"
  env_features :: "'x \<Rightarrow> 'o online_features"
  env_new_features :: "'x \<Rightarrow> 'o"
  env_frame_shift_ms :: "'x \<Rightarrow> rat"

text \<open>\<open>ContentAudioSource::Open\<close> does nothing.\<close>

fun src_Open ::
    "('k, 'a, 'x, 't, 'd, 'f, 'w, 'l, 'v, 'o, 'p) recognize_env \<Rightarrow> 'v audio_source \<Rightarrow> 'v audio_source outcome" where
  "src_Open env (Content_source s) = Ret (Content_source s)"
| "src_Open env (Streaming_source s) =
     omap Streaming_source (streaming_Open (env_av env) (env_strerror env) (env_url env) s)"

fun src_HasMoreChunks :: "'v audio_source \<Rightarrow> bool" where
  "src_HasMoreChunks (Content_source s) = content_HasMoreChunks s"
| "src_HasMoreChunks (Streaming_source s) = streaming_HasMoreChunks s"

fun src_NextChunk ::
    "('k, 'a, 'x, 't, 'd, 'f, 'w, 'l, 'v, 'o, 'p) recognize_env \<Rightarrow> nat \<Rightarrow> 'v audio_source \<Rightarrow>
     (waveform \<times> 'v audio_source) outcome option" where
  "src_NextChunk env fuel (Content_source s) =
     Some (omap (\<lambda>(c, s'). (c, Content_source s')) (content_NextChunk s))"
| "src_NextChunk env fuel (Streaming_source s) =
     map_option (omap (\<lambda>(c, s'). (c, Streaming_source s'))) (streaming_NextChunk (env_av env) (env_sync env) fuel s)"

definition open_audio ::
    "('k, 'a, 'x, 't, 'd, 'f, 'w, 'l, 'v, 'o, 'p) recognize_env \<Rightarrow> recognition_config \<Rightarrow> recognition_audio option \<Rightarrow>
     'v audio_source outcome option" where
  "open_audio env config audio =
     (case audio of
        Some (Content content) \<Rightarrow>
          fbind (Some (Convert_encoding (encoding config))) (\<lambda>enc.
          map_option (omap Content_source)
            (ContentAudioSource (env_coded_bytes env) (env_resampler env)
               \<lparr>info_type = KContent, info_encoding = enc, info_sample_rate_hertz = sample_rate_hertz config\<rparr>
               content (sample_rate_hertz config)))
      | Some (Uri uri) \<Rightarrow>
          fbind (Some (Convert_encoding (encoding config))) (\<lambda>enc.
          Some (case CreateAudioSourceFromUri
               \<lparr>info_type = KUri, info_encoding = enc, info_sample_rate_hertz = sample_rate_hertz config\<rparr> uri of
             None \<Rightarrow> Fault Null_dereference
           | Some s \<Rightarrow> Ret (Streaming_source s)))
      | _ \<Rightarrow> Some (Throw (Logic_error [])))"

section \<open>Decoding the audio\<close>

text \<open>
  One round of the loop \<open>while (audio_src->HasMoreChunks())\<close>, which the source has twice, with a
  diarizer and without; \<open>dia\<close> is the diarizer's feature state if there is one.
\<close>

definition decode_chunk ::
    "('k, 'a, 'x, 't, 'd, 'f, 'w, 'l, 'v, 'o, 'p) recognize_env \<Rightarrow> ('k, 'a, 'x, 't) kaldi_model \<Rightarrow> int \<Rightarrow>
     waveform \<Rightarrow> bool \<Rightarrow> ('a, 'd, 'f, 'w) recognizer \<times> ('x \<times> 'o) option \<Rightarrow>
     (('a, 'd, 'f, 'w) recognizer \<times> ('x \<times> 'o) option) outcome" where
  "decode_chunk env model rate chunk is_last st =
     (let (r, dia) = st in
      if 0 < length chunk then
        omap (\<lambda>r'. (r', map_option (\<lambda>(x, f). (x, diarizer_AcceptWaveform (env_features env x) (of_int rate) chunk f)) dia))
          (recognizer_Decode (env_decoder env) model chunk is_last r)
      else Ret st)"

fun read_chunks ::
    "('k, 'a, 'x, 't, 'd, 'f, 'w, 'l, 'v, 'o, 'p) recognize_env \<Rightarrow> nat \<Rightarrow> (waveform \<Rightarrow> bool \<Rightarrow> 'u \<Rightarrow> 'u outcome) \<Rightarrow>
     nat \<Rightarrow> 'v audio_source \<Rightarrow> 'u \<Rightarrow> 'u outcome option" where
  "read_chunks env fuel consume 0 s u = None"
| "read_chunks env fuel consume (Suc n) s u =
     (if src_HasMoreChunks s then
        fbind (src_NextChunk env fuel s) (\<lambda>(chunk, s').
        fbind (Some (consume chunk (\<not> src_HasMoreChunks s') u)) (\<lambda>u'.
        read_chunks env fuel consume n s' u'))
      else Some (Ret u))"

definition diarize ::
    "('k, 'a, 'x, 't, 'd, 'f, 'w, 'l, 'v, 'o, 'p) recognize_env \<Rightarrow> recognition_config \<Rightarrow> ('x \<times> 'o) option \<Rightarrow>
     diarization_segment list outcome" where
  "diarize env config dia =
     (case dia of
        None \<Rightarrow> Ret []
      | Some (x, f) \<Rightarrow>
          let f' = diarizer_InputFinished (env_features env x) f;
              speaker_count = (if min_speaker_count (diarization_config config) > 2
                then min_speaker_count (diarization_config config) else 2)
          in diarizer_Compute (env_diarization env) (env_info env x) (env_in_segment env) (env_features env x)
               f' speaker_count)"

section \<open>The response\<close>

type_synonym recognize_response = "alternative list list"

definition the_alternatives :: "recognition_config \<Rightarrow> int" where
  "the_alternatives config = (if max_alternatives config = 0 then 1 else max_alternatives config)"

definition plain_alternative :: "string \<Rightarrow> alternative" where
  "plain_alternative t = \<lparr>transcript = t, words = []\<rparr>"

definition something_bad :: status where
  "something_bad = error_status INTERNAL ''Something bad happened.''"

definition respond ::
    "('k, 'a, 'x, 't, 'd, 'f, 'w, 'l, 'v, 'o, 'p) recognize_env \<Rightarrow> ('k, 'a, 'x, 't) kaldi_model \<Rightarrow> recognition_config \<Rightarrow>
     diarization_segment list \<Rightarrow> aligned_word list \<Rightarrow> string list \<Rightarrow> (status \<times> recognize_response) outcome" where
  "respond env model config decisions first_alignments transcripts =
     (if transcripts = [] then Ret (something_bad, [])
      else if enable_word_time_offsets config then
        if first_alignments = [] then Ret (something_bad, [[]])
        else
          let first_alternative =
                \<lparr>transcript = transcripts ! 0, words = map Convert_word first_alignments\<rparr>
          in omap (\<lambda>alt. (status_OK, [alt # map plain_alternative (drop 1 transcripts)]))
               (case diarization_info model of
                  None \<Rightarrow> Ret first_alternative
                | Some x \<Rightarrow> TagSpeaker (env_frame_shift_ms env x) decisions first_alternative)
      else Ret (status_OK, [map plain_alternative transcripts]))"

definition finish_recognize ::
    "('k, 'a, 'x, 't, 'd, 'f, 'w, 'l, 'v, 'o, 'p) recognize_env \<Rightarrow> ('k, 'a, 'x, 't) kaldi_model \<Rightarrow> recognition_config \<Rightarrow>
     ('a, 'd, 'f, 'w) recognizer \<times> ('x \<times> 'o) option \<Rightarrow> (status \<times> recognize_response) outcome" where
  "finish_recognize env model config st =
     obind (diarize env config (snd st)) (\<lambda>decisions.
     obind (GetResults (env_decoder env) (env_text env) model (the_alternatives config) True True
              (enable_automatic_punctuation config) (Finalize (env_decoder env) (fst st)))
       (\<lambda>((found, first_alignments, transcripts), _).
     respond env model config decisions first_alignments transcripts))"

definition new_diarizer ::
    "('k, 'a, 'x, 't, 'd, 'f, 'w, 'l, 'v, 'o, 'p) recognize_env \<Rightarrow> ('k, 'a, 'x, 't) kaldi_model \<Rightarrow> recognition_config \<Rightarrow>
     ('x \<times> 'o) option" where
  "new_diarizer env model config =
     (case diarization_info model of
        Some x \<Rightarrow> if enable_speaker_diarization (diarization_config config)
                 then Some (x, env_new_features env x) else None
      | None \<Rightarrow> None)"

text \<open>The body of the \<open>try\<close> block.\<close>

definition Recognize_try ::
    "('k, 'a, 'x, 't, 'd, 'f, 'w, 'l, 'v, 'o, 'p) recognize_env \<Rightarrow> nat \<Rightarrow> ('k, 'a, 'x, 't) kaldi_model model_map \<Rightarrow>
     recognize_request \<Rightarrow> (status \<times> recognize_response) outcome option" where
  "Recognize_try env fuel models request =
     (let stat = ErrorVecToStatus (ValidateRecognize request (Some models));
          config = get_config (request_config request)
      in if \<not> ok stat then Some (Ret (stat, []))
      else
        fbind (Some (at_map models (generic_id (language_code config)))) (\<lambda>model.
        let r = Recognizer_fresh (env_decoder env) model in
        fbind (open_audio env config (request_audio request)) (\<lambda>src0.
        fbind (Some (src_Open env src0)) (\<lambda>src.
        fbind (read_chunks env fuel (decode_chunk env model (sample_rate_hertz config)) fuel src
                 (r, new_diarizer env model config)) (\<lambda>st.
        Some (finish_recognize env model config st))))))"

text \<open>The \<open>catch\<close> clauses: every exception of the model is a \<open>std::exception\<close>.\<close>

fun catch_recognize :: "(status \<times> recognize_response) outcome \<Rightarrow> (status \<times> recognize_response) outcome" where
  "catch_recognize (Throw (Audio_source_error m)) =
     Ret (error_status INVALID_ARGUMENT ''Audio decoding error. Possibly in wrong format?'', [])"
| "catch_recognize (Throw e) = Ret (error_status INTERNAL ''Unknown error in Recognize.'', [])"
| "catch_recognize r = r"

definition Recognize ::
    "('k, 'a, 'x, 't, 'd, 'f, 'w, 'l, 'v, 'o, 'p) recognize_env \<Rightarrow> nat \<Rightarrow> ('k, 'a, 'x, 't) kaldi_model model_map \<Rightarrow>
     recognize_request \<Rightarrow> (status \<times> recognize_response) outcome option" where
  "Recognize env fuel models request = map_option catch_recognize (Recognize_try env fuel models request)"

text \<open>The proxy of Google's API: the request is serialized and parsed again, \<open>reparse\<close>.\<close>

definition proxy_Recognize ::
    "('k, 'a, 'x, 't, 'd, 'f, 'w, 'l, 'v, 'o, 'p) recognize_env \<Rightarrow> nat \<Rightarrow> ('q \<Rightarrow> recognize_request) \<Rightarrow>
     ('k, 'a, 'x, 't) kaldi_model model_map option \<Rightarrow> 'q \<Rightarrow> (status \<times> recognize_response) outcome option" where
  "proxy_Recognize env fuel reparse speech_service request =
     (case speech_service of
        None \<Rightarrow> Some (Fault Assertion_failed)
      | Some models \<Rightarrow> Recognize env fuel models (reparse request))"

section \<open>Speaker tags follow the converted words\<close>

lemma cdiv_cmod_thousand: "cdiv (m * 1000000) 1000000 = m"
  by (simp add: cdiv_def sgn_mult abs_mult mult_sgn_abs)

lemma millis_of_duration_of_millis: "int32_range t \<Longrightarrow> millis_of_duration (duration_of_millis t) = t"
proof -
  assume "int32_range t"
  moreover have "cdiv t 1000 * 1000 + Prelude.cmod t 1000 = t"
    using cdiv_cmod [of 1000 t] by simp
  ultimately show ?thesis
    by (simp add: millis_of_duration_def duration_of_millis_def cdiv_cmod_thousand to_int32_id)
qed

lemma dia_frames_exact:
  assumes "0 \<le> shift" "int n * shift < 2 ^ 24" "n < 2 ^ 24"
  shows "dia_frames_to_milli (of_int shift) n = Ret (int n * shift)"
proof -
  have "f32 (of_nat n) = of_nat n" using f32_of_int [of "int n"] assms(3) by simp
  moreover have "f32 (of_nat n * of_int shift) = of_int (int n * shift)"
    using f32_of_int [of "int n * shift"] assms(1,2) by simp
  moreover have "int32_range x" if "0 \<le> x" "x < 2 ^ 24" for x using that by (simp add: int32_range_def)
  then have "int32_range (int n * shift)" using assms by simp
  ultimately show ?thesis using trunc_of_int [of "int n * shift"] by (simp add: dia_frames_to_milli_def Let_def del: trunc_of_int)
qed

lemma find_speaker_find:
  assumes "0 \<le> shift"
    and "\<forall>seg \<in> set segs. \<forall>n \<in> {start_frame seg, end_frame seg}. int n * shift < 2 ^ 24 \<and> n < 2 ^ 24"
  shows "find_speaker (of_int shift) t segs =
    Ret (map_option spk_id (List.find (\<lambda>seg. int (start_frame seg) * shift \<le> t \<and> t < int (end_frame seg) * shift) segs))"
  using assms(2)
proof (induction segs)
  case (Cons seg segs)
  then show ?case using assms(1) by (simp add: dia_frames_exact)
qed simp

lemma TagSpeaker_tags:
  assumes "diarization_decisions \<noteq> []" "0 \<le> shift"
    and "\<forall>seg \<in> set diarization_decisions. \<forall>n \<in> {start_frame seg, end_frame seg}. int n * shift < 2 ^ 24 \<and> n < 2 ^ 24"
    and "\<forall>ali \<in> set alis. int32_range (aw_start_time ali)"
  shows "TagSpeaker (of_int shift) diarization_decisions \<lparr>transcript = t, words = map Convert_word alis\<rparr> =
    Ret \<lparr>transcript = t, words = map (\<lambda>ali. (Convert_word ali)\<lparr>speaker_tag :=
      (case List.find (\<lambda>seg. int (start_frame seg) * shift \<le> aw_start_time ali \<and>
           aw_start_time ali < int (end_frame seg) * shift) diarization_decisions of
         None \<Rightarrow> 0 | Some seg \<Rightarrow> spk_id seg)\<rparr>) alis\<rparr>"
proof -
  have tag: "w = Convert_word ali \<Longrightarrow> ali \<in> set alis \<Longrightarrow>
      omap (\<lambda>spk. case spk of None \<Rightarrow> w | Some s \<Rightarrow> w\<lparr>speaker_tag := s\<rparr>)
        (find_speaker (of_int shift) (millis_of_duration (start_time w)) diarization_decisions) =
      Ret (w\<lparr>speaker_tag :=
        (case List.find (\<lambda>seg. int (start_frame seg) * shift \<le> aw_start_time ali \<and>
             aw_start_time ali < int (end_frame seg) * shift) diarization_decisions of
           None \<Rightarrow> 0 | Some seg \<Rightarrow> spk_id seg)\<rparr>)" for w ali
    using assms by (simp add: find_speaker_find [OF assms(2,3)] Convert_word_def millis_of_duration_of_millis split: option.split)
  have "otraverse (\<lambda>w. omap (\<lambda>spk. case spk of None \<Rightarrow> w | Some s \<Rightarrow> w\<lparr>speaker_tag := s\<rparr>)
        (find_speaker (of_int shift) (millis_of_duration (start_time w)) diarization_decisions)) (map Convert_word as) =
      Ret (map (\<lambda>ali. (Convert_word ali)\<lparr>speaker_tag :=
      (case List.find (\<lambda>seg. int (start_frame seg) * shift \<le> aw_start_time ali \<and>
           aw_start_time ali < int (end_frame seg) * shift) diarization_decisions of
         None \<Rightarrow> 0 | Some seg \<Rightarrow> spk_id seg)\<rparr>) as)" if "set as \<subseteq> set alis" for as
    using that by (induction as) (simp_all add: tag [OF refl])
  then show ?thesis using assms(1) by (simp add: TagSpeaker_def)
qed

text \<open>
  Word times survive the conversion to seconds and nanoseconds, so the speaker tag of a word is
  the speaker of the first diarization segment that its start time in milliseconds falls into, and
  stays 0 when there is none (for frame numbers whose time is exact as a \<open>float\<close> and times of 32
  bits).
\<close>

theorem TagSpeaker_words:
  assumes "diarization_decisions \<noteq> []" "0 \<le> shift"
    and "\<forall>seg \<in> set diarization_decisions. \<forall>n \<in> {start_frame seg, end_frame seg}. int n * shift < 2 ^ 24 \<and> n < 2 ^ 24"
    and "\<forall>ali \<in> set alis. int32_range (aw_start_time ali)"
  shows "TagSpeaker (of_int shift) diarization_decisions \<lparr>transcript = t, words = map Convert_word alis\<rparr> =
    Ret \<lparr>transcript = t, words = map (\<lambda>ali. (Convert_word ali)\<lparr>speaker_tag :=
      (case List.find (\<lambda>seg. int (start_frame seg) * shift \<le> aw_start_time ali \<and>
           aw_start_time ali < int (end_frame seg) * shift) diarization_decisions of
         None \<Rightarrow> 0 | Some seg \<Rightarrow> spk_id seg)\<rparr>) alis\<rparr>"
  by (rule TagSpeaker_tags [OF assms])

theorem TagSpeaker_words_witness:
  "TagSpeaker 10 [\<lparr>spk_id = 1, start_frame = 0, end_frame = 20\<rparr>, \<lparr>spk_id = 2, start_frame = 20, end_frame = 60\<rparr>]
     \<lparr>transcript = ''AB CD'', words = map Convert_word sample_words\<rparr> =
   Ret \<lparr>transcript = ''AB CD'', words = map (\<lambda>ali. (Convert_word ali)\<lparr>speaker_tag := 1\<rparr>) sample_words\<rparr>"
  using TagSpeaker_words [of "[\<lparr>spk_id = 1, start_frame = 0, end_frame = 20\<rparr>, \<lparr>spk_id = 2, start_frame = 20, end_frame = 60\<rparr>]" 10
      sample_words "''AB CD''"]
  by (simp add: sample_words_def int32_range_def)

section \<open>Recognize\<close>

lemma read_chunks_content:
  "read_chunks env fuel consume n (Content_source s) u =
   map_option (omap snd) (Chunk_Source.chunk_loop content_HasMoreChunks content_NextChunk consume n s u)"
proof (induction n arbitrary: s u)
  case (Suc n)
  show ?case
  proof (cases "content_NextChunk s")
    case (Ret x)
    then show ?thesis by (cases x; cases "consume (fst x) (\<not> content_HasMoreChunks (snd x)) u") (simp_all add: Suc)
  qed simp_all
qed simp

text \<open>Whatever the encoding of the content, its waveform is decoded in pieces of at most 400 samples.\<close>

lemma Recognize_waveform_run:
  fixes env :: "('k, 'a, 'x, 't, 'd, 'f, 'w, 'l, 'v, 'o, 'p) recognize_env"
  assumes "ValidateRecognize request (Some models) = []"
    and "request_config request = Some config" "models (generic_id (language_code config)) = Some model"
    and "open_audio env config (request_audio request) =
      Some (Ret (Content_source \<lparr>content_seen = 0, content_data = wave, content_rate = rate\<rparr>))"
    and "length wave < fuel"
  shows "\<exists>cs. concat cs = wave \<and> (\<forall>c \<in> set cs. 0 < length c \<and> length c \<le> 400) \<and>
    Recognize env fuel models request = Some (catch_recognize (obind
      (consume_all (decode_chunk env model (sample_rate_hertz config)) cs
         (Recognizer_fresh (env_decoder env) model, new_diarizer env model config))
      (finish_recognize env model config)))"
proof -
  let ?s = "\<lparr>content_seen = 0, content_data = wave, content_rate = rate\<rparr>"
  have s: "content_inv ?s" "content_pending ?s = wave"
    by (simp_all add: content_inv_def content_pending_def)
  have fuel: "length (content_pending ?s) < fuel" using assms(5) s(2) by simp
  from content_src.loop_delivers [OF s(1) fuel] obtain cs s' where cs: "concat cs = wave"
    "\<forall>c \<in> set cs. c \<noteq> [] \<and> length c \<le> 400"
    "\<forall>consume (u :: ('a, 'd, 'f, 'w) recognizer \<times> ('x \<times> 'o) option).
       Chunk_Source.chunk_loop content_HasMoreChunks content_NextChunk consume fuel ?s u =
       Some (omap (Pair s') (consume_all consume cs u))"
    unfolding s(2) by blast
  have "Recognize env fuel models request = Some (catch_recognize (obind
      (consume_all (decode_chunk env model (sample_rate_hertz config)) cs
         (Recognizer_fresh (env_decoder env) model, new_diarizer env model config))
      (finish_recognize env model config)))"
    using assms(1-3)
    by (cases "consume_all (decode_chunk env model (sample_rate_hertz config)) cs
         (Recognizer_fresh (env_decoder env) model, new_diarizer env model config)")
      (simp_all add: Recognize_def Recognize_try_def ok_ErrorVecToStatus Let_def at_map_def assms(4) read_chunks_content
        cs(3) [rule_format] omap_comp)
  with cs(1,2) show ?thesis by auto
qed

lemma Recognize_content_run:
  fixes env :: "('k, 'a, 'x, 't, 'd, 'f, 'w, 'l, 'v, 'o, 'p) recognize_env"
  assumes "ValidateRecognize request (Some models) = []"
    and "request_config request = Some config" "encoding config = LINEAR16"
    and "request_audio request = Some (Content bytes)" "length bytes div 2 < fuel"
    and "models (generic_id (language_code config)) = Some model"
  shows "\<exists>cs. concat cs = linear16 bytes \<and> (\<forall>c \<in> set cs. 0 < length c \<and> length c \<le> 400) \<and>
    Recognize env fuel models request = Some (catch_recognize (obind
      (consume_all (decode_chunk env model (sample_rate_hertz config)) cs
         (Recognizer_fresh (env_decoder env) model, new_diarizer env model config))
      (finish_recognize env model config)))"
proof (rule Recognize_waveform_run [OF assms(1,2,6)])
  show "open_audio env config (request_audio request) =
      Some (Ret (Content_source \<lparr>content_seen = 0, content_data = linear16 bytes, content_rate = sample_rate_hertz config\<rparr>))"
    using assms(3,4) by (simp add: open_audio_def Convert_encoding_def ContentAudioSource_def Linear16BytesToWaveVector_Ret)
qed (use assms(5) in simp)

text \<open>
  C5. A valid request with LINEAR16 content is decoded completely and in order: the recognizer gets
  the samples of the content in pieces of at most 400, the last one flagged as the end of the input,
  and the answer is what the rest of the handler makes of the recognizer's and the diarizer's state
  then. The samples are passed as they are, whatever sample rate the request and the model have.
\<close>

theorem Recognize_decodes_content:
  fixes env :: "('k, 'a, 'x, 't, 'd, 'f, 'w, 'l, 'v, 'o, 'p) recognize_env"
  assumes "ValidateRecognize request (Some models) = []"
    and "request_config request = Some config" "encoding config = LINEAR16"
    and "request_audio request = Some (Content bytes)" "length bytes div 2 < fuel"
    and "models (generic_id (language_code config)) = Some model"
  shows "\<exists>cs. concat cs = linear16 bytes \<and> (\<forall>c \<in> set cs. 0 < length c \<and> length c \<le> 400) \<and>
    Recognize env fuel models request = Some (catch_recognize (obind
      (consume_all (decode_chunk env model (sample_rate_hertz config)) cs
         (Recognizer_fresh (env_decoder env) model, new_diarizer env model config))
      (finish_recognize env model config)))"
  by (rule Recognize_content_run [OF assms])

lemma TagSpeaker_alternative:
  "TagSpeaker shift decisions alt = Ret alt' \<Longrightarrow> length (words alt') = length (words alt)"
  by (auto simp: TagSpeaker_def outcome_simps split: if_split_asm dest!: otraverse_length)

lemma respond_response:
  assumes "respond env model config decisions alis ts = Ret (st, resp)"
  shows "if code st = OK then \<exists>alts. resp = [alts] \<and> 0 < length alts \<and> length alts = length ts \<and>
      (enable_word_time_offsets config \<longrightarrow> words (hd alts) \<noteq> [])
    else st = something_bad \<and> resp \<in> {[], [[]]}"
proof -
  have bad: "code something_bad \<noteq> OK" "code status_OK = OK" by (simp_all add: something_bad_def error_status_def status_OK_def)
  from assms show ?thesis
    unfolding respond_def Let_def
    by (auto simp: outcome_simps bad split: if_split_asm option.split_asm dest!: TagSpeaker_alternative)
qed


section \<open>An example\<close>

definition no_features :: "unit online_features" where
  "no_features = \<lparr>feature_AcceptWaveform = \<lambda>_ _ f. f, feature_InputFinished = \<lambda>f. f, NumFramesReady = \<lambda>_. 0,
     GetFrame = \<lambda>_ _. [], FrameShiftInSeconds = \<lambda>_. 0\<rparr>"

definition toy_recognize_env ::
    "(unit, unit, unit, unit, int, int, unit, int list, session, unit, unit) recognize_env" where
  "toy_recognize_env = \<lparr>env_decoder = toy_decoder, env_text = toy_text, env_resampler = \<lambda>_ _ _ _ wave _. wave,
     env_coded_bytes = \<lambda>_ _ _. None, env_av = scripted, env_strerror = \<lambda>_. [], env_url = some_session,
     env_sync = \<lambda>_ n. n, env_diarization = toy_lib, env_info = \<lambda>_. toy_info, env_in_segment = Ret False,
     env_features = \<lambda>_. no_features, env_new_features = \<lambda>_. (), env_frame_shift_ms = \<lambda>_. 10\<rparr>"

definition toy_models :: "(unit, unit, unit, unit) kaldi_model model_map" where
  "toy_models = (\<lambda>mid. if mid = generic_id ''is-IS'' then Some toy_model else None)"

definition toy_config :: recognition_config where
  "toy_config = default_config\<lparr>encoding := LINEAR16, sample_rate_hertz := 16000, language_code := ''is-IS''\<rparr>"

definition toy_request :: recognize_request where
  "toy_request = \<lparr>request_config = Some toy_config, request_audio = Some (Content ''abcdefgh'')\<rparr>"

lemma toy_request_valid: "ValidateRecognize toy_request (Some toy_models) = []"
  by (simp add: ValidateRecognize_def toy_request_def toy_config_def ValidateConfig_def encoding_errors_def
      language_errors_def toy_models_def in_range_def default_config_def audio_errors_def)

lemma toy_consume:
  "\<exists>r'. consume_all (decode_chunk toy_recognize_env toy_model rate) cs (r, None) = Ret (r', None)"
proof (induction cs arbitrary: r)
  case (Cons c cs)
  have "\<exists>r'. decode_chunk toy_recognize_env toy_model rate c (cs = []) (r, None) = Ret (r', None)"
    by (simp add: decode_chunk_def toy_recognize_env_def toy_Decode)
  with Cons.IH show ?case by auto
qed simp

theorem Recognize_decodes_content_witness:
  "Recognize toy_recognize_env 10 toy_models toy_request =
     Some (Ret (status_OK, [[plain_alternative ''sem betur'']]))"
proof -
  have request: "request_config toy_request = Some toy_config" "request_audio toy_request = Some (Content ''abcdefgh'')"
      "encoding toy_config = LINEAR16" "toy_models (generic_id (language_code toy_config)) = Some toy_model"
    by (simp_all add: toy_request_def toy_config_def toy_models_def default_config_def)
  from Recognize_decodes_content [OF toy_request_valid request(1,3,2) _ request(4), of 10 toy_recognize_env]
  obtain cs where call: "Recognize toy_recognize_env 10 toy_models toy_request = Some (catch_recognize (obind
      (consume_all (decode_chunk toy_recognize_env toy_model (sample_rate_hertz toy_config)) cs
         (Recognizer_fresh (env_decoder toy_recognize_env) toy_model, new_diarizer toy_recognize_env toy_model toy_config))
      (finish_recognize toy_recognize_env toy_model toy_config)))" by auto
  have no_dia: "new_diarizer toy_recognize_env toy_model toy_config = None"
    by (simp add: new_diarizer_def toy_model_fields)
  obtain r' where run: "consume_all (decode_chunk toy_recognize_env toy_model (sample_rate_hertz toy_config)) cs
      (Recognizer_fresh (env_decoder toy_recognize_env) toy_model, None) = Ret (r', None)"
    using toy_consume by blast
  have "finish_recognize toy_recognize_env toy_model toy_config (r', None) =
      Ret (status_OK, [[plain_alternative ''sem betur'']])"
    by (simp add: finish_recognize_def diarize_def toy_recognize_env_def toy_config_def default_config_def
        the_alternatives_def toy_best respond_def)
  then show ?thesis unfolding call no_dia run by simp
qed

lemma toy_silent_call:
  "Recognize toy_recognize_env 10 toy_models (toy_request\<lparr>request_audio := Some (Content [])\<rparr>) =
     Some (Ret (status_OK, [[plain_alternative ''sem betur'']]))"
proof -
  have valid: "ValidateRecognize (toy_request\<lparr>request_audio := Some (Content [])\<rparr>) (Some toy_models) = []"
    by (simp add: ValidateRecognize_def toy_request_def toy_config_def ValidateConfig_def encoding_errors_def
      language_errors_def toy_models_def in_range_def default_config_def audio_errors_def)
  have config: "request_config toy_request = Some toy_config" "encoding toy_config = LINEAR16"
      "toy_models (generic_id (language_code toy_config)) = Some toy_model" 
    by (simp_all add: toy_request_def toy_config_def toy_models_def default_config_def)
  have src: "\<not> content_HasMoreChunks \<lparr>content_seen = 0, content_data = [], content_rate = rate\<rparr>" for rate
    by (simp add: content_HasMoreChunks_def)
  have finish: "finish_recognize toy_recognize_env toy_model toy_config (r, None) =
      Ret (status_OK, [[plain_alternative ''sem betur'']])" for r
    by (simp add: finish_recognize_def diarize_def toy_recognize_env_def toy_config_def default_config_def
        the_alternatives_def toy_best respond_def)
  show ?thesis
    by (simp add: Recognize_def Recognize_try_def Let_def valid ErrorVecToStatus_def status_OK_def config at_map_def open_audio_def
        Convert_encoding_def ContentAudioSource_def Linear16BytesToWaveVector_Ret numeral_eq_Suc src new_diarizer_def
        toy_model_fields finish [unfolded status_OK_def])
qed

end
