(* ===== verification/Streaming_Recognize.thy ===== *)
theory Streaming_Recognize
  imports Recognize_Service Vad
begin

text \<open>
  The streaming call of \<open>src/api/services.cc\<close>: \<open>ChunkConverter\<close>, \<open>RunStreamingProcessor\<close> and
  \<open>StreamingRecognize\<close>. The client is the list of the requests that are still to be read; whether the
  n-th write succeeds and what the n-th look at the clock shows (in nanoseconds) are parameters. A
  connection keeps the responses written so far, the last one included when its write failed.
\<close>

record ('k, 'a, 'x, 't, 'd, 'f, 'w, 'l, 'v, 'r) stream_env =
  se_decoder :: "('k, 'a, 'd, 'f, 'w, 'l) decoder_lib"
  se_text :: "'t text_lib"
  se_endpoint_config :: endpoint_config
  se_vad :: "'v webrtc"
  se_LinearResample :: "int \<Rightarrow> int \<Rightarrow> rat \<Rightarrow> int \<Rightarrow> 'r outcome"
  se_Resample :: "waveform \<Rightarrow> bool \<Rightarrow> 'r \<Rightarrow> waveform \<times> 'r"
  se_write_ok :: "nat \<Rightarrow> bool"
  se_clock :: "nat \<Rightarrow> int"

record connection =
  conn_written :: "streaming_response list"
  conn_clock :: nat

definition Write ::
    "('k, 'a, 'x, 't, 'd, 'f, 'w, 'l, 'v, 'r) stream_env \<Rightarrow> streaming_response \<Rightarrow> connection \<Rightarrow> bool \<times> connection" where
  "Write env res conn =
     (se_write_ok env (length (conn_written conn)), conn\<lparr>conn_written := conn_written conn @ [res]\<rparr>)"

definition system_clock_now ::
    "('k, 'a, 'x, 't, 'd, 'f, 'w, 'l, 'v, 'r) stream_env \<Rightarrow> connection \<Rightarrow> int \<times> connection" where
  "system_clock_now env conn = (se_clock env (conn_clock conn), conn\<lparr>conn_clock := Suc (conn_clock conn)\<rparr>)"

section \<open>ChunkConverter\<close>

record 'r chunk_converter =
  cc_sample_rate :: int
  cc_model_sample_rate :: int
  cc_resampler :: 'r

definition ChunkConverter ::
    "('k, 'a, 'x, 't, 'd, 'f, 'w, 'l, 'v, 'r) stream_env \<Rightarrow> int \<Rightarrow> int \<Rightarrow> 'r chunk_converter outcome" where
  "ChunkConverter env rate model_rate =
     (let lowpass_cutoff = f32 (f32 (f32 (99 / 100) * (1 / 2)) * f32 (of_int (min model_rate rate)));
          lowpass_filter_width = 6
      in omap (\<lambda>r. \<lparr>cc_sample_rate = rate, cc_model_sample_rate = model_rate, cc_resampler = r\<rparr>)
           (se_LinearResample env rate model_rate lowpass_cutoff lowpass_filter_width))"

definition ToWaveform ::
    "('k, 'a, 'x, 't, 'd, 'f, 'w, 'l, 'v, 'r) stream_env \<Rightarrow> string \<Rightarrow> bool \<Rightarrow> 'r chunk_converter \<Rightarrow>
     (waveform \<times> 'r chunk_converter) outcome" where
  "ToWaveform env chunk more_data_available cc =
     omap (\<lambda>waveform.
       if cc_sample_rate cc \<noteq> cc_model_sample_rate cc then
         (let (resampled, r) = se_Resample env waveform (\<not> more_data_available) (cc_resampler cc)
          in (resampled, cc\<lparr>cc_resampler := r\<rparr>))
       else (waveform, cc))
     (Linear16BytesToWaveVector chunk)"

section \<open>Results\<close>

text \<open>The lambda \<open>add_results\<close>; the offset is converted to an \<open>int\<close>.\<close>

definition shift_word :: "int \<Rightarrow> aligned_word \<Rightarrow> aligned_word" where
  "shift_word offset ali = ali\<lparr>aw_start_time := aw_start_time ali + offset\<rparr>"

definition streaming_alternatives :: "recognition_config \<Rightarrow> int \<Rightarrow> aligned_word list \<Rightarrow> string list \<Rightarrow> alternative list" where
  "streaming_alternatives config offset best_aligned transcripts =
     (if enable_word_time_offsets config then
        [\<lparr>transcript = transcripts ! 0, words = map (\<lambda>ali. Convert_word (shift_word offset ali)) best_aligned\<rparr>]
      else [])
     @ map plain_alternative (drop (if enable_word_time_offsets config then 1 else 0) transcripts)"

definition add_results ::
    "('k, 'a, 'x, 't, 'd, 'f, 'w, 'l, 'v, 'r) stream_env \<Rightarrow> ('k, 'a, 'x, 't) kaldi_model \<Rightarrow> recognition_config \<Rightarrow>
     bool \<Rightarrow> int \<Rightarrow> streaming_response \<Rightarrow> ('a, 'd, 'f, 'w) recognizer \<Rightarrow>
     (status \<times> streaming_response \<times> ('a, 'd, 'f, 'w) recognizer) outcome" where
  "add_results env model config final offset res r =
     omap (\<lambda>((found, best_aligned, transcripts), r').
       if found then
         if transcripts = [] then (error_status INTERNAL ''Unexpected failure.'', res, r')
         else (status_OK, res\<lparr>results := results res @
           [\<lparr>alternatives = streaming_alternatives config (to_int32 offset) best_aligned transcripts,
             is_final = final\<rparr>]\<rparr>, r')
       else (status_OK, res, r'))
     (GetResults (se_decoder env) (se_text env) model (if final then the_alternatives config else 1) True final
        (enable_automatic_punctuation config) r)"

section \<open>One segment\<close>

record ('a, 'd, 'f, 'w, 'v, 'r) segment =
  sg_recognizer :: "('a, 'd, 'f, 'w) recognizer"
  sg_time :: int
  sg_last_interim_result :: int
  sg_last_transcript :: string
  sg_endpoint :: bool
  sg_vad :: "'v vad"
  sg_vad_offset :: int
  sg_speech_started :: bool
  sg_converter :: "'r chunk_converter"

definition interim_interval :: int where "interim_interval = 350 * 1000000"

text \<open>The interim result after a chunk without end point; a status ends the call.\<close>

definition interim_result ::
    "('k, 'a, 'x, 't, 'd, 'f, 'w, 'l, 'v, 'r) stream_env \<Rightarrow> ('k, 'a, 'x, 't) kaldi_model \<Rightarrow> recognition_config \<Rightarrow>
     int \<Rightarrow> connection \<Rightarrow> ('a, 'd, 'f, 'w, 'v, 'r) segment \<Rightarrow>
     (connection \<times> ('a, 'd, 'f, 'w, 'v, 'r) segment \<times> status option) outcome" where
  "interim_result env model config processed_time conn seg =
     (let (t, conn1) = system_clock_now env conn; lib = se_decoder env; r = sg_recognizer seg in
      if recognizer_NumFramesDecoded lib r > 0 \<and> t - sg_last_interim_result seg > interim_interval then
        obind (GetBestHypothesis lib model False r) (\<lambda>cur_transcript.
        if cur_transcript \<noteq> sg_last_transcript seg then
          omap (\<lambda>(st, res, r').
            let seg1 = seg\<lparr>sg_last_transcript := cur_transcript, sg_recognizer := r'\<rparr> in
            if \<not> ok st then (conn1, seg1, Some st)
            else if results res \<noteq> [] then
              (let (written, conn2) = Write env res conn1 in
               if \<not> written then (conn2, seg1, Some status_CANCELLED)
               else (conn2, seg1\<lparr>sg_last_interim_result := t\<rparr>, None))
            else (conn1, seg1\<lparr>sg_last_interim_result := t\<rparr>, None))
          (add_results env model config False (sg_vad_offset seg + processed_time) empty_response r)
        else Ret (conn1, seg, None))
      else Ret (conn1, seg, None))"

definition detect_speech ::
    "('k, 'a, 'x, 't, 'd, 'f, 'w, 'l, 'v, 'r) stream_env \<Rightarrow> waveform \<Rightarrow> int \<Rightarrow> ('a, 'd, 'f, 'w, 'v, 'r) segment \<Rightarrow>
     ('a, 'd, 'f, 'w, 'v, 'r) segment outcome" where
  "detect_speech env waveform chunk_time seg =
     (if sg_speech_started seg then Ret seg
      else omap (\<lambda>(v, started).
          seg\<lparr>sg_vad := v, sg_speech_started := started,
            sg_vad_offset := (if started then sg_vad_offset seg else sg_vad_offset seg + chunk_time)\<rparr>)
        (HasSpeech_waveform (se_vad env) waveform (sg_vad seg)))"

definition process_chunk ::
    "('k, 'a, 'x, 't, 'd, 'f, 'w, 'l, 'v, 'r) stream_env \<Rightarrow> ('k, 'a, 'x, 't) kaldi_model \<Rightarrow> streaming_config \<Rightarrow>
     int \<Rightarrow> string \<Rightarrow> connection \<Rightarrow> ('a, 'd, 'f, 'w, 'v, 'r) segment \<Rightarrow>
     (connection \<times> ('a, 'd, 'f, 'w, 'v, 'r) segment \<times> status option) outcome" where
  "process_chunk env model sc processed_time chunk conn seg =
     (let config = get_config (streaming_recognition_config sc); n_samples = int (length chunk div 2) in
      if \<not> int32_range (1000 * n_samples) then Fault Signed_overflow
      else if sample_rate_hertz config = 0 then Fault Division_by_zero
      else
        let chunk_time = cdiv (1000 * n_samples) (sample_rate_hertz config) in
        obind (ToWaveform env chunk True (sg_converter seg)) (\<lambda>(waveform, cc).
        obind (detect_speech env waveform chunk_time (seg\<lparr>sg_time := sg_time seg + chunk_time, sg_converter := cc\<rparr>))
          (\<lambda>seg1.
        if sg_speech_started seg1 then
          obind (recognizer_Decode (se_decoder env) model waveform False (sg_recognizer seg1)) (\<lambda>r.
          let endpoint = HasEndpoint (se_decoder env) (se_endpoint_config env) False r;
              seg2 = seg1\<lparr>sg_recognizer := r, sg_endpoint := endpoint\<rparr>
          in if interim_results sc \<and> \<not> endpoint then interim_result env model config processed_time conn seg2
             else Ret (conn, seg2, None))
        else Ret (conn, seg1, None))))"

text \<open>Reading stops at the end of the stream and at a message whose audio is empty or \<open>END\<close>.\<close>

definition end_of_audio :: "streaming_request \<Rightarrow> bool" where
  "end_of_audio req \<longleftrightarrow> audio_content req = [] \<or> audio_content req = ''END''"

text \<open>The result: the remaining requests, \<open>more_data\<close>, the segment, and a status that ends the call.\<close>

fun segment_loop ::
    "('k, 'a, 'x, 't, 'd, 'f, 'w, 'l, 'v, 'r) stream_env \<Rightarrow> ('k, 'a, 'x, 't) kaldi_model \<Rightarrow> streaming_config \<Rightarrow>
     int \<Rightarrow> streaming_request list \<Rightarrow> connection \<Rightarrow> ('a, 'd, 'f, 'w, 'v, 'r) segment \<Rightarrow>
     connection \<times> (streaming_request list \<times> bool \<times> ('a, 'd, 'f, 'w, 'v, 'r) segment \<times> status option) outcome" where
  "segment_loop env model sc processed_time [] conn seg = (conn, Ret ([], False, seg, None))"
| "segment_loop env model sc processed_time (req # reqs) conn seg =
     (if end_of_audio req then (conn, Ret (reqs, False, seg, None))
      else
        (case process_chunk env model sc processed_time (audio_content req) conn seg of
           Throw e \<Rightarrow> (conn, Throw e)
         | Fault b \<Rightarrow> (conn, Fault b)
         | Ret (conn1, seg1, ret) \<Rightarrow>
             if ret \<noteq> None \<or> sg_endpoint seg1 then (conn1, Ret (reqs, True, seg1, ret))
             else segment_loop env model sc processed_time reqs conn1 seg1))"

section \<open>The processor\<close>

record ('a, 'r) processor =
  pr_adaptation_state :: 'a
  pr_left_context :: "aligned_word list"
  pr_time :: int
  pr_converter :: "'r chunk_converter"
  pr_more_data :: bool
  pr_end_of_single_utterance :: bool

definition start_segment ::
    "('k, 'a, 'x, 't, 'd, 'f, 'w, 'l, 'v, 'r) stream_env \<Rightarrow> ('k, 'a, 'x, 't) kaldi_model \<Rightarrow> ('a, 'r) processor \<Rightarrow>
     connection \<Rightarrow> (connection \<times> ('a, 'd, 'f, 'w, 'v, 'r) segment) outcome" where
  "start_segment env model p conn =
     (let (t, conn1) = system_clock_now env conn in
      omap (\<lambda>v. (conn1,
        \<lparr>sg_recognizer = Recognizer (se_decoder env) model (pr_adaptation_state p) (pr_left_context p), sg_time = 0,
         sg_last_interim_result = t, sg_last_transcript = [], sg_endpoint = False, sg_vad = v, sg_vad_offset = 0,
         sg_speech_started = False, sg_converter = pr_converter p\<rparr>))
      (Vad (se_vad env) kDefaultSampleRate 30))"

definition event_response :: streaming_response where
  "event_response = empty_response\<lparr>speech_event_type := END_OF_SINGLE_UTTERANCE\<rparr>"

definition finish_segment ::
    "('k, 'a, 'x, 't, 'd, 'f, 'w, 'l, 'v, 'r) stream_env \<Rightarrow> ('k, 'a, 'x, 't) kaldi_model \<Rightarrow> streaming_config \<Rightarrow>
     ('a, 'd, 'f, 'w, 'v, 'r) segment \<Rightarrow> ('a, 'r) processor \<Rightarrow> connection \<Rightarrow>
     (connection \<times> ('a, 'r) processor \<times> status option) outcome" where
  "finish_segment env model sc seg p conn =
     (let lib = se_decoder env;
          (state, r) = GetAdaptationState lib (Finalize lib (sg_recognizer seg));
          p1 = p\<lparr>pr_adaptation_state := state, pr_converter := sg_converter seg\<rparr>;
          done_time = pr_time p + sg_time seg
      in if recognizer_NumFramesDecoded lib r > 0 then
           omap (\<lambda>(st, res, r').
             if \<not> ok st then (conn, p1, Some st)
             else
               (let p2 = p1\<lparr>pr_left_context := GetLeftContext r'\<rparr>; (written, conn1) = Write env res conn in
                if \<not> written then (conn1, p2, Some status_CANCELLED)
                else if single_utterance sc then
                  (let p3 = p2\<lparr>pr_end_of_single_utterance := True\<rparr>; (written, conn2) = Write env event_response conn1 in
                   if \<not> written then (conn2, p3, Some status_CANCELLED)
                   else (conn2, p3\<lparr>pr_time := done_time\<rparr>, None))
                else (conn1, p2\<lparr>pr_time := done_time\<rparr>, None)))
           (add_results env model (get_config (streaming_recognition_config sc)) True
              (sg_vad_offset seg + pr_time p) empty_response r)
         else Ret (conn, p1\<lparr>pr_time := done_time\<rparr>, None))"

lemma segment_loop_shortens:
  "segment_loop env model sc t reqs conn seg = (conn', Ret (reqs', go_on, seg', ret)) \<Longrightarrow>
     length reqs' + (if go_on then 1 else 0) \<le> length reqs"
proof (induction reqs arbitrary: conn seg)
  case (Cons req reqs)
  then show ?case by (fastforce split: if_split_asm outcome.split_asm prod.split_asm)
qed simp

lemma finish_segment_more:
  "finish_segment env model sc seg p conn = Ret (conn', p', ret) \<Longrightarrow> pr_more_data p' = pr_more_data p"
  by (auto simp: finish_segment_def Let_def Write_def outcome_simps split: if_split_asm prod.split_asm)

function run_segments ::
    "('k, 'a, 'x, 't, 'd, 'f, 'w, 'l, 'v, 'r) stream_env \<Rightarrow> ('k, 'a, 'x, 't) kaldi_model \<Rightarrow> streaming_config \<Rightarrow>
     streaming_request list \<Rightarrow> ('a, 'r) processor \<Rightarrow> connection \<Rightarrow> connection \<times> status outcome" where
  "run_segments env model sc reqs p conn =
     (if pr_more_data p \<and> \<not> pr_end_of_single_utterance p then
        (case start_segment env model p conn of
           Throw e \<Rightarrow> (conn, Throw e)
         | Fault b \<Rightarrow> (conn, Fault b)
         | Ret (conn1, seg) \<Rightarrow>
             (case segment_loop env model sc (pr_time p) reqs conn1 seg of
                (conn2, Throw e) \<Rightarrow> (conn2, Throw e)
              | (conn2, Fault b) \<Rightarrow> (conn2, Fault b)
              | (conn2, Ret (reqs1, more_data, seg1, Some st)) \<Rightarrow> (conn2, Ret st)
              | (conn2, Ret (reqs1, more_data, seg1, None)) \<Rightarrow>
                  (case finish_segment env model sc seg1 (p\<lparr>pr_more_data := more_data\<rparr>) conn2 of
                     Throw e \<Rightarrow> (conn2, Throw e)
                   | Fault b \<Rightarrow> (conn2, Fault b)
                   | Ret (conn3, p1, Some st) \<Rightarrow> (conn3, Ret st)
                   | Ret (conn3, p1, None) \<Rightarrow> run_segments env model sc reqs1 p1 conn3)))
      else (conn, Ret status_OK))"
  by pat_completeness auto
termination
  by (relation "measure (\<lambda>(env, model, sc, reqs, p, conn). length reqs + (if pr_more_data p then 1 else 0))")
    (auto dest!: segment_loop_shortens [OF sym] finish_segment_more split: if_split_asm)

declare run_segments.simps [simp del]

definition going :: "('a, 'r) processor \<Rightarrow> bool" where
  "going p \<longleftrightarrow> pr_more_data p \<and> \<not> pr_end_of_single_utterance p"

text \<open>
  Induction over the rounds of the outer loop: it is not entered, or a round fails at its start, in
  the inner loop or at its end, or it ends the call in the inner loop or at its end, or another follows.
\<close>

lemma run_segments_rounds [consumes 1, case_names idle no_segment lost ended_inside unfinished ended_after round]:
  assumes "run_segments env model sc reqs p conn = (conn', out)"
    and idle: "\<And>reqs p conn. \<not> going p \<Longrightarrow> P reqs p conn conn (Ret status_OK)"
    and no_segment: "\<And>reqs p conn out. going p \<Longrightarrow> \<forall>st. out \<noteq> Ret st \<Longrightarrow> P reqs p conn conn out"
    and lost: "\<And>reqs p conn conn1 seg conn2 res out. going p \<Longrightarrow> start_segment env model p conn = Ret (conn1, seg) \<Longrightarrow>
      segment_loop env model sc (pr_time p) reqs conn1 seg = (conn2, res) \<Longrightarrow> \<forall>x. res \<noteq> Ret x \<Longrightarrow>
      \<forall>st. out \<noteq> Ret st \<Longrightarrow> P reqs p conn conn2 out"
    and ended_inside: "\<And>reqs p conn conn1 seg conn2 reqs1 go_on seg1 st. going p \<Longrightarrow>
      start_segment env model p conn = Ret (conn1, seg) \<Longrightarrow>
      segment_loop env model sc (pr_time p) reqs conn1 seg = (conn2, Ret (reqs1, go_on, seg1, Some st)) \<Longrightarrow>
      P reqs p conn conn2 (Ret st)"
    and unfinished: "\<And>reqs p conn conn1 seg conn2 reqs1 go_on seg1 out. going p \<Longrightarrow>
      start_segment env model p conn = Ret (conn1, seg) \<Longrightarrow>
      segment_loop env model sc (pr_time p) reqs conn1 seg = (conn2, Ret (reqs1, go_on, seg1, None)) \<Longrightarrow>
      \<forall>st. out \<noteq> Ret st \<Longrightarrow> P reqs p conn conn2 out"
    and ended_after: "\<And>reqs p conn conn1 seg conn2 reqs1 go_on seg1 conn3 p1 st. going p \<Longrightarrow>
      start_segment env model p conn = Ret (conn1, seg) \<Longrightarrow>
      segment_loop env model sc (pr_time p) reqs conn1 seg = (conn2, Ret (reqs1, go_on, seg1, None)) \<Longrightarrow>
      finish_segment env model sc seg1 (p\<lparr>pr_more_data := go_on\<rparr>) conn2 = Ret (conn3, p1, Some st) \<Longrightarrow>
      P reqs p conn conn3 (Ret st)"
    and round: "\<And>reqs p conn conn1 seg conn2 reqs1 go_on seg1 conn3 p1 conn' out. going p \<Longrightarrow>
      start_segment env model p conn = Ret (conn1, seg) \<Longrightarrow>
      segment_loop env model sc (pr_time p) reqs conn1 seg = (conn2, Ret (reqs1, go_on, seg1, None)) \<Longrightarrow>
      finish_segment env model sc seg1 (p\<lparr>pr_more_data := go_on\<rparr>) conn2 = Ret (conn3, p1, None) \<Longrightarrow>
      P reqs1 p1 conn3 conn' out \<Longrightarrow> P reqs p conn conn' out"
  shows "P reqs p conn conn' out"
  using assms(1)
proof (induction "length reqs + (if pr_more_data p then 1 else 0)" arbitrary: reqs p conn rule: less_induct)
  case less
  show ?case
  proof (cases "going p")
    case going: True
    note unf = less.prems [unfolded run_segments.simps [of env model sc reqs p conn] if_P [OF going [unfolded going_def]]]
    show ?thesis
    proof (cases "start_segment env model p conn")
      case (Ret x)
      obtain conn1 seg where start: "start_segment env model p conn = Ret (conn1, seg)" using Ret by (cases x) simp
      obtain conn2 res where loop: "segment_loop env model sc (pr_time p) reqs conn1 seg = (conn2, res)" by fastforce
      show ?thesis
      proof (cases res)
        case (Ret y)
        obtain reqs1 go_on seg1 ret where y: "y = (reqs1, go_on, seg1, ret)" using prod_cases4 by blast
        note loop' = loop [unfolded Ret y]
        show ?thesis
        proof (cases ret)
          case ret: None
          show ?thesis
          proof (cases "finish_segment env model sc seg1 (p\<lparr>pr_more_data := go_on\<rparr>) conn2")
            case (Ret z)
            obtain conn3 p1 ret3 where z: "z = (conn3, p1, ret3)" by (cases z)
            note finish = Ret [unfolded z]
            have fewer: "length reqs1 + (if pr_more_data p1 then 1 else 0) < length reqs + (if pr_more_data p then 1 else 0)"
              using segment_loop_shortens [OF loop'] finish_segment_more [OF finish] going by (simp add: going_def split: if_splits)
            show ?thesis
            proof (cases ret3)
              case None
              with unf start loop' ret finish have "run_segments env model sc reqs1 p1 conn3 = (conn', out)" by simp
              then show ?thesis
                by (rule round [OF going start loop' [unfolded ret] finish [unfolded None] less.hyps [OF fewer]])
            next
              case (Some st)
              with unf start loop' ret finish ended_after [OF going start loop' [unfolded ret] finish [unfolded Some]]
              show ?thesis by simp
            qed
          qed (use unf start loop' ret unfinished [OF going start loop' [unfolded ret]] in auto)
        qed (use unf start loop' ended_inside [OF going start] in auto)
      qed (use unf start loop lost [OF going start loop] in auto)
    qed (use unf no_segment [OF going] in auto)
  next
    case False
    with less.prems idle [OF False] show ?thesis by (auto simp: run_segments.simps [of env model sc reqs p conn] going_def)
  qed
qed

definition RunStreamingProcessor ::
    "('k, 'a, 'x, 't, 'd, 'f, 'w, 'l, 'v, 'r) stream_env \<Rightarrow> streaming_config \<Rightarrow> ('k, 'a, 'x, 't) kaldi_model \<Rightarrow>
     streaming_request list \<Rightarrow> connection \<Rightarrow> connection \<times> status outcome" where
  "RunStreamingProcessor env sc model reqs conn =
     (let config = get_config (streaming_recognition_config sc);
          model_sample_rate = trunc (GetSampleRate (model_feature_info model))
      in case ChunkConverter env (sample_rate_hertz config) model_sample_rate of
           Throw e \<Rightarrow> (conn, Throw e)
         | Fault b \<Rightarrow> (conn, Fault b)
         | Ret cc \<Rightarrow>
             run_segments env model sc reqs
               \<lparr>pr_adaptation_state = initial_adaptation_state model, pr_left_context = [], pr_time = 0,
                pr_converter = cc, pr_more_data = True, pr_end_of_single_utterance = False\<rparr> conn)"

section \<open>The call\<close>

fun mutable_streaming_config :: "streaming_request \<Rightarrow> streaming_config" where
  "mutable_streaming_config (Streaming_config sc) = sc"
| "mutable_streaming_config _ =
     \<lparr>streaming_recognition_config = None, single_utterance = False, interim_results = False\<rparr>"

fun catch_streaming :: "status outcome \<Rightarrow> status outcome" where
  "catch_streaming (Throw e) = Ret (error_status INTERNAL ''Unknown error in StreamingRecognize.'')"
| "catch_streaming r = r"

definition new_connection :: connection where
  "new_connection = \<lparr>conn_written = [], conn_clock = 0\<rparr>"

definition StreamingRecognize ::
    "('k, 'a, 'x, 't, 'd, 'f, 'w, 'l, 'v, 'r) stream_env \<Rightarrow> ('k, 'a, 'x, 't) kaldi_model model_map \<Rightarrow>
     streaming_request list \<Rightarrow> connection \<times> status outcome" where
  "StreamingRecognize env models requests =
     (case requests of
        [] \<Rightarrow> (new_connection, Ret status_CANCELLED)
      | req # reqs \<Rightarrow>
          let stat = ErrorVecToStatus (ValidateStreaming req True (Some models)) in
          if \<not> ok stat then (new_connection, Ret stat)
          else
            let sc = mutable_streaming_config req in
            (case at_map models (generic_id (language_code (get_config (streaming_recognition_config sc)))) of
               Throw e \<Rightarrow> (new_connection, catch_streaming (Throw e))
             | Fault b \<Rightarrow> (new_connection, Fault b)
             | Ret model \<Rightarrow> map_prod id catch_streaming (RunStreamingProcessor env sc model reqs new_connection)))"

text \<open>The proxy of Google's API reinterprets the stream; it does not check its pointer.\<close>

definition proxy_StreamingRecognize ::
    "('k, 'a, 'x, 't, 'd, 'f, 'w, 'l, 'v, 'r) stream_env \<Rightarrow> ('q \<Rightarrow> streaming_request) \<Rightarrow>
     ('k, 'a, 'x, 't) kaldi_model model_map option \<Rightarrow> 'q list \<Rightarrow> connection \<times> status outcome" where
  "proxy_StreamingRecognize env reinterpret speech_service requests =
     (case speech_service of
        None \<Rightarrow> (new_connection, Fault Null_dereference)
      | Some models \<Rightarrow> StreamingRecognize env models (map reinterpret requests))"

end
