(* ===== verification/Streaming_Protocol.thy ===== *)
theory Streaming_Protocol
  imports Streaming_Recognize
begin

text \<open>
  What a client of the streaming call sees: the responses in their order, the status the call ends
  with, and how much of its audio is read.
\<close>

section \<open>The log of the responses\<close>

lemma add_results_OK:
  assumes "add_results env model config final offset res r = Ret (st, res', r')"
  shows "st = status_OK \<and>
    (res' = res \<or> (\<exists>alts. alts \<noteq> [] \<and>
       res' = res\<lparr>results := results res @ [\<lparr>alternatives = alts, is_final = final\<rparr>]\<rparr>))"
  using assms unfolding add_results_def
  by (auto simp: outcome_simps streaming_alternatives_def split: if_split_asm prod.split_asm dest: GetResults_found)

definition interim :: "streaming_response \<Rightarrow> bool" where
  "interim res \<longleftrightarrow> speech_event_type res = SPEECH_EVENT_UNSPECIFIED \<and>
     (\<exists>alts. alts \<noteq> [] \<and> results res = [\<lparr>alternatives = alts, is_final = False\<rparr>])"

definition end_result :: "streaming_response \<Rightarrow> bool" where
  "end_result res \<longleftrightarrow> speech_event_type res = SPEECH_EVENT_UNSPECIFIED \<and>
     (results res = [] \<or> (\<exists>alts. alts \<noteq> [] \<and> results res = [\<lparr>alternatives = alts, is_final = True\<rparr>]))"

definition delivered :: "('k, 'a, 'x, 't, 'd, 'f, 'w, 'l, 'v, 'r) stream_env \<Rightarrow> connection \<Rightarrow> bool" where
  "delivered env conn \<longleftrightarrow> (\<forall>k < length (conn_written conn). se_write_ok env k)"

definition broken :: "('k, 'a, 'x, 't, 'd, 'f, 'w, 'l, 'v, 'r) stream_env \<Rightarrow> connection \<Rightarrow> bool" where
  "broken env conn \<longleftrightarrow> conn_written conn \<noteq> [] \<and> \<not> se_write_ok env (length (conn_written conn) - 1) \<and>
     (\<forall>k < length (conn_written conn) - 1. se_write_ok env k)"

definition ended :: "('k, 'a, 'x, 't, 'd, 'f, 'w, 'l, 'v, 'r) stream_env \<Rightarrow> connection \<Rightarrow> status option \<Rightarrow> bool" where
  "ended env conn ret \<longleftrightarrow>
     (case ret of None \<Rightarrow> delivered env conn | Some st \<Rightarrow> st = status_CANCELLED \<and> broken env conn)"

lemma Write_log:
  "Write env res conn = (b, conn') \<Longrightarrow> delivered env conn \<Longrightarrow>
     conn_written conn' = conn_written conn @ [res] \<and> (if b then delivered env conn' else broken env conn')"
  by (auto simp: Write_def delivered_def broken_def less_Suc_eq)

lemma system_clock_log:
  "system_clock_now env conn = (t, conn') \<Longrightarrow>
     conn_written conn' = conn_written conn \<and> delivered env conn' = delivered env conn"
  by (auto simp: system_clock_now_def delivered_def)

lemma status_codes [simp]: "code status_OK = OK" "code status_CANCELLED = CANCELLED"
  by (simp_all add: status_OK_def status_CANCELLED_def)

lemma interim_result_log:
  assumes "interim_result env model config t conn seg = Ret (conn', seg', ret)" "delivered env conn"
  shows "\<exists>d. conn_written conn' = conn_written conn @ d \<and> list_all interim d \<and> ended env conn' ret"
proof -
  obtain now conn1 where now: "system_clock_now env conn = (now, conn1)" by fastforce
  have 1: "conn_written conn1 = conn_written conn" "delivered env conn1"
    using system_clock_log [OF now] assms(2) by simp_all
  show ?thesis
    using assms(1) 1 unfolding interim_result_def now Let_def prod.case
    by (auto simp: outcome_simps ended_def interim_def empty_response_def split: if_split_asm prod.split_asm
        dest!: add_results_OK Write_log)
qed

lemma process_chunk_log:
  assumes "process_chunk env model sc t chunk conn seg = Ret (conn', seg', ret)" "delivered env conn"
  shows "\<exists>d. conn_written conn' = conn_written conn @ d \<and> list_all interim d \<and> ended env conn' ret"
  using assms interim_result_log [OF _ assms(2)] unfolding process_chunk_def Let_def
  by (fastforce simp: outcome_simps ended_def split: if_split_asm)

lemma segment_loop_log:
  assumes "segment_loop env model sc t reqs conn seg = (conn', out)" "delivered env conn"
  shows "\<exists>d. conn_written conn' = conn_written conn @ d \<and> list_all interim d \<and>
    (case out of Ret (_, _, _, ret) \<Rightarrow> ended env conn' ret | _ \<Rightarrow> delivered env conn')"
  using assms
proof (induction reqs arbitrary: conn seg)
  case Nil
  then show ?case by (auto simp: ended_def)
next
  case (Cons req reqs)
  show ?case
  proof (cases "end_of_audio req")
    case True
    with Cons.prems show ?thesis by (auto simp: ended_def)
  next
    case False
    show ?thesis
    proof (cases "process_chunk env model sc t (audio_content req) conn seg")
      case (Ret step)
      obtain conn1 seg1 ret where step: "step = (conn1, seg1, ret)" by (cases step)
      from process_chunk_log [OF Ret [unfolded step] Cons.prems(2)] obtain d where
        d: "conn_written conn1 = conn_written conn @ d" "list_all interim d" "ended env conn1 ret" by blast
      show ?thesis
      proof (cases "ret \<noteq> None \<or> sg_endpoint seg1")
        case True
        with Cons.prems False Ret step d show ?thesis by auto
      next
        case stay: False
        then have "delivered env conn1" using d(3) by (simp add: ended_def)
        moreover have "segment_loop env model sc t reqs conn1 seg1 = (conn', out)"
          using Cons.prems(1) False Ret step stay by simp
        ultimately obtain d' where "conn_written conn' = conn_written conn1 @ d'" "list_all interim d'"
          "case out of Ret (_, _, _, ret) \<Rightarrow> ended env conn' ret | _ \<Rightarrow> delivered env conn'"
          using Cons.IH [of conn1 seg1] by blast
        then show ?thesis using d by (intro exI [of _ "d @ d'"]) simp
      qed
    qed (use Cons.prems False in auto)
  qed
qed

definition segment_end :: "bool \<Rightarrow> streaming_response list \<Rightarrow> status option \<Rightarrow> bool" where
  "segment_end single d ret \<longleftrightarrow> d = [] \<and> ret = None \<or>
     (\<exists>f. end_result f \<and>
        (d = [f] \<and> (single \<longrightarrow> ret \<noteq> None) \<or> single \<and> d = [f, event_response]))"

lemma segment_end_simps:
  "segment_end single [] ret \<longleftrightarrow> ret = None"
  "segment_end single [f] ret \<longleftrightarrow> end_result f \<and> (single \<longrightarrow> ret \<noteq> None)"
  "segment_end single [f, event_response] ret \<longleftrightarrow> single \<and> end_result f"
  by (auto simp: segment_end_def)

lemma finish_segment_log:
  assumes "finish_segment env model sc seg p conn = Ret (conn', p', ret)" "delivered env conn"
  shows "\<exists>d. conn_written conn' = conn_written conn @ d \<and> segment_end (single_utterance sc) d ret \<and> ended env conn' ret \<and>
    (ret = None \<longrightarrow> pr_end_of_single_utterance p' = (pr_end_of_single_utterance p \<or> single_utterance sc \<and> d \<noteq> []))"
proof -
  obtain state r where r: "GetAdaptationState (se_decoder env) (Finalize (se_decoder env) (sg_recognizer seg)) = (state, r)"
    by fastforce
  have fin: "end_result empty_response"
    "alts \<noteq> [] \<Longrightarrow> end_result (empty_response\<lparr>results := results empty_response @
       [\<lparr>alternatives = alts, is_final = True\<rparr>]\<rparr>)" for alts
    by (simp_all add: end_result_def empty_response_def)
  show ?thesis
    using assms unfolding finish_segment_def r Let_def prod.case
    by (auto simp: outcome_simps ended_def fin segment_end_simps split: if_split_asm prod.split_asm
        dest!: add_results_OK Write_log)
qed

text \<open>What one call has written when it ends with \<open>out\<close>.\<close>

definition protocol :: "bool \<Rightarrow> bool \<Rightarrow> streaming_response list \<Rightarrow> status outcome \<Rightarrow> bool" where
  "protocol single finished d out \<longleftrightarrow>
     (if finished then d = []
      else if single then
        (\<exists>ins. list_all interim ins \<and>
           (d = ins \<or> (\<exists>f. end_result f \<and> (d = ins @ [f] \<and> out = Ret status_CANCELLED \<or> d = ins @ [f, event_response]))))
      else list_all (\<lambda>r. interim r \<or> end_result r) d)"

definition call_ended :: "('k, 'a, 'x, 't, 'd, 'f, 'w, 'l, 'v, 'r) stream_env \<Rightarrow> connection \<Rightarrow> status outcome \<Rightarrow> bool" where
  "call_ended env conn out \<longleftrightarrow>
     (case out of Ret st \<Rightarrow> st = status_OK \<and> delivered env conn \<or> st = status_CANCELLED \<and> broken env conn
      | _ \<Rightarrow> delivered env conn)"

lemma call_ended_simps [simp]:
  "call_ended env conn (Throw e) = delivered env conn" "call_ended env conn (Fault b) = delivered env conn"
  "call_ended env conn (Ret status_OK) = delivered env conn"
  "call_ended env conn (Ret status_CANCELLED) = broken env conn"
  by (auto simp: call_ended_def status_OK_def status_CANCELLED_def)

text \<open>What the protocol of the rest of a call makes the protocol of the whole.\<close>

lemma protocol_interims: "list_all interim d \<Longrightarrow> protocol single False d out"
  by (auto simp: protocol_def elim: list.pred_mono_strong)

lemma protocol_ended:
  assumes "list_all interim d" "segment_end single e (Some st)"
  shows "protocol single False (d @ e) (Ret status_CANCELLED)"
  using assms by (auto simp: protocol_def segment_end_def event_response_def elim!: list.pred_mono_strong)

lemma protocol_round:
  assumes "list_all interim d" "segment_end single e None" "protocol single (single \<and> e \<noteq> []) d' out"
  shows "protocol single False (d @ e @ d') out"
proof (cases single)
  case single: True
  show ?thesis
  proof (cases "e = []")
    case True
    with assms(3) single obtain ins rest where "d' = ins @ rest" "list_all interim ins"
      "rest = [] \<or> (\<exists>f. end_result f \<and> (rest = [f] \<and> out = Ret status_CANCELLED \<or> rest = [f, event_response]))"
      by (auto simp: protocol_def)
    with assms(1) True single show ?thesis
      unfolding protocol_def by (auto intro!: exI [of _ "d @ ins"])
  next
    case False
    with assms single show ?thesis by (auto simp: protocol_def segment_end_def)
  qed
next
  case False
  with assms show ?thesis
    by (auto simp: protocol_def segment_end_def elim!: list.pred_mono_strong)
qed

lemma start_segment_log:
  "start_segment env model p conn = Ret (conn1, seg) \<Longrightarrow>
     conn_written conn1 = conn_written conn \<and> delivered env conn1 = delivered env conn"
  by (auto simp: start_segment_def Let_def outcome_simps split: prod.split_asm dest!: system_clock_log)

text \<open>What one round writes.\<close>

lemma round_log:
  assumes "start_segment env model p conn = Ret (conn1, seg)"
    and "segment_loop env model sc t reqs conn1 seg = (conn2, res)" "delivered env conn"
  shows "\<exists>d. conn_written conn2 = conn_written conn @ d \<and> list_all interim d \<and>
    (case res of Ret (_, _, _, ret) \<Rightarrow> ended env conn2 ret | _ \<Rightarrow> delivered env conn2)"
  using segment_loop_log [OF assms(2)] start_segment_log [OF assms(1)] assms(3) by simp

lemma call_failed: "\<forall>st. out \<noteq> Ret st \<Longrightarrow> call_ended env conn out = delivered env conn"
  by (cases out) simp_all

lemma run_segments_log:
  assumes "run_segments env model sc reqs p conn = (conn', out)" "delivered env conn"
    and "pr_end_of_single_utterance p \<longrightarrow> single_utterance sc"
  shows "call_ended env conn' out \<and> (\<exists>d. conn_written conn' = conn_written conn @ d \<and>
    protocol (single_utterance sc) (pr_end_of_single_utterance p) d out)"
  using assms
proof (induction rule: run_segments_rounds)
  case (idle reqs p conn)
  then show ?case by (auto simp: going_def protocol_def intro: exI [of _ "[]"])
next
  case (no_segment reqs p conn out)
  then show ?case by (auto simp: going_def call_failed protocol_def)
next
  case (lost reqs p conn conn1 seg conn2 res out)
  with round_log [OF lost(2,3)] show ?case
    by (cases res) (auto simp: going_def call_failed protocol_interims)
next
  case (ended_inside reqs p conn conn1 seg conn2 reqs1 go_on seg1 st)
  with round_log [OF ended_inside(2,3)] show ?case
    by (auto simp: going_def ended_def protocol_interims)
next
  case (unfinished reqs p conn conn1 seg conn2 reqs1 go_on seg1 out)
  with round_log [OF unfinished(2,3)] show ?case
    by (auto simp: going_def ended_def call_failed protocol_interims)
next
  case (ended_after reqs p conn conn1 seg conn2 reqs1 go_on seg1 conn3 p1 st)
  from round_log [OF ended_after(2,3)] ended_after(5) obtain d where
    d: "conn_written conn2 = conn_written conn @ d" "list_all interim d" "delivered env conn2"
    by (auto simp: ended_def)
  from finish_segment_log [OF ended_after(4) d(3)] obtain e where
    "conn_written conn3 = conn_written conn2 @ e" "segment_end (single_utterance sc) e (Some st)" "ended env conn3 (Some st)"
    by blast
  with d ended_after(1) show ?case by (auto simp: going_def ended_def intro: protocol_ended)
next
  case (round reqs p conn conn1 seg conn2 reqs1 go_on seg1 conn3 p1 conn' out)
  from round_log [OF round(2,3)] round(6) obtain d where
    d: "conn_written conn2 = conn_written conn @ d" "list_all interim d" "delivered env conn2"
    by (auto simp: ended_def)
  from finish_segment_log [OF round(4) d(3)] round(1) obtain e where
    e: "conn_written conn3 = conn_written conn2 @ e" "segment_end (single_utterance sc) e None" "delivered env conn3"
    "pr_end_of_single_utterance p1 = (single_utterance sc \<and> e \<noteq> [])"
    by (auto simp: going_def ended_def)
  from round(5) [OF e(3)] e(4) obtain d' where
    "call_ended env conn' out" "conn_written conn' = conn_written conn3 @ d'"
    "protocol (single_utterance sc) (single_utterance sc \<and> e \<noteq> []) d' out"
    by auto
  with d e round(1) protocol_round [OF d(2) e(2)] show ?case by (auto simp: going_def)
qed

lemma RunStreamingProcessor_log:
  assumes "RunStreamingProcessor env sc model reqs new_connection = (conn, out)"
  shows "call_ended env conn out \<and> protocol (single_utterance sc) False (conn_written conn) out"
proof -
  have new: "delivered env new_connection" "conn_written new_connection = []"
    by (simp_all add: delivered_def new_connection_def)
  have none: "protocol single False [] out" for single out by (simp add: protocol_def)
  show ?thesis
    using assms new none run_segments_log [OF _ new(1)]
    by (fastforce simp: RunStreamingProcessor_def Let_def split: outcome.split_asm)
qed


lemma StreamingRecognize_OK:
  assumes "StreamingRecognize env models (Streaming_config sc # reqs) = (conn, Ret status_OK)"
  shows "\<exists>model. models (generic_id (language_code (get_config (streaming_recognition_config sc)))) = Some model \<and>
    RunStreamingProcessor env sc model reqs new_connection = (conn, Ret status_OK)"
proof -
  let ?e = "ErrorVecToStatus (ValidateStreaming (Streaming_config sc) True (Some models))"
  have ok: "ok ?e"
    using assms by (auto simp: StreamingRecognize_def Let_def split: if_split_asm)
  then obtain model where model: "models (generic_id (language_code (get_config (streaming_recognition_config sc)))) = Some model"
    "map_prod id catch_streaming (RunStreamingProcessor env sc model reqs new_connection) = (conn, Ret status_OK)"
    using assms by (auto simp: StreamingRecognize_def at_map_def status_OK_def error_status_def split: option.split_asm)
  then obtain out where run: "RunStreamingProcessor env sc model reqs new_connection = (conn, out)"
    "catch_streaming out = Ret status_OK"
    by (cases "RunStreamingProcessor env sc model reqs new_connection") auto
  then have "out = Ret status_OK" by (cases out) (auto simp: status_OK_def error_status_def)
  with model run show ?thesis by blast
qed

lemma StreamingRecognize_responses:
  assumes "StreamingRecognize env models (Streaming_config sc # reqs) = (conn, Ret status_OK)"
  shows "if single_utterance sc then
      \<exists>answers. list_all interim answers \<and>
        (conn_written conn = answers \<or> (\<exists>f. end_result f \<and> conn_written conn = answers @ [f, event_response]))
    else list_all (\<lambda>r. interim r \<or> end_result r) (conn_written conn)"
  using StreamingRecognize_OK [OF assms] RunStreamingProcessor_log
  by (fastforce simp: protocol_def status_OK_def status_CANCELLED_def)


section \<open>Nothing after the end of the audio is looked at\<close>

lemma segment_loop_end:
  "segment_loop env model sc t (takeWhile (\<lambda>r. \<not> end_of_audio r) reqs) conn seg =
   map_prod id (omap (\<lambda>(rest, go_on, seg, ret).
     (if go_on then takeWhile (\<lambda>r. \<not> end_of_audio r) rest else [], go_on, seg, ret)))
     (segment_loop env model sc t reqs conn seg)"
  by (induction reqs arbitrary: conn seg) (auto split: outcome.split)

lemma run_segments_end:
  "run_segments env model sc (takeWhile (\<lambda>r. \<not> end_of_audio r) reqs) p conn = run_segments env model sc reqs p conn"
proof (induction env model sc reqs p conn rule: run_segments.induct)
  case (1 env model sc reqs p conn)
  let ?t = "takeWhile (\<lambda>r. \<not> end_of_audio r)"
  show ?case
  proof (cases "pr_more_data p \<and> \<not> pr_end_of_single_utterance p")
    case True
    note here = run_segments.simps [of env model sc _ p conn] True
    show ?thesis
    proof (cases "start_segment env model p conn")
      case (Ret start)
      obtain conn1 seg where seg: "start = (conn1, seg)" by fastforce
      obtain conn2 res where loop: "segment_loop env model sc (pr_time p) reqs conn1 seg = (conn2, res)" by fastforce
      show ?thesis
      proof (cases res)
        case res: (Ret out)
        obtain reqs1 go_on seg1 ret where out: "out = (reqs1, go_on, seg1, ret)" using prod_cases4 by blast
        show ?thesis
        proof (cases ret)
          case None
          have same: "run_segments env model sc (if go_on then ?t reqs1 else []) p1 conn3 = run_segments env model sc reqs1 p1 conn3"
            if fin: "finish_segment env model sc seg1 (p\<lparr>pr_more_data := go_on\<rparr>) conn2 = Ret (conn3, p1, None)" for conn3 p1
          proof (cases go_on)
            case go: True
            show ?thesis
              using 1 [OF True Ret seg [symmetric] loop [symmetric] res out [symmetric] refl refl None fin refl refl refl] go
              by simp
          next
            case False
            with finish_segment_more [OF fin] show ?thesis
              by (simp add: run_segments.simps [of env model sc _ p1 conn3])
          qed
          show ?thesis
            unfolding here(1)
            using same by (auto simp: True Ret seg loop res out None segment_loop_end split: outcome.split option.split)
        qed (simp add: here Ret seg loop res out segment_loop_end)
      qed (simp_all add: here Ret seg loop segment_loop_end)
    qed (simp_all add: here)
  qed (auto simp: run_segments.simps [of env model sc _ p conn])
qed

text \<open>
  C9. The audio of a call ends at the first message whose audio is empty (a configuration has none)
  or is the three bytes \<open>END\<close>: nothing behind it is looked at.
\<close>

theorem audio_ends:
  "RunStreamingProcessor env sc model reqs conn =
   RunStreamingProcessor env sc model (takeWhile (\<lambda>r. audio_content r \<noteq> [] \<and> audio_content r \<noteq> ''END'') reqs) conn"
proof -
  have "(\<lambda>r. audio_content r \<noteq> [] \<and> audio_content r \<noteq> ''END'') = (\<lambda>r. \<not> end_of_audio r)"
    by (auto simp: end_of_audio_def)
  then show ?thesis
    by (simp only: RunStreamingProcessor_def run_segments_end)
qed

section \<open>An example\<close>

definition toy_env :: "(unit, unit, unit, unit, int, int, unit, int list, int, unit) stream_env" where
  "toy_env = \<lparr>se_decoder = toy_decoder, se_text = toy_text, se_endpoint_config = endpoint_defaults toy_decoder,
     se_vad = loudness_lib, se_LinearResample = \<lambda>rate model_rate cutoff width. Ret (),
     se_Resample = \<lambda>wave flush r. (wave, r), se_write_ok = \<lambda>n. True, se_clock = \<lambda>n. 400000000 * int n\<rparr>"

definition toy_streaming_config :: streaming_config where
  "toy_streaming_config = \<lparr>streaming_recognition_config = Some toy_config, single_utterance = True,
     interim_results = False\<rparr>"

lemma toy_vad: "Vad loudness_lib kDefaultSampleRate 30 = Ret \<lparr>vad_sample_rate = 16000, frame_len_samples = 480, vad_detector = 1\<rparr>"
  by code_simp

lemma toy_env_fields: "se_decoder toy_env = toy_decoder" "se_text toy_env = toy_text" "se_vad toy_env = loudness_lib"
  "se_write_ok toy_env n" "se_clock toy_env n = 400000000 * int n"
  "se_LinearResample toy_env rate model_rate cutoff width = Ret ()"
  by (simp_all add: toy_env_def)

definition toy_chunk :: string where "toy_chunk = ''aaaaaaaaaaaa''"

lemma toy_process: "process_chunk toy_env toy_model sc 0 toy_chunk conn seg =
    Ret (conn, seg\<lparr>sg_time := 0, sg_speech_started := True, sg_recognizer := (sg_recognizer seg)\<lparr>decoder := 6\<rparr>, sg_endpoint := True\<rparr>, None)"
  if "sg_recognizer seg = Recognizer toy_decoder toy_model () []" "sg_time seg = 0" "\<not> sg_speech_started seg"
    "sg_vad seg = \<lparr>vad_sample_rate = 16000, frame_len_samples = 480, vad_detector = 1\<rparr>" 
    "cc_sample_rate (sg_converter seg) = cc_model_sample_rate (sg_converter seg)"
    "streaming_recognition_config sc = Some toy_config" "\<not> interim_results sc"
proof -
  have "sample_of CHR ''a'' CHR ''a'' = 24929" by (simp add: sample_of_def)
  then have wave: "linear16 toy_chunk = replicate 6 24929" by (simp add: toy_chunk_def numeral_eq_Suc)
  have samples: "otraverse to_int16 (replicate 6 24929) = Ret (replicate 6 24929)"
    using otraverse_Ret [of "replicate 6 24929" to_int16 "\<lambda>_. 24929"] by (simp add: to_int16_def trunc_def)
  have rate: "sample_rate_hertz toy_config = 16000" by (simp add: toy_config_def)
  have time: "length toy_chunk = 12" "int32_range 6000" "cdiv 6000 16000 = 0"
    by (simp_all add: toy_chunk_def int32_range_def cdiv_def)
  show ?thesis
    using that unfolding process_chunk_def Let_def
    by (simp add: rate time ToWaveform_def Linear16BytesToWaveVector_Ret wave detect_speech_def HasSpeech_waveform_def
        samples HasSpeech_vector_def HasSpeech_def toy_env_fields toy_Decode toy_frames)
      (simp add: Recognizer_def toy_decoder_def)
qed

lemma toy_facts:
  "language_code toy_config = ''is-IS''" "sample_rate_hertz toy_config = 16000" "the_alternatives toy_config = 1"
  "\<not> enable_automatic_punctuation toy_config" "toy_models (generic_id ''is-IS'') = Some toy_model"
  "trunc (GetSampleRate toy_features) = 16000" "\<not> end_of_audio (Audio_content toy_chunk)"
  "Write toy_env res conn = (True, conn\<lparr>conn_written := conn_written conn @ [res]\<rparr>)"
  by (simp_all add: toy_config_def default_config_def the_alternatives_def toy_models_def GetSampleRate_def
      toy_features_def trunc_def end_of_audio_def toy_chunk_def Write_def toy_env_fields)

lemma toy_valid:
  "streaming_recognition_config sc = Some toy_config \<Longrightarrow>
     ValidateStreaming (Streaming_config sc) True (Some toy_models) = []"
  by (simp add: ValidateStreaming_def streaming_config_errors_def toy_config_def
      ValidateConfig_def encoding_errors_def language_errors_def toy_models_def in_range_def default_config_def)

lemmas toy_run = StreamingRecognize_def toy_valid ErrorVecToStatus_def status_OK_def at_map_def RunStreamingProcessor_def Let_def
  toy_facts toy_model_fields ChunkConverter_def toy_env_fields run_segments.simps start_segment_def
  system_clock_now_def new_connection_def toy_vad toy_process finish_segment_def toy_frames
  add_results_def toy_best Recognizer_def

lemma toy_call:
  "\<exists>conn a. StreamingRecognize toy_env toy_models [Streaming_config toy_streaming_config, Audio_content toy_chunk] =
     (conn, Ret status_OK) \<and> conn_written conn = [a, event_response]"
proof -
  have "streaming_recognition_config toy_streaming_config = Some toy_config" "single_utterance toy_streaming_config"
      "\<not> interim_results toy_streaming_config"
    by (simp_all add: toy_streaming_config_def)
  then show ?thesis by (simp add: toy_run)
qed


section \<open>A sample rate of zero\<close>



end
