(* ===== verification/Streaming_Times.thy ===== *)
theory Streaming_Times
  imports Streaming_Protocol
begin

text \<open>
  What the final responses of a streaming call are about: the audio of the call is cut into segments
  at message boundaries, each segment is decoded by a recognizer of its own from the first message
  with speech on, and the times of its words are shifted by the duration of all the audio before.
\<close>

section \<open>Audio and its duration\<close>

definition audio_of :: "streaming_request list \<Rightarrow> string list" where
  "audio_of reqs = map audio_content (takeWhile (\<lambda>r. \<not> end_of_audio r) reqs)"

definition chunk_ms :: "int \<Rightarrow> string \<Rightarrow> int" where
  "chunk_ms rate c = cdiv (1000 * int (length c div 2)) rate"

definition audio_ms :: "int \<Rightarrow> string list \<Rightarrow> int" where
  "audio_ms rate cs = sum_list (map (chunk_ms rate) cs)"

lemma audio_ms_simps [simp]:
  "audio_ms rate [] = 0" "audio_ms rate (c # cs) = chunk_ms rate c + audio_ms rate cs"
  "audio_ms rate (cs @ ds) = audio_ms rate cs + audio_ms rate ds"
  by (simp_all add: audio_ms_def)

lemma audio_of_simps [simp]:
  "audio_of [] = []"
  "audio_of (r # reqs) = (if end_of_audio r then [] else audio_content r # audio_of reqs)"
  by (simp_all add: audio_of_def)

section \<open>What one segment hears\<close>

fun convert_all ::
    "('k, 'a, 'x, 't, 'd, 'f, 'w, 'l, 'v, 'r) stream_env \<Rightarrow> string list \<Rightarrow> 'r chunk_converter \<Rightarrow>
     (waveform list \<times> 'r chunk_converter) outcome" where
  "convert_all env [] cc = Ret ([], cc)"
| "convert_all env (c # cs) cc =
     obind (ToWaveform env c True cc) (\<lambda>(w, cc1). omap (\<lambda>(ws, cc2). (w # ws, cc2)) (convert_all env cs cc1))"

fun silent_chunks :: "'v webrtc \<Rightarrow> waveform list \<Rightarrow> 'v vad \<Rightarrow> nat" where
  "silent_chunks lib [] v = 0"
| "silent_chunks lib (w # ws) v =
     (case HasSpeech_waveform lib w v of Ret (v1, False) \<Rightarrow> Suc (silent_chunks lib ws v1) | _ \<Rightarrow> 0)"

text \<open>
  \<open>decoded waves r r' endpoint\<close>: decoding the waves one after the other takes the recognizer from \<open>r\<close> to
  \<open>r'\<close>; there is an end point after the last of them when \<open>endpoint\<close> says so, and after none before.
\<close>

fun decoded ::
    "('k, 'a, 'x, 't, 'd, 'f, 'w, 'l, 'v, 'r) stream_env \<Rightarrow> ('k, 'a, 'x, 't) kaldi_model \<Rightarrow> waveform list \<Rightarrow>
     ('a, 'd, 'f, 'w) recognizer \<Rightarrow> ('a, 'd, 'f, 'w) recognizer \<Rightarrow> bool \<Rightarrow> bool" where
  "decoded env model [] r r' endpoint = (r' = r \<and> \<not> endpoint)"
| "decoded env model (w # ws) r r' endpoint =
     (case recognizer_Decode (se_decoder env) model w False r of
        Ret r1 \<Rightarrow>
          if HasEndpoint (se_decoder env) (se_endpoint_config env) False r1 then ws = [] \<and> r' = r1 \<and> endpoint
          else decoded env model ws r1 r' endpoint
      | _ \<Rightarrow> False)"

text \<open>An interim result leaves the recognizer as it is.\<close>

lemma add_interim_result:
  "add_results env model config False offset res r = Ret (st, res', r') \<Longrightarrow> r' = r"
  unfolding add_results_def by (auto simp: outcome_simps split: if_split_asm elim!: GetResults_cases)

definition same_audio ::
    "('a, 'd, 'f, 'w, 'v, 'r) segment \<Rightarrow> ('a, 'd, 'f, 'w, 'v, 'r) segment \<Rightarrow> bool" where
  "same_audio s u \<longleftrightarrow> sg_recognizer u = sg_recognizer s \<and> sg_time u = sg_time s \<and> sg_vad u = sg_vad s \<and>
     sg_endpoint u = sg_endpoint s \<and> sg_vad_offset u = sg_vad_offset s \<and> sg_speech_started u = sg_speech_started s \<and> sg_converter u = sg_converter s"

lemma interim_result_audio:
  assumes "interim_result env model config t conn seg = Ret (conn', seg', ret)"
  shows "same_audio seg seg'"
  using assms unfolding interim_result_def
  by (auto simp: outcome_simps Let_def same_audio_def split: if_split_asm prod.split_asm dest!: add_interim_result)

definition hears ::
    "('k, 'a, 'x, 't, 'd, 'f, 'w, 'l, 'v, 'r) stream_env \<Rightarrow> ('k, 'a, 'x, 't) kaldi_model \<Rightarrow> waveform \<Rightarrow>
     ('a, 'd, 'f, 'w, 'v, 'r) segment \<Rightarrow> ('a, 'd, 'f, 'w, 'v, 'r) segment \<Rightarrow> bool" where
  "hears env model w s u \<longleftrightarrow> recognizer_Decode (se_decoder env) model w False (sg_recognizer s) = Ret (sg_recognizer u) \<and>
     sg_endpoint u = HasEndpoint (se_decoder env) (se_endpoint_config env) False (sg_recognizer u)"

lemma decoded_hears:
  "hears env model w s u \<Longrightarrow> decoded env model (w # ws) (sg_recognizer s) r' endpoint =
     (if sg_endpoint u then ws = [] \<and> r' = sg_recognizer u \<and> endpoint
      else decoded env model ws (sg_recognizer u) r' endpoint)"
  by (simp add: hears_def)

lemma process_chunk_audio:
  assumes "process_chunk env model sc t c conn seg = Ret (conn', seg', ret)"
  defines "rate \<equiv> sample_rate_hertz (get_config (streaming_recognition_config sc))"
  shows "\<exists>w. ToWaveform env c True (sg_converter seg) = Ret (w, sg_converter seg') \<and>
    sg_time seg' = sg_time seg + chunk_ms rate c \<and>
    (if sg_speech_started seg
     then sg_speech_started seg' \<and> sg_vad_offset seg' = sg_vad_offset seg \<and>
       hears env model w seg seg'
     else HasSpeech_waveform (se_vad env) w (sg_vad seg) = Ret (sg_vad seg', sg_speech_started seg') \<and>
       (if sg_speech_started seg'
        then sg_vad_offset seg' = sg_vad_offset seg \<and>
          hears env model w seg seg'
        else sg_vad_offset seg' = sg_vad_offset seg + chunk_ms rate c \<and> sg_recognizer seg' = sg_recognizer seg \<and> sg_endpoint seg' = sg_endpoint seg))"
proof -
  define before where "before cc = seg\<lparr>sg_time := sg_time seg + chunk_ms rate c, sg_converter := cc\<rparr>" for cc
  obtain w cc seg1 where w: "ToWaveform env c True (sg_converter seg) = Ret (w, cc)"
    and detect: "detect_speech env w (chunk_ms rate c) (before cc) = Ret seg1"
    and decode: "(if sg_speech_started seg1 then
          obind (recognizer_Decode (se_decoder env) model w False (sg_recognizer seg1)) (\<lambda>r.
          let endpoint = HasEndpoint (se_decoder env) (se_endpoint_config env) False r;
              seg2 = seg1\<lparr>sg_recognizer := r, sg_endpoint := endpoint\<rparr>
          in if interim_results sc \<and> \<not> endpoint
             then interim_result env model (get_config (streaming_recognition_config sc)) t conn seg2
             else Ret (conn, seg2, None))
        else Ret (conn, seg1, None)) = Ret (conn', seg', ret)"
  proof -
    obtain w cc where w: "ToWaveform env c True (sg_converter seg) = Ret (w, cc)"
      using assms(1) by (cases "ToWaveform env c True (sg_converter seg)") (auto simp: process_chunk_def Let_def split: if_split_asm)
    obtain seg1 where detect: "detect_speech env w (chunk_ms rate c) (before cc) = Ret seg1"
      using assms(1) w by (cases "detect_speech env w (chunk_ms rate c) (before cc)")
        (auto simp: process_chunk_def Let_def chunk_ms_def rate_def before_def split: if_split_asm)
    show thesis
      by (rule that [OF w detect], use assms(1) in \<open>simp only: process_chunk_def Let_def w obind.simps prod.case
          detect [unfolded before_def chunk_ms_def rate_def] split: if_split_asm\<close>) simp_all
  qed
  have after: "sg_time seg' = sg_time seg1" "sg_vad seg' = sg_vad seg1" "sg_vad_offset seg' = sg_vad_offset seg1"
      "sg_speech_started seg' = sg_speech_started seg1" "sg_converter seg' = sg_converter seg1"
      "if sg_speech_started seg1
       then hears env model w seg1 seg'
       else sg_recognizer seg' = sg_recognizer seg1 \<and> sg_endpoint seg' = sg_endpoint seg1"
    using decode
    by (auto simp: outcome_simps Let_def same_audio_def hears_def split: if_split_asm dest!: interim_result_audio)
  show ?thesis
  proof (cases "sg_speech_started seg")
    case True
    then have "seg1 = before cc" using detect by (simp add: detect_speech_def before_def)
    then show ?thesis using True w after by (simp add: before_def hears_def)
  next
    case False
    then obtain v started where v: "HasSpeech_waveform (se_vad env) w (sg_vad seg) = Ret (v, started)"
        "seg1 = (before cc)\<lparr>sg_vad := v, sg_speech_started := started,
            sg_vad_offset := (if started then sg_vad_offset seg else sg_vad_offset seg + chunk_ms rate c)\<rparr>"
      using detect by (auto simp: detect_speech_def before_def outcome_simps)
    then show ?thesis using False w after by (cases started) (simp_all add: before_def hears_def)
  qed
qed

lemma segment_loop_audio:
  assumes "segment_loop env model sc t reqs conn seg = (conn', Ret (reqs', go_on, seg', None))"
    and "\<not> sg_endpoint seg"
  defines "rate \<equiv> sample_rate_hertz (get_config (streaming_recognition_config sc))"
  shows "\<exists>cs ws n. audio_of reqs = cs @ (if go_on then audio_of reqs' else []) \<and>
    convert_all env cs (sg_converter seg) = Ret (ws, sg_converter seg') \<and>
    n = (if sg_speech_started seg then 0 else silent_chunks (se_vad env) ws (sg_vad seg)) \<and>
    decoded env model (drop n ws) (sg_recognizer seg) (sg_recognizer seg') go_on \<and>
    sg_time seg' = sg_time seg + audio_ms rate cs \<and>
    sg_vad_offset seg' = sg_vad_offset seg + audio_ms rate (take n cs)"
  using assms(1,2)
proof (induction reqs arbitrary: conn seg)
  case (Cons req reqs)
  show ?case
  proof (cases "end_of_audio req")
    case False
    then obtain conn1 seg1 ret where chunk: "process_chunk env model sc t (audio_content req) conn seg = Ret (conn1, seg1, ret)"
      using Cons.prems by (auto split: outcome.split_asm)
    obtain w where w: "ToWaveform env (audio_content req) True (sg_converter seg) = Ret (w, sg_converter seg1)"
        "sg_time seg1 = sg_time seg + chunk_ms rate (audio_content req)"
      and heard: "if sg_speech_started seg
       then sg_speech_started seg1 \<and> sg_vad_offset seg1 = sg_vad_offset seg \<and>
         hears env model w seg seg1
       else HasSpeech_waveform (se_vad env) w (sg_vad seg) = Ret (sg_vad seg1, sg_speech_started seg1) \<and>
         (if sg_speech_started seg1
          then sg_vad_offset seg1 = sg_vad_offset seg \<and>
            hears env model w seg seg1
          else sg_vad_offset seg1 = sg_vad_offset seg + chunk_ms rate (audio_content req) \<and>
            sg_recognizer seg1 = sg_recognizer seg \<and> sg_endpoint seg1 = sg_endpoint seg)"
      using process_chunk_audio [OF chunk] unfolding rate_def by blast
    obtain cs ws n where rest: "audio_of reqs = cs @ (if go_on then audio_of reqs' else [])"
        "convert_all env cs (sg_converter seg1) = Ret (ws, sg_converter seg')"
        "n = (if sg_speech_started seg1 then 0 else silent_chunks (se_vad env) ws (sg_vad seg1))"
        "if sg_endpoint seg1 then ws = [] \<and> seg' = seg1 \<and> go_on
         else decoded env model (drop n ws) (sg_recognizer seg1) (sg_recognizer seg') go_on"
        "sg_time seg' = sg_time seg1 + audio_ms rate cs" "sg_vad_offset seg' = sg_vad_offset seg1 + audio_ms rate (take n cs)"
    proof (cases "ret \<noteq> None \<or> sg_endpoint seg1")
      case True
      then have "seg' = seg1" "reqs' = reqs" "go_on" "sg_endpoint seg1" using Cons.prems False chunk by simp_all
      then show thesis by (intro that [of "[]" "[]" 0]) simp_all
    next
      case stay: False
      then have "segment_loop env model sc t reqs conn1 seg1 = (conn', Ret (reqs', go_on, seg', None))"
        using Cons.prems False chunk by simp
      from Cons.IH [OF this] stay show thesis using that by auto
    qed
    define m where "m = (if sg_speech_started seg then 0 else silent_chunks (se_vad env) (w # ws) (sg_vad seg))"
    have m: "m = (if sg_speech_started seg1 then 0 else Suc n)"
      using heard rest(3) by (auto simp: m_def split: if_split_asm)
    show ?thesis
      using False w rest heard m Cons.prems(2)
      by (intro exI [of _ "audio_content req # cs"] exI [of _ "w # ws"] exI [of _ m])
        (auto simp: m_def [symmetric] decoded_hears simp del: decoded.simps(2) split: if_split_asm)
  qed (use Cons.prems in auto)
qed auto

section \<open>The segments of a call\<close>

text \<open>The response of a finished segment, if there is one, and the left context of the next segment.\<close>

definition segment_answer ::
    "('k, 'a, 'x, 't, 'd, 'f, 'w, 'l, 'v, 'r) stream_env \<Rightarrow> ('k, 'a, 'x, 't) kaldi_model \<Rightarrow> recognition_config \<Rightarrow>
     int \<Rightarrow> aligned_word list \<Rightarrow> ('a, 'd, 'f, 'w) recognizer \<Rightarrow>
     (streaming_response list \<times> aligned_word list) outcome" where
  "segment_answer env model config offset context r =
     (if recognizer_NumFramesDecoded (se_decoder env) r > 0
      then omap (\<lambda>(st, f, r'). ([f], GetLeftContext r')) (add_results env model config True offset empty_response r)
      else Ret ([], context))"

text \<open>
  \<open>told adaptation context before cc audio finals left_over\<close>: after the messages \<open>before\<close>, with the converter
  \<open>cc\<close>, the messages \<open>audio\<close> are cut into segments up to \<open>left_over\<close>, and \<open>finals\<close> are the responses of the
  segments. A segment ends with the first message after which there is an end point, or with the
  audio; a new recognizer decodes its messages from the first one with speech on, and the times of its
  results are shifted by the duration of everything before that message. The adaptation state and the
  left context go from one segment to the next.
\<close>

inductive told ::
    "('k, 'a, 'x, 't, 'd, 'f, 'w, 'l, 'v, 'r) stream_env \<Rightarrow> ('k, 'a, 'x, 't) kaldi_model \<Rightarrow> recognition_config \<Rightarrow>
     'a \<Rightarrow> aligned_word list \<Rightarrow> string list \<Rightarrow> 'r chunk_converter \<Rightarrow> string list \<Rightarrow> streaming_response list \<Rightarrow>
     string list \<Rightarrow> bool"
  for env model config where
  told_nothing: "told env model config adaptation context before cc audio [] audio"
| told_segment: "convert_all env during cc = Ret (ws, cc1) \<Longrightarrow> Vad (se_vad env) kDefaultSampleRate 30 = Ret v \<Longrightarrow>
    n = silent_chunks (se_vad env) ws v \<Longrightarrow>
    decoded env model (drop n ws) (Recognizer (se_decoder env) model adaptation context) r endpoint \<Longrightarrow>
    endpoint \<or> audio = [] \<Longrightarrow>
    GetAdaptationState (se_decoder env) (Finalize (se_decoder env) r) = (adaptation1, r1) \<Longrightarrow>
    segment_answer env model config (audio_ms (sample_rate_hertz config) (before @ take n during)) context r1 =
      Ret (answer, context1) \<Longrightarrow>
    told env model config adaptation1 context1 (before @ during) cc1 audio finals left_over \<Longrightarrow>
    told env model config adaptation context before cc (during @ audio) (answer @ finals) left_over"

lemma finish_segment_answer:
  assumes "finish_segment env model sc seg p conn = Ret (conn', p', ret)"
    and r: "GetAdaptationState (se_decoder env) (Finalize (se_decoder env) (sg_recognizer seg)) = (state, r)"
  shows "\<exists>answer context event. conn_written conn' = conn_written conn @ answer @ event \<and> event \<in> {[], [event_response]} \<and>
    segment_answer env model (get_config (streaming_recognition_config sc)) (pr_time p + sg_vad_offset seg)
      (pr_left_context p) r = Ret (answer, context) \<and> list_all end_result answer \<and>
    (ret = None \<longrightarrow> pr_time p' = pr_time p + sg_time seg \<and> pr_converter p' = sg_converter seg \<and>
       pr_adaptation_state p' = state \<and> pr_left_context p' = context \<and>
       pr_end_of_single_utterance p' = (pr_end_of_single_utterance p \<or> single_utterance sc \<and> answer \<noteq> []))"
proof (cases "recognizer_NumFramesDecoded (se_decoder env) r > 0")
  case True
  note fin = assms(1) [unfolded finish_segment_def r Let_def prod.case add.commute [of "sg_vad_offset seg"]]
  obtain st res r' where res: "add_results env model (get_config (streaming_recognition_config sc)) True
      (pr_time p + sg_vad_offset seg) empty_response r = Ret (st, res, r')"
    using fin True by (auto simp: outcome_simps)
  have st: "st = status_OK" "end_result res"
    using add_results_OK [OF res] by (auto simp: end_result_def empty_response_def)
  have "segment_answer env model (get_config (streaming_recognition_config sc)) (pr_time p + sg_vad_offset seg)
      (pr_left_context p) r = Ret ([res], GetLeftContext r')"
    using True res by (simp add: segment_answer_def)
  moreover obtain event where "conn_written conn' = conn_written conn @ [res] @ event" "event \<in> {[], [event_response]}"
    using fin True by (simp add: res st Write_def split: if_split_asm) auto
  moreover have "ret = None \<longrightarrow> pr_time p' = pr_time p + sg_time seg \<and> pr_converter p' = sg_converter seg \<and>
       pr_adaptation_state p' = state \<and> pr_left_context p' = GetLeftContext r' \<and>
       pr_end_of_single_utterance p' = (pr_end_of_single_utterance p \<or> single_utterance sc)"
    using fin True by (simp add: res st Write_def split: if_split_asm) auto
  ultimately show ?thesis 
    using st by (intro exI [of _ "[res]"] exI [of _ "GetLeftContext r'"] exI [of _ event]) auto
next
  case False
  then show ?thesis
    using assms(1) by (auto simp: finish_segment_def r segment_answer_def)
qed

lemma not_end_result [simp]:
  "list_all interim d \<Longrightarrow> filter end_result d = []" "\<not> end_result event_response"
  by (auto simp: list_all_iff filter_empty_conv interim_def end_result_def event_response_def)

lemma end_results_kept [simp]: "list_all end_result d \<Longrightarrow> filter end_result d = d"
  by (simp add: list_all_iff)

lemma told_none: "\<exists>left_over. told env model config adaptation context before cc audio [] left_over"
  by (rule exI, rule told_nothing)

text \<open>A round that decodes a segment and writes its answer.\<close>

lemma start_segment_fresh:
  assumes "start_segment env model p conn = Ret (conn1, seg)"
  shows "\<exists>v. Vad (se_vad env) kDefaultSampleRate 30 = Ret v \<and>
    sg_recognizer seg = Recognizer (se_decoder env) model (pr_adaptation_state p) (pr_left_context p) \<and>
    sg_time seg = 0 \<and> sg_vad seg = v \<and> sg_vad_offset seg = 0 \<and> \<not> sg_speech_started seg \<and> \<not> sg_endpoint seg \<and>
    sg_converter seg = pr_converter p"
  using assms by (auto simp: start_segment_def Let_def outcome_simps split: prod.split_asm)

lemma round_told:
  assumes start: "start_segment env model p conn = Ret (conn1, seg)"
    and loop: "segment_loop env model sc (pr_time p) reqs conn1 seg = (conn2, Ret (reqs1, go_on, seg1, None))"
    and finish: "finish_segment env model sc seg1 (p\<lparr>pr_more_data := go_on\<rparr>) conn2 = Ret (conn3, p1, ret)"
    and "delivered env conn"
    and time: "pr_time p = audio_ms (sample_rate_hertz (get_config (streaming_recognition_config sc))) before"
  shows "\<exists>during new. conn_written conn3 = conn_written conn @ new \<and> ended env conn3 ret \<and>
    (\<forall>finals left_over.
      (ret = None \<longrightarrow> told env model (get_config (streaming_recognition_config sc)) (pr_adaptation_state p1)
         (pr_left_context p1) (before @ during) (pr_converter p1) (if go_on then audio_of reqs1 else []) finals left_over) \<longrightarrow>
      (ret \<noteq> None \<longrightarrow> finals = [] \<and> left_over = (if go_on then audio_of reqs1 else [])) \<longrightarrow>
      told env model (get_config (streaming_recognition_config sc)) (pr_adaptation_state p) (pr_left_context p) before
        (pr_converter p) (audio_of reqs) (filter end_result new @ finals) left_over) \<and>
    (ret = None \<longrightarrow> pr_more_data p1 = go_on \<and> pr_time p1 =
        audio_ms (sample_rate_hertz (get_config (streaming_recognition_config sc))) (before @ during) \<and>
      (pr_end_of_single_utterance p1 \<longrightarrow> pr_end_of_single_utterance p \<or> single_utterance sc))"
proof -
  let ?config = "get_config (streaming_recognition_config sc)"
  let ?audio = "if go_on then audio_of reqs1 else []"
  obtain v where v: "Vad (se_vad env) kDefaultSampleRate 30 = Ret v"
    and seg: "sg_recognizer seg = Recognizer (se_decoder env) model (pr_adaptation_state p) (pr_left_context p)"
      "sg_time seg = 0" "sg_vad seg = v" "sg_vad_offset seg = 0" "\<not> sg_speech_started seg" "\<not> sg_endpoint seg"
      "sg_converter seg = pr_converter p"
    using start_segment_fresh [OF start] by blast
  obtain d where d: "conn_written conn2 = conn_written conn @ d" "list_all interim d" "delivered env conn2"
    using round_log [OF start loop assms(4)] by (auto simp: ended_def)
  obtain cs ws n where heard: "audio_of reqs = cs @ ?audio" "convert_all env cs (pr_converter p) = Ret (ws, sg_converter seg1)"
      "n = silent_chunks (se_vad env) ws v"
      "decoded env model (drop n ws) (Recognizer (se_decoder env) model (pr_adaptation_state p) (pr_left_context p))
         (sg_recognizer seg1) go_on"
      "sg_time seg1 = audio_ms (sample_rate_hertz ?config) cs"
      "sg_vad_offset seg1 = audio_ms (sample_rate_hertz ?config) (take n cs)"
    using segment_loop_audio [OF loop seg(6)] seg by auto
  obtain state r where r: "GetAdaptationState (se_decoder env) (Finalize (se_decoder env) (sg_recognizer seg1)) = (state, r)"
    by fastforce
  obtain answer ctx event where answer: "conn_written conn3 = conn_written conn2 @ answer @ event"
      "event \<in> {[], [event_response]}" "list_all end_result answer"
      "segment_answer env model ?config (audio_ms (sample_rate_hertz ?config) (before @ take n cs))
         (pr_left_context p) r = Ret (answer, ctx)"
    and after: "ret = None \<longrightarrow> pr_time p1 = audio_ms (sample_rate_hertz ?config) (before @ cs) \<and>
      pr_converter p1 = sg_converter seg1 \<and> pr_adaptation_state p1 = state \<and> pr_left_context p1 = ctx \<and>
      (pr_end_of_single_utterance p1 \<longrightarrow> pr_end_of_single_utterance p \<or> single_utterance sc)"
    using finish_segment_answer [OF finish r] time heard(5,6) by auto
  have finals: "filter end_result (d @ answer @ event) = answer" using d(2) answer(2,3) by auto
  have stop: "go_on \<or> ?audio = []" by simp
  note segment = told_segment [OF heard(2) v heard(3,4) stop r answer(4), folded heard(1)]
  have told: "told env model ?config (pr_adaptation_state p) (pr_left_context p) before (pr_converter p)
      (audio_of reqs) (answer @ finals) left_over"
    if "ret = None \<longrightarrow> told env model ?config (pr_adaptation_state p1) (pr_left_context p1) (before @ cs)
         (pr_converter p1) ?audio finals left_over" "ret \<noteq> None \<longrightarrow> finals = [] \<and> left_over = ?audio" for finals left_over
  proof (cases ret)
    case None
    then show ?thesis using segment [of finals left_over] that after by simp
  next
    case (Some st)
    then show ?thesis using segment [OF told_nothing] that by simp
  qed
  have "ended env conn3 ret" using finish_segment_log [OF finish d(3)] by blast
  moreover have "ret = None \<longrightarrow> pr_more_data p1 = go_on" using finish_segment_more [OF finish] by simp
  ultimately show ?thesis
    using d(1) answer(1) after finals told
    by (intro exI [of _ cs] exI [of _ "d @ answer @ event"]) simp
qed

lemma run_segments_told:
  assumes "run_segments env model sc reqs p conn = (conn', out)" "delivered env conn"
    and "pr_time p = audio_ms (sample_rate_hertz (get_config (streaming_recognition_config sc))) before"
    and "pr_end_of_single_utterance p \<longrightarrow> single_utterance sc"
  shows "\<exists>new left_over. conn_written conn' = conn_written conn @ new \<and>
    told env model (get_config (streaming_recognition_config sc)) (pr_adaptation_state p) (pr_left_context p) before
      (pr_converter p) (if pr_more_data p then audio_of reqs else []) (filter end_result new) left_over \<and>
    (out = Ret status_OK \<and> \<not> single_utterance sc \<longrightarrow> left_over = [])"
  using assms
proof (induction arbitrary: before rule: run_segments_rounds)
  case (idle reqs p conn)
  then show ?case
    by (intro exI [of _ "[]"] exI [of _ "if pr_more_data p then audio_of reqs else []"])
      (auto simp: going_def intro: told_nothing)
next
  case (no_segment reqs p conn out)
  then show ?case
    by (intro exI [of _ "[]"] exI [of _ "audio_of reqs"]) (auto simp: going_def intro: told_nothing)
next
  case (lost reqs p conn conn1 seg conn2 res out)
  with round_log [OF lost(2,3)] show ?case by (auto simp: going_def intro!: told_none)
next
  case (ended_inside reqs p conn conn1 seg conn2 reqs1 go_on seg1 st)
  with round_log [OF ended_inside(2,3)] show ?case
    by (auto simp: going_def ended_def status_OK_def status_CANCELLED_def intro!: told_none)
next
  case (unfinished reqs p conn conn1 seg conn2 reqs1 go_on seg1 out)
  with round_log [OF unfinished(2,3)] show ?case by (auto simp: going_def intro!: told_none)
next
  case (ended_after reqs p conn conn1 seg conn2 reqs1 go_on seg1 conn3 p1 st)
  with round_told [OF ended_after(2-4,5,6)] show ?case
    by (fastforce simp: going_def ended_def status_OK_def status_CANCELLED_def)
next
  case (round reqs p conn conn1 seg conn2 reqs1 go_on seg1 conn3 p1 conn' out)
  obtain during new where new: "conn_written conn3 = conn_written conn @ new" "delivered env conn3"
      "pr_more_data p1 = go_on" "pr_end_of_single_utterance p1 \<longrightarrow> single_utterance sc"
      "pr_time p1 = audio_ms (sample_rate_hertz (get_config (streaming_recognition_config sc))) (before @ during)"
    and step: "\<And>finals left_over. told env model (get_config (streaming_recognition_config sc)) (pr_adaptation_state p1)
         (pr_left_context p1) (before @ during) (pr_converter p1) (if go_on then audio_of reqs1 else []) finals left_over \<Longrightarrow>
      told env model (get_config (streaming_recognition_config sc)) (pr_adaptation_state p) (pr_left_context p) before
        (pr_converter p) (audio_of reqs) (filter end_result new @ finals) left_over"
    using round_told [OF round(2-4,6,7)] round(8) by (auto simp: ended_def)
  from round(5) [OF new(2,5,4)] obtain more left_over where "conn_written conn' = conn_written conn3 @ more"
      "told env model (get_config (streaming_recognition_config sc)) (pr_adaptation_state p1) (pr_left_context p1)
         (before @ during) (pr_converter p1) (if go_on then audio_of reqs1 else []) (filter end_result more) left_over"
      "out = Ret status_OK \<and> \<not> single_utterance sc \<longrightarrow> left_over = []"
    unfolding new(3) by blast
  with new(1) step round(1) show ?case
    by (intro exI [of _ "new @ more"] exI [of _ left_over]) (simp add: going_def)
qed

section \<open>The call\<close>

text \<open>
  C3. What the final responses are about. The messages of the call, up to the end of its audio, are cut
  into segments, each ending with the first message after which the recognizer has an end point, and
  the final responses are those of the segments: a new recognizer decodes the messages of its segment
  from the first one with speech on, and the times of its words are shifted by the duration of all
  messages before that one, those of earlier segments included. The resampler, the adaptation state and
  the left context go from segment to segment. A call that ends well without
  \<open>single_utterance\<close> has decoded all of its audio.
\<close>

theorem streaming_times:
  assumes "StreamingRecognize env models (Streaming_config sc # reqs) = (conn, Ret status_OK)"
  defines "config \<equiv> get_config (streaming_recognition_config sc)"
  shows "\<exists>model cc left_over. models (generic_id (language_code config)) = Some model \<and>
    ChunkConverter env (sample_rate_hertz config) (trunc (GetSampleRate (model_feature_info model))) = Ret cc \<and>
    told env model config (initial_adaptation_state model) [] [] cc (audio_of reqs)
      (filter end_result (conn_written conn)) left_over \<and>
    (\<not> single_utterance sc \<longrightarrow> left_over = [])"
proof -
  obtain model where model: "models (generic_id (language_code config)) = Some model"
    and run: "RunStreamingProcessor env sc model reqs new_connection = (conn, Ret status_OK)"
    using StreamingRecognize_OK [OF assms(1)] unfolding config_def by blast
  from run obtain cc where cc: "ChunkConverter env (sample_rate_hertz config) (trunc (GetSampleRate (model_feature_info model))) = Ret cc"
    unfolding RunStreamingProcessor_def config_def by (auto split: outcome.split_asm)
  have new: "delivered env new_connection" "conn_written new_connection = []"
    by (simp_all add: delivered_def new_connection_def)
  from run cc have "run_segments env model sc reqs
      \<lparr>pr_adaptation_state = initial_adaptation_state model, pr_left_context = [], pr_time = 0,
       pr_converter = cc, pr_more_data = True, pr_end_of_single_utterance = False\<rparr> new_connection = (conn, Ret status_OK)"
    by (simp add: RunStreamingProcessor_def config_def)
  from run_segments_told [OF this new(1), of "[]"] obtain left_over where
    "told env model config (initial_adaptation_state model) [] [] cc (audio_of reqs) (filter end_result (conn_written conn)) left_over"
    "\<not> single_utterance sc \<longrightarrow> left_over = []"
    using new(2) by (auto simp: config_def)
  with model cc show ?thesis by blast
qed

theorem streaming_times_witness:
  "\<exists>conn a cc left_over. StreamingRecognize toy_env toy_models
     [Streaming_config toy_streaming_config, Audio_content toy_chunk] = (conn, Ret status_OK) \<and>
     conn_written conn = [a, event_response] \<and>
     told toy_env toy_model toy_config (initial_adaptation_state toy_model) [] [] cc [toy_chunk] [a] left_over"
proof -
  obtain conn a where call: "StreamingRecognize toy_env toy_models
      [Streaming_config toy_streaming_config, Audio_content toy_chunk] = (conn, Ret status_OK)"
    and two: "conn_written conn = [a, event_response]"
    using toy_call by blast
  have audio: "audio_of [Audio_content toy_chunk] = [toy_chunk]" by (simp add: toy_facts)
  have config: "streaming_recognition_config toy_streaming_config = Some toy_config" "single_utterance toy_streaming_config"
    by (simp_all add: toy_streaming_config_def)
  have a: "filter end_result [a, event_response] = [a]"
  proof -
    have "\<not> interim event_response" by (simp add: interim_def event_response_def)
    then have "end_result a" using StreamingRecognize_responses [OF call] config(2) two by auto
    then show ?thesis by simp
  qed
  obtain cc left_over where
    "told toy_env toy_model toy_config (initial_adaptation_state toy_model) [] [] cc [toy_chunk] [a] left_over"
    using streaming_times [OF call, unfolded audio two a] by (auto simp: config toy_facts)
  then show ?thesis by (intro exI conjI) (rule call, rule two)
qed

end
