(* ===== verification/End_Of_Input.thy ===== *)
theory End_Of_Input
  imports Streaming_Recognize
begin

text \<open>
  What the calls never look at: the adaptation state, which every new \<open>Recognizer\<close> stores without giving
  it to its feature pipeline, and the signal that the input is finished, because audio is only decoded
  while more of it is expected. Both are proved as an equivalence: a library and a model that differ in these give the same call.
\<close>

text \<open>A library and a model that differ in the end-of-input signal and the initial state only.\<close>

definition other_lib :: "('f \<Rightarrow> 'f) \<Rightarrow> ('k, 'a, 'd, 'f, 'w, 'l) decoder_lib \<Rightarrow> ('k, 'a, 'd, 'f, 'w, 'l) decoder_lib" where
  "other_lib g lib = lib\<lparr>InputFinished := g\<rparr>"

definition other_env ::
  "('f \<Rightarrow> 'f) \<Rightarrow> ('k, 'a, 'x, 't, 'd, 'f, 'w, 'l, 'v, 'r) stream_env \<Rightarrow> ('k, 'a, 'x, 't, 'd, 'f, 'w, 'l, 'v, 'r) stream_env" where
  "other_env g env = env\<lparr>se_decoder := other_lib g (se_decoder env)\<rparr>"

definition other_model :: "'a \<Rightarrow> ('k, 'a, 'x, 't) kaldi_model \<Rightarrow> ('k, 'a, 'x, 't) kaldi_model" where
  "other_model a model = model\<lparr>initial_adaptation_state := a\<rparr>"

definition readapt :: "'a \<Rightarrow> ('a, 'd, 'f, 'w, 'v, 'r) segment \<Rightarrow> ('a, 'd, 'f, 'w, 'v, 'r) segment" where
  "readapt a seg = seg\<lparr>sg_recognizer := (sg_recognizer seg)\<lparr>adaptation_state := a\<rparr>\<rparr>"

lemma env_fields:
  "se_decoder (other_env g env) = other_lib g (se_decoder env)" "se_text (other_env g env) = se_text env"
  "se_endpoint_config (other_env g env) = se_endpoint_config env" "se_vad (other_env g env) = se_vad env"
  "se_LinearResample (other_env g env) = se_LinearResample env" "se_Resample (other_env g env) = se_Resample env"
  "se_write_ok (other_env g env) = se_write_ok env" "se_clock (other_env g env) = se_clock env"
  by (simp_all add: other_env_def)

lemma lib_fields:
  "AcceptWaveform (other_lib g lib) = AcceptWaveform lib"
  "pipeline_GetAdaptationState (other_lib g lib) = pipeline_GetAdaptationState lib"
  "Recognizer.NumFramesReady (other_lib g lib) = Recognizer.NumFramesReady lib"
  "has_ivector (other_lib g lib) = has_ivector lib"
  "UpdateFrameWeights (other_lib g lib) = UpdateFrameWeights lib"
  "new_pipeline (other_lib g lib) = new_pipeline lib"
  "new_silence_weighting (other_lib g lib) = new_silence_weighting lib"
  "Active (other_lib g lib) = Active lib"
  "ComputeCurrentTraceback (other_lib g lib) = ComputeCurrentTraceback lib"
  "GetDeltaWeights (other_lib g lib) = GetDeltaWeights lib"
  "new_decoder (other_lib g lib) = new_decoder lib"
  "AdvanceDecoding (other_lib g lib) = AdvanceDecoding lib"
  "decoder_NumFramesDecoded (other_lib g lib) = decoder_NumFramesDecoded lib"
  "FinalizeDecoding (other_lib g lib) = FinalizeDecoding lib"
  "InitDecoding (other_lib g lib) = InitDecoding lib"
  "EndpointDetected (other_lib g lib) = EndpointDetected lib"
  "GetBestPath (other_lib g lib) = GetBestPath lib"
  "GetLattice (other_lib g lib) = GetLattice lib"
  "ComposeConstArpa (other_lib g lib) = ComposeConstArpa lib"
  "ConvertLattice (other_lib g lib) = ConvertLattice lib"
  "InvertLattice (other_lib g lib) = InvertLattice lib"
  "DeterminizeLattice (other_lib g lib) = DeterminizeLattice lib"
  "ShortestPaths (other_lib g lib) = ShortestPaths lib"
  "ConvertNbestToVector (other_lib g lib) = ConvertNbestToVector lib"
  "RmEpsilonLattice (other_lib g lib) = RmEpsilonLattice lib"
  "WordAlignLattice (other_lib g lib) = WordAlignLattice lib"
  "NumStates (other_lib g lib) = NumStates lib"
  "WordAlignment (other_lib g lib) = WordAlignment lib"
  "LinearSymbolSequence (other_lib g lib) = LinearSymbolSequence lib"
  "endpoint_defaults (other_lib g lib) = endpoint_defaults lib"
  by (simp_all add: other_lib_def)

lemma model_fields:
  "word_syms (other_model a model) = word_syms model" "model_feature_info (other_model a model) = model_feature_info model"
  "const_arpa_lm (other_model a model) = const_arpa_lm model"
  "model_punctuator (other_model a model) = model_punctuator model"
  "model_formatter (other_model a model) = model_formatter model"
  "initial_adaptation_state (other_model a model) = a"
  by (simp_all add: other_model_def)

lemma find_symbol_other: "find_symbol (other_model a model) = find_symbol model"
  by (intro ext) (simp add: find_symbol_def model_fields)

lemma other_transcripts_other:
  "other_transcripts (other_lib g lib) (other_model a model) lats ts = other_transcripts lib model lats ts"
proof (induction lats arbitrary: ts)
  case (Cons lat lats)
  have "LinearSymbolSequence (other_lib g lib) = LinearSymbolSequence lib" by (simp add: other_lib_def)
  then show ?case by (simp add: Cons.IH find_symbol_other split: option.split)
qed simp

lemma GetShortestPaths_other:
  "GetShortestPaths (other_lib g lib) (other_model a model) n fin resc (r\<lparr>adaptation_state := b\<rparr>) =
   GetShortestPaths lib model n fin resc r"
  by (simp add: GetShortestPaths_def RescoreLattice_def other_lib_def model_fields Let_def split: option.split)

lemma GetWordAlignments_other:
  "GetWordAlignments (other_lib g lib) (other_model a model) given lat = GetWordAlignments lib model given lat"
  unfolding GetWordAlignments_def find_symbol_other model_fields lib_fields ..

definition readapt_snd :: "'a \<Rightarrow> 'y \<times> ('a, 'd, 'f, 'w) recognizer \<Rightarrow> 'y \<times> ('a, 'd, 'f, 'w) recognizer" where
  "readapt_snd a p = (fst p, (snd p)\<lparr>adaptation_state := a\<rparr>)"

lemma format_best_other: "format_best tx (other_model a model) alis = format_best tx model alis"
  by (simp add: format_best_def model_fields)

lemma GetResults_other:
  "GetResults (other_lib g lib) tx (other_model a model) n given fin punct (r\<lparr>adaptation_state := b\<rparr>) =
   omap (readapt_snd b) (GetResults lib tx model n given fin punct r)"
proof -
  have bp: "GetBestPath (other_lib g lib) = GetBestPath lib" by (simp add: other_lib_def)
  show ?thesis
    unfolding GetResults_def GetShortestPaths_other GetWordAlignments_other other_transcripts_other format_best_other
      model_fields bp
    by (auto simp: omap_obind omap_comp readapt_snd_def Let_def
        intro!: arg_cong2 [where f = obind] arg_cong2 [where f = omap] ext split: list.split option.split prod.split)
qed

lemma Decode_other:
  "recognizer_Decode (other_lib g lib) (other_model a model) wave False (r\<lparr>adaptation_state := b\<rparr>) =
   omap (\<lambda>r. r\<lparr>adaptation_state := b\<rparr>) (recognizer_Decode lib model wave False r)"
  unfolding recognizer_Decode_def omap_comp model_fields lib_fields Let_def
  by (auto split: prod.split intro!: arg_cong2 [where f = omap] ext)

lemma recognizer_other:
  "recognizer_NumFramesDecoded (other_lib g lib) (r\<lparr>adaptation_state := b\<rparr>) = recognizer_NumFramesDecoded lib r"
  "HasEndpoint (other_lib g lib) conf one (r\<lparr>adaptation_state := b\<rparr>) = HasEndpoint lib conf one r"
  "GetBestHypothesis (other_lib g lib) (other_model a model) fin (r\<lparr>adaptation_state := b\<rparr>) =
     GetBestHypothesis lib model fin r"
  "GetAdaptationState (other_lib g lib) (Finalize (other_lib g lib) (r\<lparr>adaptation_state := b\<rparr>)) =
     GetAdaptationState lib (Finalize lib r)"
proof -
  show "recognizer_NumFramesDecoded (other_lib g lib) (r\<lparr>adaptation_state := b\<rparr>) = recognizer_NumFramesDecoded lib r" for r b
    by (simp add: recognizer_NumFramesDecoded_def other_lib_def)
  then show "HasEndpoint (other_lib g lib) conf one (r\<lparr>adaptation_state := b\<rparr>) = HasEndpoint lib conf one r"
    by (simp add: HasEndpoint_def) (simp add: other_lib_def)
  show "GetBestHypothesis (other_lib g lib) (other_model a model) fin (r\<lparr>adaptation_state := b\<rparr>) =
     GetBestHypothesis lib model fin r"
    unfolding GetBestHypothesis_def GetLinearSymbolSequenceString_def find_symbol_other lib_fields by simp
  show "GetAdaptationState (other_lib g lib) (Finalize (other_lib g lib) (r\<lparr>adaptation_state := b\<rparr>)) =
     GetAdaptationState lib (Finalize lib r)"
    by (simp add: GetAdaptationState_def Finalize_def other_lib_def Let_def)
qed

lemma add_results_other:
  "add_results (other_env g env) (other_model a model) config final offset res (r\<lparr>adaptation_state := b\<rparr>) =
   omap (\<lambda>(st, res, r). (st, res, r\<lparr>adaptation_state := b\<rparr>)) (add_results env model config final offset res r)"
  unfolding add_results_def env_fields GetResults_other omap_comp readapt_snd_def
  by (intro arg_cong2 [where f = omap] ext) (auto split: prod.split)

lemma system_clock_other: "system_clock_now (other_env g env) conn = system_clock_now env conn"
  by (simp add: system_clock_now_def env_fields)

lemma Write_other: "Write (other_env g env) res conn = Write env res conn"
  by (simp add: Write_def env_fields)

lemma readapt_fields:
  "sg_recognizer (readapt b seg) = (sg_recognizer seg)\<lparr>adaptation_state := b\<rparr>" "sg_time (readapt b seg) = sg_time seg"
  "sg_last_interim_result (readapt b seg) = sg_last_interim_result seg"
  "sg_last_transcript (readapt b seg) = sg_last_transcript seg" "sg_endpoint (readapt b seg) = sg_endpoint seg"
  "sg_vad (readapt b seg) = sg_vad seg" "sg_vad_offset (readapt b seg) = sg_vad_offset seg"
  "sg_speech_started (readapt b seg) = sg_speech_started seg" "sg_converter (readapt b seg) = sg_converter seg"
  by (simp_all add: readapt_def)

abbreviation readapt_result where
  "readapt_result b \<equiv> \<lambda>(conn, seg, ret). (conn, readapt b seg, ret)"

lemma interim_result_other:
  "interim_result (other_env g env) (other_model a model) config t conn (readapt b seg) =
   omap (readapt_result b) (interim_result env model config t conn seg)"
  unfolding interim_result_def Let_def env_fields readapt_fields recognizer_other add_results_other system_clock_other Write_other
  by (auto simp: omap_obind omap_comp Let_def readapt_def split: prod.split
      intro!: arg_cong2 [where f = obind] arg_cong2 [where f = omap] ext)

lemma detect_speech_other:
  "detect_speech (other_env g env) wave t (readapt b seg) = omap (readapt b) (detect_speech env wave t seg)"
  unfolding detect_speech_def env_fields readapt_fields
  by (auto simp: omap_comp readapt_def intro!: arg_cong2 [where f = omap] ext)

lemma process_chunk_other:
  "process_chunk (other_env g env) (other_model a model) sc t chunk conn (readapt b seg) =
   omap (readapt_result b) (process_chunk env model sc t chunk conn seg)"
proof -
  have upd: "(readapt b seg)\<lparr>sg_time := x, sg_converter := y\<rparr> = readapt b (seg\<lparr>sg_time := x, sg_converter := y\<rparr>)" for x y
    by (simp add: readapt_def)
  have wave: "ToWaveform (other_env g env) = ToWaveform env"
    by (intro ext) (simp only: ToWaveform_def env_fields)
  have upd2: "(readapt b s)\<lparr>sg_recognizer := r\<lparr>adaptation_state := b\<rparr>, sg_endpoint := e\<rparr> = readapt b (s\<lparr>sg_recognizer := r, sg_endpoint := e\<rparr>)" 
    for s e and r by (simp add: readapt_def)
  show ?thesis
    unfolding process_chunk_def Let_def env_fields readapt_fields wave upd detect_speech_other obind_omap Decode_other
      recognizer_other upd2 interim_result_other
    by (auto simp: omap_obind obind_omap readapt_fields Decode_other recognizer_other upd2 interim_result_other Let_def
       intro!: arg_cong2 [where f = obind] ext)
qed

lemma segment_loop_other:
  "segment_loop (other_env g env) (other_model a model) sc t reqs conn (readapt b seg) =
   map_prod id (omap (\<lambda>(reqs, go_on, seg, ret). (reqs, go_on, readapt b seg, ret))) (segment_loop env model sc t reqs conn seg)"
  by (induction reqs arbitrary: conn seg)
    (auto simp: process_chunk_other readapt_fields split: outcome.split)

lemma finish_segment_other:
  "finish_segment (other_env g env) (other_model a model) sc (readapt b seg) (p\<lparr>pr_adaptation_state := c\<rparr>) conn =
   finish_segment env model sc seg p conn"
proof -
  obtain state r where r: "GetAdaptationState (se_decoder env) (Finalize (se_decoder env) (sg_recognizer seg)) = (state, r)"
    by fastforce
  have res: "add_results (other_env g env) (other_model a model) config final offset res r =
      omap (\<lambda>(st, res, r'). (st, res, r'\<lparr>adaptation_state := adaptation_state r\<rparr>))
        (add_results env model config final offset res r)" for config final offset res
    using add_results_other [where r = r and b = "adaptation_state r"] by simp
  have frames: "recognizer_NumFramesDecoded (other_lib g (se_decoder env)) r = recognizer_NumFramesDecoded (se_decoder env) r"
    using recognizer_other(1) [where r = r and b = "adaptation_state r"] by simp
  show ?thesis
    unfolding finish_segment_def env_fields readapt_fields recognizer_other r Let_def prod.case frames res omap_comp Write_other
    by (auto simp: GetLeftContext_def intro!: arg_cong2 [where f = omap] ext split: prod.split)
qed

lemma start_segment_other:
  "start_segment (other_env g env) (other_model a model) (p\<lparr>pr_adaptation_state := c\<rparr>) conn =
   omap (\<lambda>(conn, seg). (conn, readapt c seg)) (start_segment env model p conn)"
  unfolding start_segment_def Let_def env_fields system_clock_other omap_comp
  by (auto simp: readapt_def Recognizer_def model_fields lib_fields omap_comp split: prod.split intro!: arg_cong2 [where f = omap] ext)

lemma run_segments_other:
  "run_segments (other_env g env) (other_model a model) sc reqs (p\<lparr>pr_adaptation_state := c\<rparr>) conn =
   run_segments env model sc reqs p conn"
proof (induction env model sc reqs p conn arbitrary: c rule: run_segments.induct)
  case (1 env model sc reqs p conn)
  show ?case
  proof (cases "pr_more_data p \<and> \<not> pr_end_of_single_utterance p")
    case True
    note here = run_segments.simps [of _ _ sc reqs _ conn] True start_segment_other
    show ?thesis
    proof (cases "start_segment env model p conn")
      case (Ret start)
      obtain conn1 seg where seg: "start = (conn1, seg)" by fastforce
      obtain conn2 res where loop: "segment_loop env model sc (pr_time p) reqs conn1 seg = (conn2, res)" by fastforce
      show ?thesis
      proof (cases res)
        case res: (Ret out)
        obtain reqs1 go_on seg1 ret where out: "out = (reqs1, go_on, seg1, ret)" using prod_cases4 by blast
        show ?thesis
        proof (cases ret)
          case None
          have upd: "p\<lparr>pr_adaptation_state := c, pr_more_data := go_on\<rparr> = (p\<lparr>pr_more_data := go_on\<rparr>)\<lparr>pr_adaptation_state := c\<rparr>"
            by simp
          have same: "run_segments (other_env g env) (other_model a model) sc reqs1 p1 conn3 =
              run_segments env model sc reqs1 p1 conn3"
            if "finish_segment env model sc seg1 (p\<lparr>pr_more_data := go_on\<rparr>) conn2 = Ret (conn3, p1, None)" for conn3 p1
            using 1 [OF True Ret seg [symmetric] loop [symmetric] res out [symmetric] refl refl None that refl refl refl,
                where c = "pr_adaptation_state p1"] by simp
          show ?thesis
            unfolding here(1) start_segment_other
            by (simp add: True Ret seg loop res out None segment_loop_other upd finish_segment_other same
                split: outcome.split option.split prod.split)
        qed (simp add: here Ret seg loop res out segment_loop_other)
      qed (simp_all add: here Ret seg loop segment_loop_other)
    qed (simp_all add: here)
  qed (auto simp: run_segments.simps [of _ _ sc reqs _ conn])
qed

text \<open>
  C7. The streaming call does the same whatever adaptation state the model starts with, and whatever
  the feature pipeline would do when told that the input is finished: the adaptation state that is
  carried from segment to segment never reaches a pipeline, and the end of the input is never
  signalled.
\<close>

theorem adaptation_and_end_ignored:
  "RunStreamingProcessor (env\<lparr>se_decoder := (se_decoder env)\<lparr>InputFinished := g\<rparr>\<rparr>) sc
     (model\<lparr>initial_adaptation_state := a\<rparr>) reqs conn =
   RunStreamingProcessor env sc model reqs conn"
proof -
  have cc: "ChunkConverter (other_env g env) = ChunkConverter env"
    by (intro ext) (simp add: ChunkConverter_def env_fields)
  let ?p = "\<lambda>cc. \<lparr>pr_adaptation_state = initial_adaptation_state model, pr_left_context = [], pr_time = 0,
      pr_converter = cc, pr_more_data = True, pr_end_of_single_utterance = False\<rparr>"
  have "RunStreamingProcessor (other_env g env) sc (other_model a model) reqs conn =
      RunStreamingProcessor env sc model reqs conn"
  proof -
    have run: "run_segments (other_env g env) (other_model a model) sc reqs ((?p c)\<lparr>pr_adaptation_state := a\<rparr>) conn =
        run_segments env model sc reqs (?p c) conn" for c
      by (rule run_segments_other)
    show ?thesis
      using run by (simp add: RunStreamingProcessor_def cc model_fields Let_def split: outcome.split)
  qed
  then show ?thesis by (simp add: other_env_def other_lib_def other_model_def)
qed

section \<open>The unary call on a URI\<close>

lemma fill_buffer_chunks:
  "fill_buffer lib sync fuel n dec s = Some (Ret s') \<Longrightarrow> no_more_chunks s' = no_more_chunks s"
proof (induction n arbitrary: dec s)
  case (Suc n)
  from Suc.prems show ?case
    by (auto simp: fbind_Ret Let_def split: if_split_asm prod.split_asm dest!: Suc.IH)
qed simp

lemma take_chunk_end:
  "take_chunk s = Ret (c, s') \<Longrightarrow> no_more_chunks s' \<Longrightarrow> \<not> no_more_chunks s \<Longrightarrow> c = []"
  by (auto simp: take_chunk_def Let_def outcome_simps Range_def split: if_split_asm prod.split_asm)

lemma streaming_NextChunk_end:
  assumes "streaming_NextChunk lib sync fuel s = Some (Ret (c, s'))" "streaming_HasMoreChunks s" "\<not> streaming_HasMoreChunks s'"
  shows "c = []"
  using assms take_chunk_end fill_buffer_chunks
  by (fastforce simp: streaming_NextChunk_def streaming_HasMoreChunks_def fbind_Ret split: if_split_asm option.split_asm)

lemma read_chunks_streaming_cong:
  assumes same: "\<And>c flag u. (flag \<longrightarrow> c = []) \<Longrightarrow> f c flag u = g c flag u"
  shows "read_chunks env fuel f n (Streaming_source s) u = read_chunks env fuel g n (Streaming_source s) u"
proof (induction n arbitrary: s u)
  case (Suc n)
  show ?case
  proof (cases "streaming_HasMoreChunks s")
    case True
    show ?thesis
    proof (cases "streaming_NextChunk (env_av env) (env_sync env) fuel s")
      case (Some out)
      show ?thesis
      proof (cases out)
        case (Ret x)
        obtain c s' where x: "x = (c, s')" by fastforce
        have "(\<not> streaming_HasMoreChunks s') \<longrightarrow> c = []"
          using streaming_NextChunk_end [OF Some [unfolded Ret x] True] by simp
        then have "f c (\<not> streaming_HasMoreChunks s') u = g c (\<not> streaming_HasMoreChunks s') u" by (rule same)
        then show ?thesis
          by (cases "g c (\<not> streaming_HasMoreChunks s') u") (simp_all add: True Some Ret x Suc)
      qed (simp_all add: True Some)
    qed (simp add: True)
  qed simp
qed simp

definition other_recognize_env ::
    "('f \<Rightarrow> 'f) \<Rightarrow> ('k, 'a, 'x, 't, 'd, 'f, 'w, 'l, 'v, 'o, 'p) recognize_env \<Rightarrow>
     ('k, 'a, 'x, 't, 'd, 'f, 'w, 'l, 'v, 'o, 'p) recognize_env" where
  "other_recognize_env g env = env\<lparr>env_decoder := other_lib g (env_decoder env)\<rparr>"

lemma recognize_env_fields:
  "env_decoder (other_recognize_env g env) = other_lib g (env_decoder env)"
  "env_text (other_recognize_env g env) = env_text env"
  "env_resampler (other_recognize_env g env) = env_resampler env"
  "env_coded_bytes (other_recognize_env g env) = env_coded_bytes env"
  "env_av (other_recognize_env g env) = env_av env" "env_strerror (other_recognize_env g env) = env_strerror env"
  "env_url (other_recognize_env g env) = env_url env" "env_sync (other_recognize_env g env) = env_sync env"
  "env_diarization (other_recognize_env g env) = env_diarization env"
  "env_info (other_recognize_env g env) = env_info env"
  "env_in_segment (other_recognize_env g env) = env_in_segment env"
  "env_features (other_recognize_env g env) = env_features env"
  "env_new_features (other_recognize_env g env) = env_new_features env"
  "env_frame_shift_ms (other_recognize_env g env) = env_frame_shift_ms env"
  by (simp_all add: other_recognize_env_def)

lemma end_of_input_only:
  "recognizer_Decode (other_lib g lib) model wave False r = recognizer_Decode lib model wave False r"
  "GetResults (other_lib g lib) tx model n given fin punct r = GetResults lib tx model n given fin punct r"
  "Finalize (other_lib g lib) r = Finalize lib r" "Recognizer_fresh (other_lib g lib) model = Recognizer_fresh lib model"
proof -
  have model: "other_model (initial_adaptation_state model) model = model" by (simp add: other_model_def)
  have r: "r\<lparr>adaptation_state := adaptation_state r\<rparr> = r" by simp
  note paths = GetShortestPaths_other [where a = "initial_adaptation_state model" and b = "adaptation_state r" and r = r
      and model = model, unfolded model r]
  note words = GetWordAlignments_other [where a = "initial_adaptation_state model" and model = model, unfolded model]
  note others = other_transcripts_other [where a = "initial_adaptation_state model" and model = model, unfolded model]
  show "GetResults (other_lib g lib) tx model n given fin punct r = GetResults lib tx model n given fin punct r"
    unfolding GetResults_def paths words others lib_fields ..
  show "recognizer_Decode (other_lib g lib) model wave False r = recognizer_Decode lib model wave False r"
    unfolding recognizer_Decode_def lib_fields by simp
  show "Finalize (other_lib g lib) r = Finalize lib r" unfolding Finalize_def lib_fields ..
  show "Recognizer_fresh (other_lib g lib) model = Recognizer_fresh lib model"
    unfolding Recognizer_fresh_def Recognizer_def lib_fields ..
qed

lemma decode_chunk_end:
  "flag \<longrightarrow> c = [] \<Longrightarrow>
     decode_chunk (other_recognize_env g env) model rate c flag u = decode_chunk env model rate c flag u"
  unfolding decode_chunk_def recognize_env_fields by (cases u; cases flag) (simp_all add: end_of_input_only)

lemma read_chunks_env: "read_chunks (other_recognize_env g env) fuel f n s u = read_chunks env fuel f n s u"
proof (induction n arbitrary: s u)
  case (Suc n)
  have "src_NextChunk (other_recognize_env g env) fuel s = src_NextChunk env fuel s"
    by (cases s) (simp_all add: recognize_env_fields)
  moreover have "read_chunks (other_recognize_env g env) fuel f n = read_chunks env fuel f n"
    by (intro ext) (rule Suc.IH)
  ultimately show ?case by simp
qed simp

lemma finish_recognize_end: "finish_recognize (other_recognize_env g env) model config st = finish_recognize env model config st"
  unfolding finish_recognize_def diarize_def respond_def recognize_env_fields end_of_input_only ..

text \<open>
  C8. For audio from a URI the input is never finished either: the chunk that ends such a source is
  empty and empty chunks are not decoded, so no decoded chunk is flagged as the last one.
\<close>

theorem uri_input_never_finished:
  "Recognize (env\<lparr>env_decoder := (env_decoder env)\<lparr>InputFinished := g\<rparr>\<rparr>) fuel models
     (request\<lparr>request_audio := Some (Uri uri)\<rparr>) =
   Recognize env fuel models (request\<lparr>request_audio := Some (Uri uri)\<rparr>)"
proof -
  let ?request = "request\<lparr>request_audio := Some (Uri uri)\<rparr>"
  have assms: "request_audio ?request = Some (Uri uri)" by simp
  have src: "open_audio (other_recognize_env g env) config audio = open_audio env config audio"
    "src_Open (other_recognize_env g env) s = src_Open env s" for config audio s
    unfolding open_audio_def recognize_env_fields by (rule refl, cases s) (simp_all add: recognize_env_fields)
  have stream: "\<exists>t. s = Streaming_source t" if "open_audio env config (Some (Uri uri)) = Some (Ret s0)" "src_Open env s0 = Ret s" for config s0 s
    using that by (auto simp: open_audio_def fbind_Ret outcome_simps split: option.split_asm)
  have read: "read_chunks env fuel (decode_chunk (other_recognize_env g env) model rate) fuel (Streaming_source t) u =
      read_chunks env fuel (decode_chunk env model rate) fuel (Streaming_source t) u" for model rate t u
    by (rule read_chunks_streaming_cong) (rule decode_chunk_end)
  have dia: "new_diarizer (other_recognize_env g env) model config = new_diarizer env model config" for model config
    unfolding new_diarizer_def recognize_env_fields ..
  have fbind_cong: "(\<And>x. m = Some (Ret x) \<Longrightarrow> f x = h x) \<Longrightarrow> fbind m f = fbind m h" for m f h
    by (cases m; cases "the m") auto
  have "Recognize_try (other_recognize_env g env) fuel models ?request = Recognize_try env fuel models ?request"
    unfolding Recognize_try_def Let_def recognize_env_fields src read_chunks_env finish_recognize_end end_of_input_only dia assms
    by (intro if_cong refl fbind_cong) (use read stream in fastforce)
  then show ?thesis by (simp add: Recognize_def other_recognize_env_def other_lib_def)
qed

end
