(* ===== verification/Client.thy ===== *)
theory Client
  imports Streaming_Protocol
begin

text \<open>
  The example client \<open>src/bin/client_main.cc\<close>: its options, the requests it makes and how it prints
  the responses. The two instances of the template \<open>templated_main\<close> differ in their generated message
  classes only. Files, protobuf's parsers, the calls and nlohmann's JSON printer are the parameter
  record \<open>client_env\<close>; of the terminal only the standard output is kept.
\<close>

section \<open>Options\<close>

datatype exit_code = EXIT_SUCCESS | EXIT_FAILURE

record program_options =
  use_ssl :: bool
  streaming :: bool
  print_help :: bool
  opt_punctuation :: bool
  use_google_cloud_api :: bool
  opt_interim_results :: bool
  json :: bool
  opt_argc :: int
  opt_argv :: "string list"

definition no_options :: "int \<Rightarrow> program_options" where
  "no_options argc = \<lparr>use_ssl = False, streaming = False, print_help = False, opt_punctuation = False,
     use_google_cloud_api = False, opt_interim_results = False, json = False, opt_argc = argc - 1, opt_argv = []\<rparr>"

text \<open>An unknown option ends the program; that is the value \<open>None\<close>.\<close>

definition parse_option :: "string \<Rightarrow> program_options \<Rightarrow> program_options option" where
  "parse_option arg opts =
     (if take 2 arg \<noteq> ''--'' then Some (opts\<lparr>opt_argv := opt_argv opts @ [arg]\<rparr>)
      else if arg = ''--use-ssl'' then Some (opts\<lparr>use_ssl := True, opt_argc := opt_argc opts - 1\<rparr>)
      else if arg = ''--streaming'' then Some (opts\<lparr>streaming := True, opt_argc := opt_argc opts - 1\<rparr>)
      else if arg = ''--help'' then Some (opts\<lparr>print_help := True, opt_argc := opt_argc opts - 1\<rparr>)
      else if arg = ''--punctuation'' then Some (opts\<lparr>opt_punctuation := True, opt_argc := opt_argc opts - 1\<rparr>)
      else if arg = ''--use-google-cloud-api'' then
        Some (opts\<lparr>use_google_cloud_api := True, opt_argc := opt_argc opts - 1\<rparr>)
      else if arg = ''--interim-results'' then
        Some (opts\<lparr>opt_interim_results := True, opt_argc := opt_argc opts - 1\<rparr>)
      else if arg = ''--json'' then Some (opts\<lparr>json := True, opt_argc := opt_argc opts - 1\<rparr>)
      else None)"

fun parse_options :: "string list \<Rightarrow> program_options \<Rightarrow> program_options option" where
  "parse_options [] opts = Some opts"
| "parse_options (arg # args) opts =
     (case parse_option arg opts of None \<Rightarrow> None | Some opts' \<Rightarrow> parse_options args opts')"

text \<open>\<open>args\<close> is \<open>argv\<close> without the name of the program.\<close>

definition Parse :: "string list \<Rightarrow> program_options option" where
  "Parse args = parse_options args (no_options (int (length args) + 1))"

definition Argv :: "program_options \<Rightarrow> nat \<Rightarrow> string outcome" where
  "Argv opts i = at_vec (opt_argv opts) i"

section \<open>Printing\<close>

definition newline :: string where "newline = [CHR 0x0A]"

definition carriage_return :: string where "carriage_return = [CHR 0x0D]"

definition PrintBestTranscript :: "recognize_response \<Rightarrow> string outcome" where
  "PrintBestTranscript response =
     (if response = [] then Throw (Runtime_error ''No results received'')
      else Ret (concat (map (\<lambda>alts. case alts of [] \<Rightarrow> [] | alt # _ \<Rightarrow> transcript alt) response) @ newline))"

definition first_result :: "streaming_response \<Rightarrow> streaming_result outcome" where
  "first_result res = idx_vec (results res) 0"

definition first_alternative :: "streaming_result \<Rightarrow> alternative outcome" where
  "first_alternative result = idx_vec (alternatives result) 0"

text \<open>
  The reader thread: what it has printed, and the JSON object, one list of alternatives for each final
  result. With \<open>--json\<close> the first result is looked at before it is known to exist.
\<close>

definition read_response ::
    "bool \<Rightarrow> streaming_response \<Rightarrow> string \<times> alternative list list \<Rightarrow> (string \<times> alternative list list) outcome" where
  "read_response as_json res st =
     (let (out, object) = st in
      obind (if as_json then omap is_final (first_result res) else Ret False) (\<lambda>json_final.
      if json_final then omap (\<lambda>result. (out, object @ [alternatives result])) (first_result res)
      else if results res \<noteq> [] then
        obind (first_result res) (\<lambda>result.
        if is_final result then
          omap (\<lambda>alt. (out @ carriage_return @ transcript alt @ newline, object)) (first_alternative result)
        else
          omap (\<lambda>alts. (out @ carriage_return @ concat (map transcript alts), object))
            (otraverse first_alternative (results res)))
      else Ret (out, object)))"

fun read_responses ::
    "bool \<Rightarrow> streaming_response list \<Rightarrow> string \<times> alternative list list \<Rightarrow>
     (string \<times> alternative list list) outcome" where
  "read_responses as_json [] st = Ret st"
| "read_responses as_json (res # ress) st = obind (read_response as_json res st) (read_responses as_json ress)"

text \<open>An exception ends the program with a failure; that is the value \<open>None\<close>.\<close>

fun catch_reader :: "'a outcome \<Rightarrow> 'a option outcome" where
  "catch_reader (Throw e) = Ret None"
| "catch_reader (Ret x) = Ret (Some x)"
| "catch_reader (Fault b) = Fault b"

definition reader ::
    "(alternative list list \<Rightarrow> string) \<Rightarrow> bool \<Rightarrow> streaming_response list \<Rightarrow> string option outcome" where
  "reader dump as_json ress =
     catch_reader (omap (\<lambda>(out, object). if as_json then out @ dump object @ newline else out)
       (read_responses as_json ress ([], [])))"

section \<open>The requests of a streaming call\<close>

definition content_chunk_size_bytes :: nat where "content_chunk_size_bytes = 1024 * 2"

text \<open>
  The audio messages for a file: \<open>read\<close> sets \<open>eof\<close> when it gets fewer bytes than it asked for, and
  then the loop ends without writing them.
\<close>

function audio_messages :: "string \<Rightarrow> streaming_request list" where
  "audio_messages bytes =
     (if length bytes < content_chunk_size_bytes then []
      else Audio_content (take content_chunk_size_bytes bytes) # audio_messages (drop content_chunk_size_bytes bytes))"
  by pat_completeness auto
termination
  by (relation "measure length") (auto simp: content_chunk_size_bytes_def)

declare audio_messages.simps [simp del]

definition config_message :: "recognition_config \<Rightarrow> program_options \<Rightarrow> streaming_request" where
  "config_message config opts =
     Streaming_config \<lparr>streaming_recognition_config = Some config, single_utterance = False,
       interim_results = opt_interim_results opts\<rparr>"

text \<open>Writing stops at the first write that fails.\<close>

fun write_messages :: "(nat \<Rightarrow> bool) \<Rightarrow> nat \<Rightarrow> streaming_request list \<Rightarrow> bool" where
  "write_messages write_ok n [] = True"
| "write_messages write_ok n (m # ms) = (write_ok n \<and> write_messages write_ok (Suc n) ms)"

section \<open>The program\<close>

record client_env =
  ce_file :: "string \<Rightarrow> string option"
  ce_ParseFromString :: "string \<Rightarrow> recognition_config option"
  ce_TextFormat :: "string \<Rightarrow> recognition_config option"
  ce_Recognize :: "string \<Rightarrow> bool \<Rightarrow> recognize_request \<Rightarrow> status \<times> recognize_response"
  ce_write_ok :: "nat \<Rightarrow> bool"
  ce_answers :: "string \<Rightarrow> bool \<Rightarrow> streaming_request list \<Rightarrow> streaming_response list \<times> status"
  ce_dump :: "alternative list list \<Rightarrow> string"

definition client_config :: "program_options \<Rightarrow> recognition_config" where
  "client_config opts = default_config\<lparr>encoding := LINEAR16, sample_rate_hertz := 16000, language_code := ''is-IS'',
     enable_automatic_punctuation := opt_punctuation opts,
     diarization_config := \<lparr>enable_speaker_diarization = True, min_speaker_count = 0\<rparr>\<rparr>"

text \<open>Parsing replaces the configuration; \<open>None\<close> when neither format fits.\<close>

definition read_config :: "client_env \<Rightarrow> program_options \<Rightarrow> string \<Rightarrow> recognition_config option outcome" where
  "read_config env opts filename =
     (if filename \<noteq> [] then
        omap (\<lambda>content. case ce_ParseFromString env content of
            Some c \<Rightarrow> Some c | None \<Rightarrow> ce_TextFormat env content)
          (GetFileContents (ce_file env filename))
      else Ret (Some (client_config opts)))"

definition unary_audio :: "client_env \<Rightarrow> string \<Rightarrow> recognition_audio outcome" where
  "unary_audio env wave_filename =
     (if take 7 wave_filename = ''http://'' \<or> take 8 wave_filename = ''https://'' then Ret (Uri wave_filename)
      else omap Content (GetFileContents (ce_file env wave_filename)))"

definition unary_main ::
    "client_env \<Rightarrow> program_options \<Rightarrow> recognition_config \<Rightarrow> string \<Rightarrow> string \<Rightarrow> (string \<times> exit_code) outcome" where
  "unary_main env opts config wave_filename address =
     obind (unary_audio env wave_filename) (\<lambda>audio.
     let (stat, res) = ce_Recognize env address (use_ssl opts)
           \<lparr>request_config = Some config, request_audio = Some audio\<rparr>
     in if \<not> ok stat then Ret ([], EXIT_FAILURE)
        else omap (\<lambda>out. (out, EXIT_SUCCESS)) (PrintBestTranscript res))"

text \<open>
  A return while the reader thread can still be joined destroys the \<open>std::thread\<close> and ends the
  program with \<open>std::terminate\<close>.
\<close>

definition streaming_main ::
    "client_env \<Rightarrow> program_options \<Rightarrow> recognition_config \<Rightarrow> string \<Rightarrow> string \<Rightarrow> (string \<times> exit_code) outcome" where
  "streaming_main env opts config wave_filename address =
     (case ce_file env (if wave_filename = ''-'' then ''/dev/stdin'' else wave_filename) of
        None \<Rightarrow> Fault Aborted
      | Some bytes \<Rightarrow>
          let messages = config_message config opts # audio_messages bytes in
          if \<not> write_messages (ce_write_ok env) 0 messages then Fault Aborted
          else
            let (answers, stat) = ce_answers env address (use_ssl opts) messages in
            omap (\<lambda>printed. case printed of
                None \<Rightarrow> ([], EXIT_FAILURE)
              | Some out \<Rightarrow> (out, if \<not> ok stat then EXIT_FAILURE else EXIT_SUCCESS))
              (reader (ce_dump env) (json opts) answers))"

definition templated_main :: "client_env \<Rightarrow> program_options \<Rightarrow> (string \<times> exit_code) outcome" where
  "templated_main env opts =
     obind (Argv opts 0) (\<lambda>wave_filename.
     obind (if opt_argc opts > 1 then Argv opts 1 else Ret []) (\<lambda>recognition_config_filename.
     obind (if opt_argc opts > 2 then Argv opts 2 else Ret ''localhost:50051'') (\<lambda>address.
     obind (read_config env opts recognition_config_filename) (\<lambda>config.
     case config of
       None \<Rightarrow> Ret ([], EXIT_FAILURE)
     | Some c \<Rightarrow>
         if \<not> streaming opts then unary_main env opts c wave_filename address
         else streaming_main env opts c wave_filename address))))"

fun catch_main :: "(string \<times> exit_code) outcome \<Rightarrow> (string \<times> exit_code) outcome" where
  "catch_main (Throw e) = Ret ([], EXIT_FAILURE)"
| "catch_main r = r"

definition client_main :: "client_env \<Rightarrow> string list \<Rightarrow> (string \<times> exit_code) outcome" where
  "client_main env args =
     (case Parse args of
        None \<Rightarrow> Ret ([], EXIT_FAILURE)
      | Some opts \<Rightarrow>
          if print_help opts then Ret ([], EXIT_SUCCESS)
          else if opt_argc opts < 1 \<or> opt_argc opts > 3 then Ret ([], EXIT_FAILURE)
          else catch_main (templated_main env opts))"

section \<open>The client and the server\<close>

lemma audio_messages_correct:
  "concat (map audio_content (audio_messages bytes)) = take (2048 * (length bytes div 2048)) bytes \<and>
   list_all (\<lambda>m. \<exists>chunk. m = Audio_content chunk \<and> length chunk = 2048) (audio_messages bytes)"
proof (induction bytes rule: audio_messages.induct)
  case (1 bytes)
  show ?case
  proof (cases "length bytes < 2048")
    case True
    then show ?thesis by (simp add: audio_messages.simps [of bytes] content_chunk_size_bytes_def)
  next
    case False
    then have "length bytes div 2048 = Suc ((length bytes - 2048) div 2048)" by (simp add: le_div_geq)
    moreover have "\<not> length bytes < content_chunk_size_bytes" using False by (simp add: content_chunk_size_bytes_def)
    ultimately show ?thesis
      using 1 [OF \<open>\<not> length bytes < content_chunk_size_bytes\<close>] False
      by (simp add: audio_messages.simps [of bytes] content_chunk_size_bytes_def take_add)
  qed
qed


definition shown :: "bool \<Rightarrow> streaming_response \<Rightarrow> string" where
  "shown as_json res =
     (case results res of
        [] \<Rightarrow> []
      | result # _ \<Rightarrow>
          if is_final result then
            (if as_json then [] else carriage_return @ transcript (hd (alternatives result)) @ newline)
          else carriage_return @ transcript (hd (alternatives result)))"

definition final_alternatives :: "streaming_response \<Rightarrow> alternative list list" where
  "final_alternatives res = map alternatives (filter is_final (results res))"

lemma idx_vec_Cons [simp]: "idx_vec (x # xs) 0 = Ret x" "idx_vec [] i = Fault Index_out_of_bounds"
  by (simp_all add: idx_vec_def)

lemma read_response_server:
  assumes "interim res \<or> end_result res"
  shows "read_response as_json res (out, object) =
    (if as_json \<and> results res = [] then Fault Index_out_of_bounds
     else Ret (out @ shown as_json res, if as_json then object @ final_alternatives res else object))"
  using assms
  by (auto simp: interim_def end_result_def read_response_def first_result_def first_alternative_def shown_def
      final_alternatives_def neq_Nil_conv)

lemma read_responses_server:
  "list_all (\<lambda>r. interim r \<or> end_result r) ress \<Longrightarrow>
   read_responses as_json ress (out, object) =
     (if as_json \<and> list_ex (\<lambda>res. results res = []) ress then Fault Index_out_of_bounds
      else Ret (out @ concat (map (shown as_json) ress),
        if as_json then object @ concat (map final_alternatives ress) else object))"
  by (induction ress arbitrary: out object) (auto simp: read_response_server)

text \<open>
  C10. The client's reader understands what the server writes in a call that ends well: it prints the
  first alternative of every response that has a result, and with \<open>--json\<close> collects the alternatives
  of the final ones, never reading an alternative that is not there. Only with \<open>--json\<close> a response
  without a result, which the server sends when a segment has frames but no words, makes it read
  a result that does not exist.
\<close>

theorem client_reads_server:
  assumes "StreamingRecognize env models (config_message config opts # reqs) = (conn, Ret status_OK)"
  shows "reader dump as_json (conn_written conn) =
    (if as_json \<and> list_ex (\<lambda>res. results res = []) (conn_written conn) then Fault Index_out_of_bounds
     else let out = concat (map (shown as_json) (conn_written conn)) in
       Ret (Some (if as_json then out @ dump (concat (map final_alternatives (conn_written conn))) @ newline else out)))"
proof -
  have "list_all (\<lambda>r. interim r \<or> end_result r) (conn_written conn)"
    using StreamingRecognize_responses [OF assms [unfolded config_message_def]] by simp
  then show ?thesis by (simp add: reader_def read_responses_server)
qed

definition client_options :: program_options where
  "client_options = (no_options 2)\<lparr>streaming := True\<rparr>"

lemma client_call:
  "\<exists>conn. StreamingRecognize toy_env toy_models [config_message toy_config client_options, Audio_content toy_chunk] =
     (conn, Ret status_OK) \<and> concat (map (shown False) (conn_written conn)) = carriage_return @ ''sem betur'' @ newline"
  by (simp add: config_message_def client_options_def no_options_def toy_run)
    (simp add: shown_def streaming_alternatives_def empty_response_def toy_config_def default_config_def
      plain_alternative_def toy_decoder_def)

theorem client_reads_server_witness:
  "\<exists>conn. StreamingRecognize toy_env toy_models [config_message toy_config client_options, Audio_content toy_chunk] =
     (conn, Ret status_OK) \<and>
     reader (\<lambda>_. []) False (conn_written conn) = Ret (Some (carriage_return @ ''sem betur'' @ newline))"
proof -
  obtain conn where call: "StreamingRecognize toy_env toy_models
      [config_message toy_config client_options, Audio_content toy_chunk] = (conn, Ret status_OK)"
    and out: "concat (map (shown False) (conn_written conn)) = carriage_return @ ''sem betur'' @ newline"
    using client_call by blast
  from client_reads_server [OF call, of "\<lambda>_. []" False] out
  have "reader (\<lambda>_. []) False (conn_written conn) = Ret (Some (carriage_return @ ''sem betur'' @ newline))"
    by (simp add: Let_def)
  with call show ?thesis by blast
qed
end
