(* ===== verification/Handles.thy ===== *)
theory Handles
  imports Av_Wrapper
begin

text \<open>
  The lifetime-managing classes of \<open>src/audio/ffmpeg-wrapper.h\<close> (\<open>Packet\<close>, \<open>Frame\<close>, \<open>CodecContext\<close>,
  \<open>UrlIoContext\<close>, \<open>FormatContext\<close>): each holds one raw pointer to an object of libav, which its
  destructor releases, and some can be moved. The state is the memory of the library (which objects
  are alive), the variables that hold the pointers, and the answers the library will give. A
  constructor that throws leaves no variable behind, whatever it had allocated.
\<close>

section \<open>Objects, variables and library calls\<close>

datatype av_kind =
    AvPacket | AvFrame | AvCodecContext | AvParser | AvSwrContext | AvBuffer | AvIoContext
  | AvUrlIo | AvFormatContext | AvDictionary

text \<open>A variable is undeclared, holds a null pointer (\<open>Some None\<close>), or points to an object.\<close>

record 'n world =
  next_object :: nat
  live_objects :: "nat \<Rightarrow> av_kind option"
  variables :: "'n \<Rightarrow> nat option option"
  answers :: "nat \<Rightarrow> int"

type_synonym 'n action = "'n world \<Rightarrow> unit outcome \<times> 'n world"

text \<open>The next answer of the library: a negative one is an error code, or a null pointer.\<close>

definition ask :: "'n world \<Rightarrow> int \<times> 'n world" where
  "ask w = (answers w 0, w\<lparr>answers := \<lambda>n. answers w (Suc n)\<rparr>)"

definition set_variable :: "'n \<Rightarrow> nat option option \<Rightarrow> 'n world \<Rightarrow> 'n world" where
  "set_variable x v w = w\<lparr>variables := (variables w)(x := v)\<rparr>"

definition new_object :: "av_kind \<Rightarrow> 'n world \<Rightarrow> nat \<times> 'n world" where
  "new_object k w = (next_object w, w\<lparr>next_object := Suc (next_object w),
     live_objects := (live_objects w)(next_object w := Some k)\<rparr>)"

definition free_object :: "nat \<Rightarrow> 'n world \<Rightarrow> 'n world" where
  "free_object i w = w\<lparr>live_objects := (live_objects w)(i := None)\<rparr>"

text \<open>The initialisation of a pointer by an allocating call, which throws when the call gives null.\<close>

definition construct :: "string \<Rightarrow> av_kind \<Rightarrow> 'n \<Rightarrow> 'n action" where
  "construct err k x w =
     (let (r, w1) = ask w in
      if r < 0 then (Throw (Av_error err), w1)
      else let (i, w2) = new_object k w1 in (Ret (), set_variable x (Some (Some i)) w2))"

text \<open>The releasing calls accept a null pointer, or it is tested for.\<close>

definition release :: "av_kind \<Rightarrow> nat option \<Rightarrow> 'n action" where
  "release k p w =
     (case p of
        None \<Rightarrow> (Ret (), w)
      | Some i \<Rightarrow> if live_objects w i = Some k then (Ret (), free_object i w) else (Fault Double_free, w))"

definition destruct :: "av_kind \<Rightarrow> 'n \<Rightarrow> 'n action" where
  "destruct k x w =
     (case variables w x of
        None \<Rightarrow> (Fault Uninitialised_read, w)
      | Some p \<Rightarrow> let (r, w1) = release k p w in (r, set_variable x None w1))"

text \<open>Move construction and move assignment. The assignment does not release what \<open>x\<close> pointed to.\<close>

definition move_construct :: "'n \<Rightarrow> 'n \<Rightarrow> 'n world \<Rightarrow> 'n world" where
  "move_construct x y w = set_variable y (Some None) (set_variable x (variables w y) w)"

definition move_assign :: "'n \<Rightarrow> 'n \<Rightarrow> 'n world \<Rightarrow> 'n world" where
  "move_assign x y w = set_variable y (Some None) (set_variable x (variables w y) w)"

lemmas world_ops = ask_def set_variable_def new_object_def free_object_def

section \<open>Programs over handles\<close>

text \<open>
  What a program can do with variables of these classes: \<open>ty\<close> is the class of each variable. The
  list collects the objects that are alive but that no variable points to any more: the one a
  throwing constructor had allocated, and the one a move assignment overwrites.
\<close>

definition can_move_construct :: "av_kind \<Rightarrow> bool" where
  "can_move_construct k \<longleftrightarrow> k \<in> {AvCodecContext, AvUrlIo, AvFormatContext}"

definition can_move_assign :: "av_kind \<Rightarrow> bool" where
  "can_move_assign k \<longleftrightarrow> k \<in> {AvUrlIo, AvFormatContext}"

definition pointee :: "'n \<Rightarrow> 'n world \<Rightarrow> nat list" where
  "pointee x w = (case variables w x of Some (Some i) \<Rightarrow> [i] | _ \<Rightarrow> [])"

inductive handle_step :: "('n \<Rightarrow> av_kind) \<Rightarrow> 'n world \<times> nat list \<Rightarrow> 'n world \<times> nat list \<Rightarrow> bool" for ty where
  declare_variable: "handle_step ty (w, lost) (w', lost)"
    if "variables w x = None" "construct err (ty x) x w = (Ret (), w')"
| constructor_throws: "handle_step ty (w, lost) (w', lost)"
    if "variables w x = None" "construct err (ty x) x w = (Throw e, w')"
| constructor_throws_late: "handle_step ty (w, lost) (set_variable x None w', pointee x w' @ lost)"
    if "variables w x = None" "ty x = AvCodecContext" "construct err (ty x) x w = (Ret (), w')"
| declare_moved: "handle_step ty (w, lost) (move_construct x y w, lost)"
    if "variables w x = None" "variables w y \<noteq> None" "ty x = ty y" "can_move_construct (ty x)"
| assign_moved: "handle_step ty (w, lost) (move_assign x y w, pointee x w @ lost)"
    if "variables w x \<noteq> None" "variables w y \<noteq> None" "ty x = ty y" "can_move_assign (ty x)"
| leave_scope: "handle_step ty (w, lost) (w', lost)"
    if "variables w x \<noteq> None" "destruct (ty x) x w = (r, w')"

definition start_world :: "(nat \<Rightarrow> int) \<Rightarrow> 'n world" where
  "start_world ans = \<lparr>next_object = 0, live_objects = \<lambda>_. None, variables = \<lambda>_. None, answers = ans\<rparr>"

inductive handle_run :: "('n \<Rightarrow> av_kind) \<Rightarrow> 'n world \<times> nat list \<Rightarrow> bool" for ty where
  start: "handle_run ty (start_world ans, [])"
| step: "handle_run ty s \<Longrightarrow> handle_step ty s s' \<Longrightarrow> handle_run ty s'"

section \<open>The invariant\<close>

text \<open>
  Every pointer is null or points to a living object of its class, no two variables point to the
  same object, and every living object is either pointed to or lost.
\<close>

definition fresh :: "'n world \<Rightarrow> bool" where
  "fresh w \<longleftrightarrow> (\<forall>i. next_object w \<le> i \<longrightarrow> live_objects w i = None)"

definition well_typed :: "('n \<Rightarrow> av_kind) \<Rightarrow> 'n world \<Rightarrow> bool" where
  "well_typed ty w \<longleftrightarrow> (\<forall>x i. variables w x = Some (Some i) \<longrightarrow> live_objects w i = Some (ty x))"

definition exclusive :: "'n world \<Rightarrow> bool" where
  "exclusive w \<longleftrightarrow> (\<forall>x y i. variables w x = Some (Some i) \<longrightarrow> variables w y = Some (Some i) \<longrightarrow> x = y)"

definition pointed :: "'n world \<Rightarrow> nat set" where
  "pointed w = {i. \<exists>x. variables w x = Some (Some i)}"

definition accounted :: "'n world \<Rightarrow> nat list \<Rightarrow> bool" where
  "accounted w lost \<longleftrightarrow>
     dom (live_objects w) = set lost \<union> pointed w \<and> set lost \<inter> pointed w = {} \<and> distinct lost"

definition handles_ok :: "('n \<Rightarrow> av_kind) \<Rightarrow> 'n world \<times> nat list \<Rightarrow> bool" where
  "handles_ok ty s \<longleftrightarrow>
     fresh (fst s) \<and> well_typed ty (fst s) \<and> exclusive (fst s) \<and> accounted (fst s) (snd s)"

lemmas handles_ok_defs = handles_ok_def fresh_def well_typed_def exclusive_def

lemma construct_Ret:
  "construct err k x w = (Ret (), w') \<longleftrightarrow> 0 \<le> answers w 0 \<and>
     w' = \<lparr>next_object = Suc (next_object w), live_objects = (live_objects w)(next_object w := Some k),
       variables = (variables w)(x := Some (Some (next_object w))), answers = \<lambda>n. answers w (Suc n)\<rparr>"
  by (cases w) (auto simp: construct_def world_ops Let_def)

lemma construct_Throw:
  "construct err k x w = (Throw e, w') \<longleftrightarrow> answers w 0 < 0 \<and> e = Av_error err \<and> w' = snd (ask w)"
  by (auto simp: construct_def world_ops Let_def)

lemma release_well:
  "(case p of None \<Rightarrow> True | Some i \<Rightarrow> live_objects w i = Some k) \<Longrightarrow>
   release k p w = (Ret (), case p of None \<Rightarrow> w | Some i \<Rightarrow> free_object i w)"
  by (cases p) (auto simp: release_def)

lemma pointee_iff [simp]: "i \<in> set (pointee x w) \<longleftrightarrow> variables w x = Some (Some i)"
  by (auto simp: pointee_def split: option.splits)

lemma pointed_set_variable:
  assumes "exclusive w"
  shows "pointed (set_variable x v w) =
    pointed w - set (pointee x w) \<union> (case v of Some (Some i) \<Rightarrow> {i} | _ \<Rightarrow> {})"
proof (rule set_eqI)
  fix i
  show "i \<in> pointed (set_variable x v w) \<longleftrightarrow>
      i \<in> pointed w - set (pointee x w) \<union> (case v of Some (Some i) \<Rightarrow> {i} | _ \<Rightarrow> {})"
  proof (cases "v = Some (Some i)")
    case True
    then show ?thesis by (auto simp: pointed_def set_variable_def)
  next
    case False
    then have "i \<in> pointed (set_variable x v w) \<longleftrightarrow> (\<exists>y. y \<noteq> x \<and> variables w y = Some (Some i))"
      by (auto simp: pointed_def set_variable_def)
    also have "\<dots> \<longleftrightarrow> i \<in> pointed w \<and> variables w x \<noteq> Some (Some i)"
      using assms by (auto simp: exclusive_def pointed_def)
    finally show ?thesis using False by (auto split: option.splits)
  qed
qed

lemma handles_ok_start: "handles_ok ty (start_world ans, [])"
  by (simp add: handles_ok_defs accounted_def pointed_def start_world_def)

lemma destruct_well:
  assumes "well_typed ty w" "variables w x = Some p"
  shows "destruct (ty x) x w =
    (Ret (), set_variable x None (case p of None \<Rightarrow> w | Some i \<Rightarrow> free_object i w))"
proof -
  have "case p of None \<Rightarrow> True | Some i \<Rightarrow> live_objects w i = Some (ty x)"
    using assms by (auto simp: well_typed_def split: option.split)
  with assms(2) show ?thesis by (simp add: destruct_def release_well)
qed

lemma move_construct_is_assign: "move_construct x y w = move_assign x y w"
  by (simp add: move_construct_def move_assign_def)

lemma pointed_move:
  assumes "exclusive w"
  shows "pointed (move_assign x y w) = pointed w - set (pointee x w)"
proof (rule set_eqI)
  fix i
  have "i \<in> pointed (move_assign x y w) \<longleftrightarrow>
      (\<exists>z. z \<noteq> x \<and> variables w z = Some (Some i))"
  proof (cases "variables w y = Some (Some i) \<and> x \<noteq> y")
    case True
    then show ?thesis by (auto simp: pointed_def move_assign_def set_variable_def)
  next
    case False
    then show ?thesis by (auto simp: pointed_def move_assign_def set_variable_def)
  qed
  also have "\<dots> \<longleftrightarrow> i \<in> pointed w \<and> variables w x \<noteq> Some (Some i)"
    using assms by (auto simp: exclusive_def pointed_def)
  finally show "i \<in> pointed (move_assign x y w) \<longleftrightarrow> i \<in> pointed w - set (pointee x w)" by simp
qed

lemma basic_construct:
  assumes "construct err k x w = (Ret (), w')" "fresh w"
  shows "live_objects w' = (live_objects w)(next_object w \<mapsto> k)"
    and "variables w' = (variables w)(x \<mapsto> Some (next_object w))" and "live_objects w (next_object w) = None"
    and "fresh w'"
  using assms by (auto simp: construct_Ret fresh_def)

lemma pointed_live: "well_typed ty w \<Longrightarrow> i \<in> pointed w \<Longrightarrow> live_objects w i \<noteq> None"
  by (auto simp: pointed_def well_typed_def)

lemma handles_ok_declare:
  assumes "construct err (ty x) x w = (Ret (), w')" "handles_ok ty (w, lost)" "variables w x = None"
  shows "handles_ok ty (w', lost)"
proof -
  have ok: "fresh w" "well_typed ty w" "exclusive w" "accounted w lost"
    using assms(2) by (simp_all add: handles_ok_def)
  note c = basic_construct [OF assms(1) ok(1)]
  have no: "variables w y \<noteq> Some (Some (next_object w))" for y
    using ok(2) c(3) by (auto simp: well_typed_def)
  have "pointed w' = insert (next_object w) (pointed w)"
    using assms(3) unfolding pointed_def c(2) by (force split: if_splits)
  moreover have "next_object w \<notin> set lost \<union> pointed w"
    using ok(4) c(3) by (auto simp: accounted_def domIff)
  ultimately have "accounted w' lost" using ok(4) by (auto simp: accounted_def c(1))
  moreover have "well_typed ty w'" "exclusive w'"
    using ok(2,3) no by (auto simp: well_typed_def exclusive_def c(1,2))
  ultimately show ?thesis using c(4) by (simp add: handles_ok_def)
qed

lemma accounted_lose:
  assumes "accounted w lost" "live_objects w' = live_objects w" "pointed w' = pointed w - set (pointee x w)"
  shows "accounted w' (pointee x w @ lost)"
proof -
  have "set (pointee x w) \<subseteq> pointed w" by (auto simp: pointed_def)
  moreover have "distinct (pointee x w)" by (simp add: pointee_def split: option.split)
  moreover have "set (pointee x w) \<inter> set lost = {}"
    using assms(1) calculation(1) unfolding accounted_def by blast
  ultimately show ?thesis
    using assms(1) unfolding accounted_def assms(2,3) set_append distinct_append
    by (simp add: Int_commute Un_Diff_cancel2 Int_Un_distrib Diff_Int_distrib sup_commute
        sup_left_commute) (auto simp: pointee_def)
qed

lemma handles_ok_move:
  assumes "handles_ok ty (w, lost)" "ty x = ty y"
  shows "handles_ok ty (move_assign x y w, pointee x w @ lost)"
proof -
  have ok: "fresh w" "well_typed ty w" "exclusive w" "accounted w lost"
    using assms(1) by (simp_all add: handles_ok_def)
  have "accounted (move_assign x y w) (pointee x w @ lost)"
    by (rule accounted_lose [OF ok(4)]) (simp_all add: pointed_move ok(3), simp add: move_assign_def set_variable_def)
  moreover have "fresh (move_assign x y w)" "well_typed ty (move_assign x y w)" "exclusive (move_assign x y w)"
    using ok(1-3) assms(2)
    by (auto simp: fresh_def well_typed_def exclusive_def move_assign_def set_variable_def)
  ultimately show ?thesis by (simp add: handles_ok_def)
qed

lemma handles_ok_drop:
  assumes "handles_ok ty (w, lost)"
  shows "handles_ok ty (set_variable x None w, pointee x w @ lost)"
proof -
  have ok: "fresh w" "well_typed ty w" "exclusive w" "accounted w lost"
    using assms(1) by (simp_all add: handles_ok_def)
  have "accounted (set_variable x None w) (pointee x w @ lost)"
    by (rule accounted_lose [OF ok(4)]) (simp_all add: pointed_set_variable ok(3), simp add: set_variable_def)
  moreover have "fresh (set_variable x None w)" "well_typed ty (set_variable x None w)" "exclusive (set_variable x None w)"
    using ok(1-3) by (auto simp: fresh_def well_typed_def exclusive_def set_variable_def)
  ultimately show ?thesis by (simp add: handles_ok_def)
qed

lemma handles_ok_free:
  assumes "handles_ok ty (w, i # lost)"
  shows "handles_ok ty (free_object i w, lost)"
  using assms
  by (auto simp: handles_ok_defs accounted_def pointed_def free_object_def domIff)

lemma handles_ok_leave:
  assumes "handles_ok ty (w, lost)" "variables w x = Some p"
  shows "fst (destruct (ty x) x w) = Ret ()" "handles_ok ty (snd (destruct (ty x) x w), lost)"
proof -
  have d: "destruct (ty x) x w = (Ret (), set_variable x None (case p of None \<Rightarrow> w | Some i \<Rightarrow> free_object i w))"
    using assms by (simp add: destruct_well handles_ok_def)
  show "fst (destruct (ty x) x w) = Ret ()" by (simp add: d)
  have "set_variable x None (free_object i w) = free_object i (set_variable x None w)" for i
    by (simp add: set_variable_def free_object_def)
  with handles_ok_drop [OF assms(1), of x] assms(2)
  show "handles_ok ty (snd (destruct (ty x) x w), lost)"
    by (auto simp: d pointee_def handles_ok_free split: option.split)
qed

lemma handles_ok_step:
  assumes "handle_step ty s s'" "handles_ok ty s"
  shows "handles_ok ty s'"
  using assms
proof cases
  case (declare_variable w x err w' lost)
  then show ?thesis using assms(2) handles_ok_declare by simp
next
  case (constructor_throws w x err e w' lost)
  then show ?thesis using assms(2)
    by (auto simp: handles_ok_defs accounted_def pointed_def construct_Throw ask_def)
next
  case (constructor_throws_late w x err w' lost)
  then show ?thesis
    using assms(2) handles_ok_drop [OF handles_ok_declare [of err ty x w w' lost]] by simp
next
  case (declare_moved w x y lost)
  then show ?thesis using assms(2) handles_ok_move [of ty w lost x y]
    by (simp add: move_construct_is_assign pointee_def)
next
  case (assign_moved w x y lost)
  then show ?thesis using assms(2) handles_ok_move by simp
next
  case (leave_scope w x r w' lost)
  then obtain p where "variables w x = Some p" by auto
  with leave_scope assms(2) handles_ok_leave(2) [of ty w lost x p] show ?thesis by simp
qed

lemma handles_ok_run: "handle_run ty s \<Longrightarrow> handles_ok ty s"
  by (induction rule: handle_run.induct) (auto intro: handles_ok_start handles_ok_step)


text \<open>Two format contexts, the second moved onto the first, which loses the object of the first.\<close>

lemma assigned_run:
  "handle_run (\<lambda>_. AvFormatContext)
     (\<lparr>next_object = 2, live_objects = [0 \<mapsto> AvFormatContext, 1 \<mapsto> AvFormatContext],
        variables = [True \<mapsto> Some 1, False \<mapsto> None], answers = \<lambda>_. 0\<rparr>, [0])"
proof -
  let ?ty = "\<lambda>_::bool. AvFormatContext"
  let ?w1 = "snd (construct [] AvFormatContext True (start_world (\<lambda>_. 0)))"
  let ?w2 = "snd (construct [] AvFormatContext False ?w1)"
  have 1: "handle_run ?ty (?w1, [])"
    by (rule handle_run.step [OF handle_run.start [where ans = "\<lambda>_. 0"]], rule declare_variable [where err = "[]" and x = True])
      (simp_all add: start_world_def construct_def world_ops Let_def)
  have 2: "handle_run ?ty (?w2, [])"
    by (rule handle_run.step [OF 1], rule declare_variable [where err = "[]" and x = False])
      (simp_all add: start_world_def construct_def world_ops Let_def)
  have "handle_run ?ty (move_assign True False ?w2, pointee True ?w2 @ [])"
    by (rule handle_run.step [OF 2], rule assign_moved)
      (simp_all add: start_world_def construct_def world_ops Let_def can_move_assign_def)
  moreover have "pointee True ?w2 = [0]"
    by (simp add: start_world_def construct_def world_ops Let_def pointee_def)
  moreover have "move_assign True False ?w2 =
      \<lparr>next_object = 2, live_objects = [0 \<mapsto> AvFormatContext, 1 \<mapsto> AvFormatContext],
        variables = [True \<mapsto> Some 1, False \<mapsto> None], answers = \<lambda>_. 0\<rparr>"
    by (simp add: start_world_def construct_def world_ops Let_def move_assign_def fun_upd_twist)
  ultimately show ?thesis by simp
qed


end
