(* ===== verification/Lifetimes.thy ===== *)
theory Lifetimes
  imports Handles
begin

text \<open>
  The classes of \<open>src/audio/ffmpeg-wrapper.h\<close> as C++ runs them: constructors with their member
  initialisers, which are undone in reverse order when a later one throws, and destructors. What a
  class promises about the memory is the locale \<open>lifetime\<close>; a class with two members keeps the
  promise when its members do.
\<close>

section \<open>Sequencing\<close>

definition return :: "'n action" where "return w = (Ret (), w)"

definition then_do :: "'n action \<Rightarrow> 'n action \<Rightarrow> 'n action" where
  "then_do c1 c2 w =
     (case c1 w of
        (Ret _, w1) \<Rightarrow> c2 w1
      | (Throw e, w1) \<Rightarrow> (Throw e, w1)
      | (Fault b, w1) \<Rightarrow> (Fault b, w1))"

text \<open>
  A member is initialised by \<open>c\<close>, then the rest of the constructor runs; when that throws, the
  member is destroyed by \<open>d\<close>. A destructor that throws itself ends the program.
\<close>

definition with_member :: "'n action \<Rightarrow> 'n action \<Rightarrow> 'n action \<Rightarrow> 'n action" where
  "with_member c d later =
     then_do c (\<lambda>w. case later w of
         (Throw e, w1) \<Rightarrow>
           (case d w1 of
              (Ret _, w2) \<Rightarrow> (Throw e, w2)
            | (Throw _, w2) \<Rightarrow> (Fault Aborted, w2)
            | (Fault b, w2) \<Rightarrow> (Fault b, w2))
       | r \<Rightarrow> r)"

text \<open>The body of a constructor that throws leaves no object, and runs no destructor for it.\<close>

definition without_object :: "'n \<Rightarrow> 'n action \<Rightarrow> 'n action" where
  "without_object x c w =
     (case c w of
        (Throw e, w1) \<Rightarrow> (Throw e, set_variable x None w1)
      | r \<Rightarrow> r)"

text \<open>A library call with a return code, and one that gives a pointer nobody has to free.\<close>

definition checked :: "'d av_lib \<Rightarrow> 'n action" where
  "checked lib w = (let (r, w1) = ask w in (omap (\<lambda>_. ()) (CallRet lib (r, ())), w1))"

definition found :: "string \<Rightarrow> 'n action" where
  "found err w =
     (let (r, w1) = ask w in (omap (\<lambda>_. ()) (Call err (if r < 0 then None else Some ())), w1))"

section \<open>The classes\<close>

definition Packet_new :: "'n \<Rightarrow> 'n action" where
  "Packet_new x = construct ''AVPacket alloc failure.'' AvPacket x"

definition Packet_destroy :: "'n \<Rightarrow> 'n action" where
  "Packet_destroy x = destruct AvPacket x"

definition Frame_new :: "'n \<Rightarrow> 'n action" where
  "Frame_new x = construct ''AVFrame alloc failure.'' AvFrame x"

definition Frame_destroy :: "'n \<Rightarrow> 'n action" where
  "Frame_destroy x = destruct AvFrame x"

definition CodecContext_new_of_stream :: "'d av_lib \<Rightarrow> 'n \<Rightarrow> 'n action" where
  "CodecContext_new_of_stream lib x =
     without_object x (then_do (construct unknown_av AvCodecContext x) (then_do (checked lib) (checked lib)))"

definition CodecContext_new_of_codec :: "'d av_lib \<Rightarrow> codec \<Rightarrow> 'n \<Rightarrow> 'n action" where
  "CodecContext_new_of_codec lib cdc x =
     then_do (\<lambda>w. (omap (\<lambda>_. ()) (CodecCast cdc), w))
       (then_do (found unknown_av)
         (without_object x (then_do (construct unknown_av AvCodecContext x) (checked lib))))"

definition CodecContext_move :: "'n \<Rightarrow> 'n \<Rightarrow> 'n action" where
  "CodecContext_move x y w = (Ret (), move_construct x y w)"

definition CodecContext_destroy :: "'n \<Rightarrow> 'n action" where
  "CodecContext_destroy x = destruct AvCodecContext x"

definition Parser_new :: "'d av_lib \<Rightarrow> codec \<Rightarrow> 'n \<Rightarrow> 'n \<Rightarrow> 'n action" where
  "Parser_new lib cdc codec_ctx parser_ctx_ptr =
     with_member (CodecContext_new_of_codec lib cdc codec_ctx) (CodecContext_destroy codec_ctx)
       (construct ''AVParser init failure.'' AvParser parser_ctx_ptr)"

definition Parser_destroy :: "'n \<Rightarrow> 'n \<Rightarrow> 'n action" where
  "Parser_destroy codec_ctx parser_ctx_ptr =
     then_do (destruct AvParser parser_ctx_ptr) (CodecContext_destroy codec_ctx)"

text \<open>The pointer to the resampler is null until \<open>Init\<close>.\<close>

definition declare_null :: "'n \<Rightarrow> 'n action" where
  "declare_null x w = (Ret (), set_variable x (Some None) w)"

definition SampleConverter_new :: "'n \<Rightarrow> 'n \<Rightarrow> 'n action" where
  "SampleConverter_new out_frame swr =
     with_member (Frame_new out_frame) (Frame_destroy out_frame) (declare_null swr)"

definition SampleConverter_destroy :: "'n \<Rightarrow> 'n \<Rightarrow> 'n action" where
  "SampleConverter_destroy out_frame swr =
     then_do (destruct AvSwrContext swr) (Frame_destroy out_frame)"

text \<open>\<open>Init\<close> overwrites the pointer; \<open>initialized\<close> is \<open>swr_is_initialized\<close>.\<close>

definition converter_Init :: "'d av_lib \<Rightarrow> 'n \<Rightarrow> 'n action" where
  "converter_Init lib swr =
     then_do (construct ''Failed to alloc SwrContext'' AvSwrContext swr) (checked lib)"

definition ensure_converter :: "'d av_lib \<Rightarrow> (nat \<Rightarrow> int) \<Rightarrow> 'n \<Rightarrow> 'n action" where
  "ensure_converter lib initialized swr w =
     (case variables w swr of
        Some (Some i) \<Rightarrow>
          (case CallRet lib (initialized i, ()) of
             Ret (r, _) \<Rightarrow> if 0 < r then (Ret (), w) else converter_Init lib swr w
           | Throw e \<Rightarrow> (Throw e, w)
           | Fault b \<Rightarrow> (Fault b, w))
      | _ \<Rightarrow> converter_Init lib swr w)"

text \<open>The frames of any number of decoding calls, up to the first one that throws.\<close>

fun decode_frames :: "'d av_lib \<Rightarrow> (nat \<Rightarrow> int) \<Rightarrow> 'n \<Rightarrow> nat \<Rightarrow> 'n action" where
  "decode_frames lib initialized swr 0 = return"
| "decode_frames lib initialized swr (Suc n) =
     then_do (ensure_converter lib initialized swr)
       (then_do (checked lib) (decode_frames lib initialized swr n))"

definition FormatContext_new :: "'n \<Rightarrow> 'n action" where
  "FormatContext_new x = construct unknown_av AvFormatContext x"

definition FormatContext_destroy :: "'n \<Rightarrow> 'n action" where
  "FormatContext_destroy x = destruct AvFormatContext x"

text \<open>\<open>avformat_open_input\<close> through \<open>operator&\<close>: when it fails it frees the context and nulls the pointer.\<close>

definition avformat_open :: "'d av_lib \<Rightarrow> 'n \<Rightarrow> 'n action" where
  "avformat_open lib x w =
     (let (r, w1) = ask w in
      if r < 0 then
        (case release AvFormatContext (case variables w1 x of Some p \<Rightarrow> p | None \<Rightarrow> None) w1 of
           (Ret _, w2) \<Rightarrow> (Throw (AvLibraryError lib r), set_variable x (Some None) w2)
         | (res, w2) \<Rightarrow> (res, w2))
      else (Ret (), w1))"

section \<open>Contexts for reading\<close>

text \<open>\<open>IoContext\<close> allocates the buffer and gives it to the context; its destructor frees both.\<close>

definition IoContext_new :: "'n \<Rightarrow> 'n \<Rightarrow> 'n action" where
  "IoContext_new b ptr =
     then_do (construct unknown_av AvBuffer b)
       (without_object b (construct ''Failed to allocate avio context.'' AvIoContext ptr))"

definition IoContext_destroy :: "'n \<Rightarrow> 'n \<Rightarrow> 'n action" where
  "IoContext_destroy b ptr w =
     (if variables w ptr \<noteq> Some None then then_do (destruct AvBuffer b) (destruct AvIoContext ptr) w
      else (Ret (), set_variable b None (set_variable ptr None w)))"

text \<open>
  \<open>UrlIoContext\<close>: the dictionary of options may stay null, and \<open>avio_open2\<close> replaces it by the options
  it did not understand, or null. The pointer of the context is what the call left there.
\<close>

definition dict_new :: "'n \<Rightarrow> 'n action" where
  "dict_new x w =
     (let (r, w1) = ask w in
      if r < 0 then (Ret (), set_variable x (Some None) w1)
      else let (i, w2) = new_object AvDictionary w1 in (Ret (), set_variable x (Some (Some i)) w2))"

definition avio_open :: "'d av_lib \<Rightarrow> 'n \<Rightarrow> 'n action" where
  "avio_open lib ptr w =
     (let (r, w1) = ask w in
      if r < 0 then (Throw (AvLibraryError lib r), w1)
      else let (p, w2) = ask w1 in
        if p < 0 then (Ret (), set_variable ptr (Some None) w2)
        else let (i, w3) = new_object AvUrlIo w2 in (Ret (), set_variable ptr (Some (Some i)) w3))"

definition UrlIoContext_new :: "'d av_lib \<Rightarrow> 'n \<Rightarrow> 'n \<Rightarrow> 'n action" where
  "UrlIoContext_new lib ptr options =
     then_do (dict_new options)
       (without_object options
         (then_do (destruct AvDictionary options)
           (then_do (dict_new options)
             (then_do (avio_open lib ptr)
               (then_do (destruct AvDictionary options)
                 (\<lambda>w. if variables w ptr = Some None
                   then (Throw (Av_error ''Could not read URL resource.''), set_variable ptr None w)
                   else (Ret (), w)))))))"

text \<open>The destructor is \<open>noexcept\<close>: an error code of \<open>avio_closep\<close> ends the program.\<close>

definition UrlIoContext_destroy :: "'d av_lib \<Rightarrow> 'n \<Rightarrow> 'n action" where
  "UrlIoContext_destroy lib x w =
     (if variables w x = Some None then (Ret (), set_variable x None w)
      else
        case destruct AvUrlIo x w of
          (Ret _, w1) \<Rightarrow>
            (case checked lib w1 of (Throw _, w2) \<Rightarrow> (Fault Aborted, w2) | res \<Rightarrow> res)
        | res \<Rightarrow> res)"

section \<open>The two decoders\<close>

datatype member =
    Io_ctx_arg | Io_ctx_member | Packet_member | Frame_member | Out_frame_member | Fmt_ctx_member
  | Codec_ctx_member | Codec_ctx_temporary | Conv_out_frame | Conv_swr_ctx | Parser_ctx_member
  | Avio_buf | Avio_ctx | Url_options

definition open_codec :: "'d av_lib \<Rightarrow> codec \<Rightarrow> member action" where
  "open_codec lib cdc =
     then_do (avformat_open lib Fmt_ctx_member)
       (then_do (checked lib)
         (then_do (checked lib)
           (then_do
             (if cdc \<noteq> KUnknown then CodecContext_new_of_codec lib cdc Codec_ctx_temporary
              else CodecContext_new_of_stream lib Codec_ctx_temporary)
             (then_do (CodecContext_move Codec_ctx_member Codec_ctx_temporary)
               (CodecContext_destroy Codec_ctx_temporary)))))"

definition IoContextDecoder_new :: "'d av_lib \<Rightarrow> codec \<Rightarrow> member action" where
  "IoContextDecoder_new lib cdc =
     with_member (\<lambda>w. (Ret (), move_construct Io_ctx_member Io_ctx_arg w)) (UrlIoContext_destroy lib Io_ctx_member)
       (with_member (Packet_new Packet_member) (Packet_destroy Packet_member)
         (with_member (Frame_new Frame_member) (Frame_destroy Frame_member)
           (with_member (Frame_new Out_frame_member) (Frame_destroy Out_frame_member)
             (with_member (FormatContext_new Fmt_ctx_member) (FormatContext_destroy Fmt_ctx_member)
               (with_member (open_codec lib cdc) (CodecContext_destroy Codec_ctx_member)
                 (SampleConverter_new Conv_out_frame Conv_swr_ctx))))))"

definition IoContextDecoder_destroy :: "'d av_lib \<Rightarrow> member action" where
  "IoContextDecoder_destroy lib =
     then_do (SampleConverter_destroy Conv_out_frame Conv_swr_ctx)
       (then_do (CodecContext_destroy Codec_ctx_member)
         (then_do (FormatContext_destroy Fmt_ctx_member)
           (then_do (Frame_destroy Out_frame_member)
             (then_do (Frame_destroy Frame_member)
               (then_do (Packet_destroy Packet_member)
                 (UrlIoContext_destroy lib Io_ctx_member))))))"

text \<open>
  \<open>Decoder\<close>: the input buffer throws at the end of the input. The format context is held by a
  \<open>unique_ptr\<close> whose deleter does nothing, and opened through a copy of the pointer.
\<close>

definition forget :: "'n \<Rightarrow> 'n action" where
  "forget x w = (Ret (), set_variable x None w)"

definition InputBuffer_new :: "'n action" where
  "InputBuffer_new w =
     (let (r, w1) = ask w in (if r < 0 then Throw (Av_error ''Unexpected EOF'') else Ret (), w1))"

definition avformat_open_copy :: "'d av_lib \<Rightarrow> 'n \<Rightarrow> 'n action" where
  "avformat_open_copy lib x w =
     (let (r, w1) = ask w in
      if r < 0 then
        (case release AvFormatContext (case variables w1 x of Some p \<Rightarrow> p | None \<Rightarrow> None) w1 of
           (Ret _, w2) \<Rightarrow> (Throw (AvLibraryError lib r), w2)
         | (res, w2) \<Rightarrow> (res, w2))
      else (Ret (), w1))"

definition Decoder_new :: "'d av_lib \<Rightarrow> codec \<Rightarrow> member action" where
  "Decoder_new lib cdc =
     with_member (Packet_new Packet_member) (Packet_destroy Packet_member)
       (with_member (Frame_new Frame_member) (Frame_destroy Frame_member)
         (with_member (Frame_new Out_frame_member) (Frame_destroy Out_frame_member)
           (with_member InputBuffer_new return
             (with_member (Parser_new lib cdc Codec_ctx_member Parser_ctx_member)
                 (Parser_destroy Codec_ctx_member Parser_ctx_member)
               (with_member (SampleConverter_new Conv_out_frame Conv_swr_ctx)
                   (SampleConverter_destroy Conv_out_frame Conv_swr_ctx)
                 (with_member (FormatContext_new Fmt_ctx_member) (forget Fmt_ctx_member)
                   (with_member (IoContext_new Avio_buf Avio_ctx) (IoContext_destroy Avio_buf Avio_ctx)
                     (then_do (avformat_open_copy lib Fmt_ctx_member)
                       (then_do (checked lib) (checked lib))))))))))"

definition Decoder_destroy :: "member action" where
  "Decoder_destroy =
     then_do (IoContext_destroy Avio_buf Avio_ctx)
       (then_do (forget Fmt_ctx_member)
         (then_do (SampleConverter_destroy Conv_out_frame Conv_swr_ctx)
           (then_do (Parser_destroy Codec_ctx_member Parser_ctx_member)
             (then_do return
               (then_do (Frame_destroy Out_frame_member)
                 (then_do (Frame_destroy Frame_member) (Packet_destroy Packet_member)))))))"

section \<open>What a class promises\<close>

type_synonym 'n members = "('n \<times> av_kind) list"

definition objects :: "'n members \<Rightarrow> 'n world \<Rightarrow> (nat \<times> av_kind) list" where
  "objects L w = concat (map (\<lambda>(x, k). map (\<lambda>i. (i, k)) (pointee x w)) L)"

abbreviation ids :: "'n members \<Rightarrow> 'n world \<Rightarrow> nat set" where
  "ids L w \<equiv> fst ` set (objects L w)"

abbreviation member_names :: "'n members \<Rightarrow> 'n set" where
  "member_names L \<equiv> fst ` set L"

definition undeclared :: "'n members \<Rightarrow> 'n world \<Rightarrow> bool" where
  "undeclared L w \<longleftrightarrow> (\<forall>x\<in>member_names L. variables w x = None)"

definition owns :: "'n members \<Rightarrow> 'n world \<Rightarrow> bool" where
  "owns L w \<longleftrightarrow> (\<forall>x\<in>member_names L. variables w x \<noteq> None) \<and> distinct (map fst (objects L w)) \<and>
     (\<forall>(i, k)\<in>set (objects L w). live_objects w i = Some k)"

definition others_kept :: "'n members \<Rightarrow> 'n world \<Rightarrow> 'n world \<Rightarrow> bool" where
  "others_kept L w w' \<longleftrightarrow> (\<forall>x. x \<notin> member_names L \<longrightarrow> variables w' x = variables w x)"

text \<open>A constructor that returns has acquired new objects, all of them held by its members.\<close>

definition acquired :: "'n members \<Rightarrow> 'n world \<Rightarrow> 'n world \<Rightarrow> bool" where
  "acquired L w w' \<longleftrightarrow> fresh w' \<and> others_kept L w w' \<and> owns L w' \<and>
     (\<forall>i. if i \<in> ids L w' then live_objects w i = None else live_objects w' i = live_objects w i)"

definition released :: "'n members \<Rightarrow> 'n world \<Rightarrow> 'n world \<Rightarrow> bool" where
  "released L w w' \<longleftrightarrow> fresh w' \<and> others_kept L w w' \<and> undeclared L w' \<and>
     (\<forall>i. live_objects w' i = (if i \<in> ids L w then None else live_objects w i))"

text \<open>A constructor that throws leaves the variables as they were, and loses at most objects of some kinds.\<close>

definition leaked :: "av_kind set \<Rightarrow> 'n world \<Rightarrow> 'n world \<Rightarrow> bool" where
  "leaked K w w' \<longleftrightarrow> fresh w' \<and> variables w' = variables w \<and>
     (\<forall>i. live_objects w i \<noteq> None \<longrightarrow> live_objects w' i = live_objects w i) \<and>
     (\<forall>i k. live_objects w' i = Some k \<longrightarrow> live_objects w i = Some k \<or> k \<in> K)"

text \<open>\<open>L\<close> are the members, \<open>T\<close> the names the constructor uses for temporaries, \<open>K\<close> the kinds it can lose.\<close>

definition free_names :: "'n members \<Rightarrow> 'n set \<Rightarrow> 'n world \<Rightarrow> bool" where
  "free_names L T w \<longleftrightarrow> undeclared L w \<and> (\<forall>x\<in>T. variables w x = None)"

locale lifetime =
  fixes ctor :: "'n action" and dtor :: "'n action" and L :: "'n members" and T :: "'n set"
    and K :: "av_kind set"
  assumes ctor: "fresh w \<Longrightarrow> free_names L T w \<Longrightarrow>
      (case ctor w of (Ret _, w') \<Rightarrow> acquired L w w' | (Throw _, w') \<Rightarrow> leaked K w w' | _ \<Rightarrow> False)"
    and dtor: "fresh w \<Longrightarrow> owns L w \<Longrightarrow> \<exists>w'. dtor w = (Ret (), w') \<and> released L w w'"

end
