(* ===== verification/Lifetimes_Correct.thy ===== *)
theory Lifetimes_Correct
  imports Lifetimes
begin

text \<open>
  The wrapper classes keep the promise of \<open>Lifetimes.lifetime\<close>, and so do the decoders built from
  them: what a constructor allocates its destructor frees, and a constructor that throws has freed
  what its members held.
\<close>

section \<open>Objects of members\<close>

lemma objects_simps [simp]:
  "objects [] w = []" "objects ((x, k) # L) w = map (\<lambda>i. (i, k)) (pointee x w) @ objects L w"
  "objects (L @ L') w = objects L w @ objects L' w"
  by (simp_all add: objects_def)

lemma objects_cong:
  "(\<And>x. x \<in> member_names L \<Longrightarrow> variables w' x = variables w x) \<Longrightarrow> objects L w' = objects L w"
  by (induction L) (auto simp: pointee_def)

lemma owns_append:
  "owns (L @ L') w \<longleftrightarrow> owns L w \<and> owns L' w \<and> ids L w \<inter> ids L' w = {}"
  by (auto simp: owns_def)

lemma owns_cong:
  assumes "\<And>x. x \<in> member_names L \<Longrightarrow> variables w' x = variables w x"
    and "\<And>i. i \<in> ids L w \<Longrightarrow> live_objects w' i = live_objects w i"
  shows "owns L w' \<longleftrightarrow> owns L w"
proof -
  have obj: "objects L w' = objects L w" by (rule objects_cong) (rule assms(1))
  have "live_objects w' i = live_objects w i" if "(i, k) \<in> set (objects L w)" for i k
    using assms(2) [of i] that by force
  moreover have "variables w' x = variables w x" if "x \<in> member_names L" for x by (rule assms(1) [OF that])
  ultimately show ?thesis unfolding owns_def obj by (metis (mono_tags, lifting) case_prodI2 case_prodD)
qed

lemma undeclared_append: "undeclared (L @ L') w \<longleftrightarrow> undeclared L w \<and> undeclared L' w"
  by (auto simp: undeclared_def)

lemma owns_live: "owns L w \<Longrightarrow> i \<in> ids L w \<Longrightarrow> live_objects w i \<noteq> None"
  by (auto simp: owns_def)

lemma leaked_mono: "leaked K w w' \<Longrightarrow> K \<subseteq> K' \<Longrightarrow> leaked K' w w'"
  unfolding leaked_def by blast

section \<open>One member\<close>

lemma lifetime_single: "lifetime (construct err k x) (destruct k x) [(x, k)] {} {}"
proof
  fix w :: "'a world"
  assume "fresh w" and u: "free_names [(x, k)] {} w"
  then show "case construct err k x w of (Ret _, w') \<Rightarrow> acquired [(x, k)] w w'
      | (Throw _, w') \<Rightarrow> leaked {} w w' | _ \<Rightarrow> False"
    by (auto simp: construct_def world_ops Let_def acquired_def leaked_def fresh_def others_kept_def
        owns_def pointee_def)
next
  fix w :: "'a world"
  assume "fresh w" and o: "owns [(x, k)] w"
  then show "\<exists>w'. destruct k x w = (Ret (), w') \<and> released [(x, k)] w w'"
    by (cases "variables w x")
      (auto simp: destruct_def release_def world_ops owns_def pointee_def released_def fresh_def others_kept_def
        undeclared_def split: option.splits)
qed

section \<open>Two members\<close>

context lifetime
begin

lemma released_after_leak:
  assumes u: "undeclared L w" and "acquired L w w1" "leaked K' w1 w2"
  shows "\<exists>w3. dtor w2 = (Ret (), w3) \<and> leaked K' w w3"
proof -
  have own: "owns L w1" using assms(2) by (simp add: acquired_def)
  have same: "variables w2 = variables w1" using assms(3) by (simp add: leaked_def)
  have obj: "objects L w2 = objects L w1" by (rule objects_cong) (simp only: same)
  have live: "live_objects w2 i = live_objects w1 i" if "i \<in> ids L w1" for i
    using assms(3) owns_live [OF own that] by (auto simp: leaked_def)
  have "owns L w2 \<longleftrightarrow> owns L w1" by (rule owns_cong) (simp only: same, rule live)
  with own have "owns L w2" by simp
  moreover have "fresh w2" using assms(3) by (simp add: leaked_def)
  ultimately obtain w3 where d: "dtor w2 = (Ret (), w3)" and r: "released L w2 w3"
    using dtor by blast
  have "variables w3 x = variables w x" for x
  proof (cases "x \<in> member_names L")
    case True
    moreover have "undeclared L w3" using r by (simp add: released_def)
    ultimately have "variables w3 x = None" "variables w x = None"
      using assms(1) unfolding undeclared_def by (metis, metis)
    then show ?thesis by simp
  next
    case False
    then show ?thesis using r assms(2) same unfolding released_def others_kept_def acquired_def by simp
  qed
  then have "variables w3 = variables w" by blast
  moreover have "(live_objects w i \<noteq> None \<longrightarrow> live_objects w3 i = live_objects w i) \<and>
      (\<forall>k. live_objects w3 i = Some k \<longrightarrow> live_objects w i = Some k \<or> k \<in> K')" for i
  proof -
    have 1: "if i \<in> ids L w1 then live_objects w i = None else live_objects w1 i = live_objects w i"
      using assms(2) unfolding acquired_def by blast
    have 2: "live_objects w3 i = (if i \<in> ids L w1 then None else live_objects w2 i)"
      using r unfolding released_def obj by blast
    have 3: "live_objects w1 i \<noteq> None \<longrightarrow> live_objects w2 i = live_objects w1 i"
        "\<forall>k. live_objects w2 i = Some k \<longrightarrow> live_objects w1 i = Some k \<or> k \<in> K'"
      using assms(3) unfolding leaked_def by blast+
    show ?thesis
    proof (cases "i \<in> ids L w1")
      case True
      with 1 2 show ?thesis by simp
    next
      case False
      with 1 2 3 show ?thesis by simp
    qed
  qed
  ultimately have "leaked K' w w3" using r by (auto simp: leaked_def released_def)
  with d show ?thesis by blast
qed

end

locale two_lifetimes =
  a: lifetime c d L T K + b: lifetime c' d' L' T' K' for c d :: "'n action" and L T K c' d' L' T' K' +
  assumes apart: "member_names L \<inter> member_names L' = {}" "member_names L \<inter> T' = {}"
begin

lemma not_both: "x \<in> member_names L \<Longrightarrow> x \<notin> member_names L'" "x \<in> member_names L' \<Longrightarrow> x \<notin> member_names L"
  using apart(1) by blast+

lemma acquired_both:
  assumes "acquired L w w1" "acquired L' w1 w2"
  shows "acquired (L @ L') w w2"
proof -
  have same: "variables w2 x = variables w1 x" if "x \<in> member_names L" for x
    using assms(2) not_both(1) [OF that] unfolding acquired_def others_kept_def by blast
  have obj: "objects L w2 = objects L w1" by (rule objects_cong) (rule same)
  have new: "live_objects w1 i = None" if "i \<in> ids L' w2" for i
    using assms(2) that unfolding acquired_def by metis
  have old: "live_objects w2 i = live_objects w1 i" if "i \<notin> ids L' w2" for i
    using assms(2) that unfolding acquired_def by metis
  have own: "owns L w1" "owns L' w2" using assms by (auto simp: acquired_def)
  have disj: "ids L w1 \<inter> ids L' w2 = {}"
    using owns_live [OF own(1)] new by blast
  have "owns L w2" using own(1) owns_cong [of L w2 w1] same old disj by blast
  then have "owns (L @ L') w2" using own(2) disj obj by (simp add: owns_append)
  moreover have "if i \<in> ids (L @ L') w2 then live_objects w i = None else live_objects w2 i = live_objects w i" for i
  proof -
    have *: "if i \<in> ids L w1 then live_objects w i = None else live_objects w1 i = live_objects w i"
      using assms(1) unfolding acquired_def by blast
    show ?thesis
    proof (cases "i \<in> ids L' w2")
      case True
      with new [OF True] * disj show ?thesis by (auto split: if_split_asm)
    next
      case False
      with old [OF False] * show ?thesis by (auto simp: obj split: if_split_asm)
    qed
  qed
  ultimately show ?thesis
    using assms unfolding acquired_def others_kept_def set_append image_Un by simp
qed

lemma release_both:
  assumes "fresh w" "owns (L @ L') w"
  shows "\<exists>w'. then_do d' d w = (Ret (), w') \<and> released (L @ L') w w'"
proof -
  from assms(2) have own: "owns L w" "owns L' w" "ids L w \<inter> ids L' w = {}"
    by (auto simp: owns_append)
  obtain w1 where d': "d' w = (Ret (), w1)" and r1: "released L' w w1"
    using b.dtor [OF assms(1) own(2)] by blast
  have same: "variables w1 x = variables w x" if "x \<in> member_names L" for x
    using r1 not_both(1) [OF that] unfolding released_def others_kept_def by blast
  have obj: "objects L w1 = objects L w" by (rule objects_cong) (rule same)
  have "live_objects w1 i = live_objects w i" if "i \<in> ids L w" for i
    using r1 own(3) that unfolding released_def by auto
  with same own(1) have "owns L w1" using owns_cong [of L w1 w] by blast
  then obtain w2 where d: "d w1 = (Ret (), w2)" and r2: "released L w1 w2"
    using a.dtor r1 unfolding released_def [of L' w w1] by blast
  have "variables w2 x = None" if "x \<in> member_names L \<union> member_names L'" for x
    using that r1 r2 not_both unfolding released_def undeclared_def others_kept_def by (metis Un_iff)
  moreover have "variables w2 x = variables w x" if "x \<notin> member_names L" "x \<notin> member_names L'" for x
    using that r1 r2 unfolding released_def others_kept_def by simp
  moreover have "live_objects w2 i = (if i \<in> ids L w \<or> i \<in> ids L' w then None else live_objects w i)" for i
    using r1 r2 unfolding released_def obj by auto
  moreover have "fresh w2" using r2 by (simp add: released_def)
  ultimately have "released (L @ L') w w2"
    unfolding released_def others_kept_def undeclared_def
    by (simp add: image_Un)
  with d d' show ?thesis by (simp add: then_do_def)
qed

end

sublocale two_lifetimes \<subseteq> both: lifetime "with_member c d c'" "then_do d' d" "L @ L'" "T \<union> T'" "K \<union> K'"
proof
  fix w
  assume f: "fresh w" and u: "free_names (L @ L') (T \<union> T') w"
  then have u1: "free_names L T w" "free_names L' T' w" by (simp_all add: free_names_def undeclared_append ball_Un)
  from a.ctor [OF f u1(1)]
  show "case with_member c d c' w of (Ret _, w') \<Rightarrow> acquired (L @ L') w w'
      | (Throw _, w') \<Rightarrow> leaked (K \<union> K') w w' | _ \<Rightarrow> False"
  proof (cases "c w")
    case (Pair r w1)
    show ?thesis
    proof (cases r)
      case (Ret x)
      then have a1: "acquired L w w1" using a.ctor [OF f u1(1)] Pair by simp
      have "variables w1 x = None" if "x \<in> member_names L' \<union> T'" for x
      proof -
        have "x \<notin> member_names L" using apart that by blast
        with a1 have "variables w1 x = variables w x" by (simp add: acquired_def others_kept_def)
        with that u1(2) show ?thesis by (auto simp: free_names_def undeclared_def)
      qed
      with a1 have u2: "free_names L' T' w1" "fresh w1"
        by (simp_all add: free_names_def undeclared_def acquired_def)
      obtain r2 w2 where 2: "c' w1 = (r2, w2)" by fastforce
      show ?thesis
      proof (cases r2)
        case (Ret y)
        then have "acquired L' w1 w2" using b.ctor [OF u2(2,1)] 2 by simp
        then show ?thesis using acquired_both [OF a1] Pair Ret \<open>r = Ret x\<close> 2
          by (simp add: with_member_def then_do_def)
      next
        case (Throw e)
        then have "leaked K' w1 w2" using b.ctor [OF u2(2,1)] 2 by simp
        from a.released_after_leak [OF _ a1 this] u1(1) obtain w3
          where "d w2 = (Ret (), w3)" "leaked K' w w3" unfolding free_names_def by blast
        with Pair Throw \<open>r = Ret x\<close> 2 leaked_mono [of K' w w3 "K \<union> K'"]
        show ?thesis by (simp add: with_member_def then_do_def)
      next
        case (Fault b)
        then show ?thesis using b.ctor [OF u2(2,1)] 2 by simp
      qed
    next
      case (Throw e)
      then show ?thesis using a.ctor [OF f u1(1)] Pair leaked_mono [of K w w1 "K \<union> K'"]
        by (simp add: with_member_def then_do_def)
    next
      case (Fault b)
      then show ?thesis using a.ctor [OF f u1(1)] Pair by simp
    qed
  qed
next
  fix w
  assume "fresh w" "owns (L @ L') w"
  then show "\<exists>w'. then_do d' d w = (Ret (), w') \<and> released (L @ L') w w'" by (rule release_both)
qed

section \<open>The classes keep their promise\<close>

lemma lifetime_null: "lifetime (declare_null x) (destruct k x) [(x, k)] {} {}"
proof
  fix w :: "'a world"
  assume "fresh w" and u: "free_names [(x, k)] {} w"
  then show "case declare_null x w of (Ret _, w') \<Rightarrow> acquired [(x, k)] w w'
      | (Throw _, w') \<Rightarrow> leaked {} w w' | _ \<Rightarrow> False"
    by (simp add: declare_null_def world_ops acquired_def fresh_def others_kept_def owns_def pointee_def)
qed (rule lifetime.dtor [OF lifetime_single])

interpretation packet: lifetime "Packet_new x" "Packet_destroy x" "[(x, AvPacket)]" "{}" "{}" for x
  unfolding Packet_new_def Packet_destroy_def by (rule lifetime_single)

interpretation frame: lifetime "Frame_new x" "Frame_destroy x" "[(x, AvFrame)]" "{}" "{}" for x
  unfolding Frame_new_def Frame_destroy_def by (rule lifetime_single)

interpretation format_context: lifetime "FormatContext_new x" "FormatContext_destroy x" "[(x, AvFormatContext)]" "{}" "{}" for x
  unfolding FormatContext_new_def FormatContext_destroy_def by (rule lifetime_single)

text \<open>Calls that only ask the library: they return or throw and leave the memory alone.\<close>

definition same_memory :: "'n world \<Rightarrow> 'n world \<Rightarrow> bool" where
  "same_memory w w' \<longleftrightarrow> variables w' = variables w \<and> live_objects w' = live_objects w \<and>
     next_object w' = next_object w"

definition asks :: "'n action \<Rightarrow> bool" where
  "asks c \<longleftrightarrow> (\<forall>w. same_memory w (snd (c w)) \<and> no_fault (fst (c w)))"

named_theorems asks_intros \<open>calls that only ask\<close>

lemma asks_cases:
  assumes "asks c"
  obtains w' where "c w = (Ret (), w')" "same_memory w w'"
  | e w' where "c w = (Throw e, w')" "same_memory w w'"
  using assms unfolding asks_def no_fault_def
  by (cases "c w"; cases "fst (c w)") (metis fst_conv snd_conv old.unit.exhaust outcome.simps(12))+

lemma asks_checked [asks_intros]: "asks (checked lib)"
  by (auto simp: asks_def checked_def ask_def same_memory_def no_fault_def CallRet_def CallRet2_def Let_def)

lemma asks_found [asks_intros]: "asks (found err)"
  by (auto simp: asks_def found_def ask_def same_memory_def no_fault_def Call_def Let_def)

lemma asks_CodecCast [asks_intros]: "asks (\<lambda>w. (omap (\<lambda>_. ()) (CodecCast cdc), w))"
  by (cases cdc) (simp_all add: asks_def same_memory_def no_fault_def)

lemma asks_then_do [asks_intros]:
  assumes "asks c1" "asks c2"
  shows "asks (then_do c1 c2)"
  unfolding asks_def
proof
  fix w
  show "same_memory w (snd (then_do c1 c2 w)) \<and> no_fault (fst (then_do c1 c2 w))"
    using assms(1)
  proof (cases rule: asks_cases [where w = w])
    case (1 w1)
    from assms(2) show ?thesis
      by (cases rule: asks_cases [where w = w1]) (use 1 in \<open>auto simp: then_do_def same_memory_def no_fault_def\<close>)
  next
    case (2 e w1)
    then show ?thesis by (simp add: then_do_def no_fault_def)
  qed
qed

lemma memory_cong:
  assumes "same_memory w w0"
  shows "acquired L w0 w' = acquired L w w'" "leaked K w0 w' = leaked K w w'" "fresh w0 = fresh w"
    "free_names L T w0 = free_names L T w" "acquired L w' w0 = acquired L w' w"
    "objects L w0 = objects L w"
proof -
  have obj: "objects L w0 = objects L w"
    using assms by (intro objects_cong) (simp add: same_memory_def)
  then show "objects L w0 = objects L w" .
  show "acquired L w' w0 = acquired L w' w"
    using assms by (simp add: acquired_def obj same_memory_def fresh_def others_kept_def owns_def)
qed (use assms in \<open>simp_all add: acquired_def leaked_def same_memory_def fresh_def others_kept_def
    free_names_def undeclared_def\<close>)

lemma lifetime_after_asking:
  assumes "asks pre" "lifetime c d L T K"
  shows "lifetime (then_do pre c) d L T K"
proof
  fix w
  assume f: "fresh w" and u: "free_names L T w"
  from assms(1) show "case then_do pre c w of (Ret _, w') \<Rightarrow> acquired L w w'
      | (Throw _, w') \<Rightarrow> leaked K w w' | _ \<Rightarrow> False"
  proof (cases rule: asks_cases [where w = w])
    case (1 w1)
    with f u have "fresh w1" "free_names L T w1" by (simp_all add: memory_cong)
    from lifetime.ctor [OF assms(2) this] 1 show ?thesis
      by (auto simp: then_do_def memory_cong split: prod.splits outcome.splits)
  next
    case (2 e w1)
    then show ?thesis using f by (simp add: then_do_def leaked_def same_memory_def fresh_def)
  qed
qed (rule lifetime.dtor [OF assms(2)])

lemma acquired_lost:
  assumes "acquired [(x, k)] w w'" "free_names [(x, k)] T w"
  shows "leaked {k} w (set_variable x None w')"
proof -
  have "variables (set_variable x None w') y = variables w y" for y
    using assms by (simp add: set_variable_def acquired_def others_kept_def free_names_def undeclared_def)
  then have "variables (set_variable x None w') = variables w" by blast
  moreover have "(live_objects w i \<noteq> None \<longrightarrow> live_objects w' i = live_objects w i) \<and>
      (\<forall>k'. live_objects w' i = Some k' \<longrightarrow> live_objects w i = Some k' \<or> k' \<in> {k})" for i
  proof (cases "i \<in> ids [(x, k)] w'")
    case True
    then have "live_objects w i = None" "live_objects w' i = Some k"
      using assms(1) unfolding acquired_def owns_def by (metis, auto)
    then show ?thesis by simp
  next
    case False
    then have "live_objects w' i = live_objects w i"
      using assms(1) unfolding acquired_def by metis
    then show ?thesis by simp
  qed
  ultimately show ?thesis
    using assms(1) by (simp add: leaked_def acquired_def fresh_def set_variable_def)
qed

lemma lifetime_opened:
  assumes "asks body"
  shows "lifetime (without_object x (then_do (construct err k x) body)) (destruct k x) [(x, k)] {} {k}"
proof
  fix w
  assume f: "fresh w" and u: "free_names [(x, k)] {} w"
  note c = lifetime.ctor [OF lifetime_single f u, of err]
  show "case without_object x (then_do (construct err k x) body) w of (Ret _, w') \<Rightarrow> acquired [(x, k)] w w'
      | (Throw _, w') \<Rightarrow> leaked {k} w w' | _ \<Rightarrow> False"
  proof (cases "fst (construct err k x w)")
    case (Ret r)
    then obtain w1 where 1: "construct err k x w = (Ret (), w1)" by (cases "construct err k x w") auto
    with c have a: "acquired [(x, k)] w w1" by simp
    from assms show ?thesis
    proof (cases rule: asks_cases [where w = w1])
      case (1 w2)
      with a \<open>construct err k x w = (Ret (), w1)\<close> show ?thesis
        by (simp add: without_object_def then_do_def memory_cong)
    next
      case (2 e w2)
      with a have "acquired [(x, k)] w w2" by (simp add: memory_cong)
      from acquired_lost [OF this u] 2 1 show ?thesis
        by (simp add: without_object_def then_do_def)
    qed
  next
    case (Throw e)
    then obtain w1 where 1: "construct err k x w = (Throw e, w1)" by (cases "construct err k x w") auto
    with c have l: "leaked {} w w1" by simp
    have "set_variable x None w1 = w1"
      using l u by (simp add: set_variable_def leaked_def free_names_def undeclared_def fun_upd_idem)
    with 1 leaked_mono [OF l] show ?thesis by (simp add: without_object_def then_do_def)
  next
    case (Fault b)
    then show ?thesis using c by (cases "construct err k x w") auto
  qed
qed (rule lifetime.dtor [OF lifetime_single])

interpretation codec_of_stream: lifetime "CodecContext_new_of_stream lib x" "CodecContext_destroy x"
    "[(x, AvCodecContext)]" "{}" "{AvCodecContext}" for lib x
  unfolding CodecContext_new_of_stream_def CodecContext_destroy_def
  by (intro lifetime_opened asks_intros)

interpretation codec_of_codec: lifetime "CodecContext_new_of_codec lib cdc x" "CodecContext_destroy x"
    "[(x, AvCodecContext)]" "{}" "{AvCodecContext}" for lib cdc x
  unfolding CodecContext_new_of_codec_def CodecContext_destroy_def
  by (intro lifetime_after_asking lifetime_opened asks_intros)


section \<open>Classes with several members\<close>

context two_lifetimes
begin

lemma pair: "lifetime (with_member c d c') (then_do d' d) (L @ L') (T \<union> T') (K \<union> K')"
  by (rule both.lifetime_axioms)

end

lemma two_members:
  assumes "lifetime c d L T K" "lifetime c' d' L' T' K'"
    and "member_names L \<inter> member_names L' = {}" "member_names L \<inter> T' = {}"
  shows "lifetime (with_member c d c') (then_do d' d) (L @ L') (T \<union> T') (K \<union> K')"
  by (rule two_lifetimes.pair) (simp add: two_lifetimes_def two_lifetimes_axioms_def assms)

lemma then_do_assoc: "then_do (then_do a b) c = then_do a (then_do b c)"
  by (rule ext) (simp add: then_do_def split: prod.split outcome.split)

lemma then_do_return [simp]: "then_do return c = c"
  by (rule ext) (simp add: then_do_def return_def)

lemma with_member_then: "with_member (then_do a b) d later = then_do a (with_member b d later)"
  by (simp add: with_member_def then_do_assoc)

lemma with_member_steps: "with_member c d (then_do a b) = with_member (with_member c d a) d b"
  by (rule ext) (simp add: with_member_def then_do_def split: prod.split outcome.split)

lemma with_member_nested:
  "with_member c d (with_member c' d' later) = with_member (with_member c d c') (then_do d' d) later"
  by (rule ext) (simp add: with_member_def then_do_def split: prod.split outcome.split)

lemma lifetime_asks:
  assumes "asks c"
  shows "lifetime c return [] {} {}"
proof
  fix w :: "'a world"
  assume "fresh w"
  with assms show "case c w of (Ret _, w') \<Rightarrow> acquired [] w w' | (Throw _, w') \<Rightarrow> leaked {} w w' | _ \<Rightarrow> False"
    by (cases rule: asks_cases [where w = w])
      (simp_all add: acquired_def leaked_def same_memory_def fresh_def others_kept_def owns_def)
qed (simp add: return_def released_def others_kept_def undeclared_def)

text \<open>A member whose constructor continues with calls that only ask.\<close>

lemma lifetime_then_asks:
  assumes "lifetime c d L T K" "asks a"
  shows "lifetime (with_member c d a) d L T K"
  using two_members [OF assms(1) lifetime_asks [OF assms(2)]] by simp

text \<open>An object made in a temporary, moved to a member, and the empty temporary destroyed.\<close>

lemma lifetime_moved:
  assumes "lifetime c (destruct k y) [(y, k)] {} K" "x \<noteq> y"
  shows "lifetime (then_do c (then_do (CodecContext_move x y) (destruct k y))) (destruct k x) [(x, k)] {y} K"
proof
  fix w
  assume f: "fresh w" and u: "free_names [(x, k)] {y} w"
  then have uy: "free_names [(y, k)] {} w" by (simp add: free_names_def undeclared_def)
  note c = lifetime.ctor [OF assms(1) f uy]
  show "case then_do c (then_do (CodecContext_move x y) (destruct k y)) w of
      (Ret _, w') \<Rightarrow> acquired [(x, k)] w w' | (Throw _, w') \<Rightarrow> leaked K w w' | _ \<Rightarrow> False"
  proof (cases "c w")
    case (Pair r w1)
    show ?thesis
    proof (cases r)
      case (Ret z)
      with Pair c have a: "acquired [(y, k)] w w1" by simp
      let ?w2 = "set_variable y None (move_construct x y w1)"
      have "then_do c (then_do (CodecContext_move x y) (destruct k y)) w = (Ret (), ?w2)"
        using Pair Ret assms(2)
        by (simp add: then_do_def CodecContext_move_def destruct_def release_def move_construct_def set_variable_def)
      moreover have "acquired [(x, k)] w ?w2"
        using a u assms(2)
        by (auto simp: acquired_def fresh_def others_kept_def owns_def move_construct_def set_variable_def
            pointee_def free_names_def undeclared_def)
      ultimately show ?thesis by simp
    next
      case (Throw e)
      with Pair c show ?thesis by (simp add: then_do_def)
    next
      case (Fault b)
      with Pair c show ?thesis by simp
    qed
  qed
qed (rule lifetime.dtor [OF lifetime_single])

text \<open>The format context and the call that opens it, which frees it when it fails.\<close>

lemma lifetime_format:
  "lifetime (with_member (FormatContext_new x) (FormatContext_destroy x) (avformat_open lib x))
     (FormatContext_destroy x) [(x, AvFormatContext)] {} {}"
proof
  fix w :: "'a world"
  assume "fresh w" "free_names [(x, AvFormatContext)] {} w"
  then show "case with_member (FormatContext_new x) (FormatContext_destroy x) (avformat_open lib x) w of
      (Ret _, w') \<Rightarrow> acquired [(x, AvFormatContext)] w w' | (Throw _, w') \<Rightarrow> leaked {} w w' | _ \<Rightarrow> False"
    by (simp add: with_member_def then_do_def FormatContext_new_def construct_def world_ops Let_def
        avformat_open_def release_def FormatContext_destroy_def destruct_def)
      (auto simp: acquired_def leaked_def fresh_def others_kept_def owns_def pointee_def free_names_def undeclared_def)
qed (rule format_context.dtor)

end
