(* ===== verification/Decoder_Memory.thy ===== *)
theory Decoder_Memory
  imports Lifetimes_Correct
begin

text \<open>
  What the two decoders of \<open>src/audio/ffmpeg-wrapper.h\<close> do with the memory of the libraries, from
  their construction through any number of decoded frames to their destruction.
\<close>

section \<open>Interpretations for the members of the decoders\<close>

interpretation sample_converter: two_lifetimes "Frame_new Conv_out_frame" "Frame_destroy Conv_out_frame"
    "[(Conv_out_frame, AvFrame)]" "{}" "{}" "declare_null Conv_swr_ctx" "destruct AvSwrContext Conv_swr_ctx"
    "[(Conv_swr_ctx, AvSwrContext)]" "{}" "{}"
  by (simp add: two_lifetimes_def two_lifetimes_axioms_def frame.lifetime_axioms lifetime_null)

interpretation parser: two_lifetimes "CodecContext_new_of_codec lib cdc Codec_ctx_member"
    "CodecContext_destroy Codec_ctx_member" "[(Codec_ctx_member, AvCodecContext)]" "{}" "{AvCodecContext}"
    "construct ''AVParser init failure.'' AvParser Parser_ctx_member" "destruct AvParser Parser_ctx_member"
    "[(Parser_ctx_member, AvParser)]" "{}" "{}" for lib cdc
  by (simp add: two_lifetimes_def two_lifetimes_axioms_def codec_of_codec.lifetime_axioms lifetime_single)

lemma converter_lifetime:
  "lifetime (SampleConverter_new Conv_out_frame Conv_swr_ctx) (SampleConverter_destroy Conv_out_frame Conv_swr_ctx)
     [(Conv_out_frame, AvFrame), (Conv_swr_ctx, AvSwrContext)] {} {}"
  using sample_converter.pair by (simp add: SampleConverter_new_def SampleConverter_destroy_def)

lemma parser_lifetime:
  "lifetime (Parser_new lib cdc Codec_ctx_member Parser_ctx_member) (Parser_destroy Codec_ctx_member Parser_ctx_member)
     [(Codec_ctx_member, AvCodecContext), (Parser_ctx_member, AvParser)] {} {AvCodecContext}"
  using parser.pair by (simp add: Parser_new_def Parser_destroy_def)

text \<open>The format context of \<open>IoContextDecoder\<close> with the calls that open it.\<close>

lemma opened_format_lifetime:
  "lifetime
     (with_member (with_member (FormatContext_new Fmt_ctx_member) (FormatContext_destroy Fmt_ctx_member)
         (avformat_open lib Fmt_ctx_member)) (FormatContext_destroy Fmt_ctx_member) (then_do (checked lib) (checked lib)))
     (FormatContext_destroy Fmt_ctx_member) [(Fmt_ctx_member, AvFormatContext)] {} {}"
  by (intro lifetime_then_asks lifetime_format asks_intros)

definition codec_part :: "'d av_lib \<Rightarrow> codec \<Rightarrow> member action" where
  "codec_part lib cdc =
     then_do
       (if cdc \<noteq> KUnknown then CodecContext_new_of_codec lib cdc Codec_ctx_temporary
        else CodecContext_new_of_stream lib Codec_ctx_temporary)
       (then_do (CodecContext_move Codec_ctx_member Codec_ctx_temporary)
         (CodecContext_destroy Codec_ctx_temporary))"

lemma codec_part_lifetime:
  "lifetime (codec_part lib cdc) (CodecContext_destroy Codec_ctx_member) [(Codec_ctx_member, AvCodecContext)]
     {Codec_ctx_temporary} {AvCodecContext}"
  unfolding codec_part_def CodecContext_destroy_def
  by (rule lifetime_moved)
    (simp_all add: codec_of_codec.lifetime_axioms [unfolded CodecContext_destroy_def]
      codec_of_stream.lifetime_axioms [unfolded CodecContext_destroy_def])

section \<open>Decoding\<close>

definition used :: "'n members \<Rightarrow> 'n world \<Rightarrow> 'n world \<Rightarrow> bool" where
  "used L w w' \<longleftrightarrow> fresh w' \<and> others_kept L w w' \<and> owns L w' \<and>
     (\<forall>i. i \<notin> ids L w' \<longrightarrow> live_objects w' i = live_objects w i) \<and>
     (\<forall>i\<in>ids L w'. i \<in> ids L w \<or> live_objects w i = None) \<and> ids L w \<subseteq> ids L w'"

lemma used_refl: "fresh w \<Longrightarrow> owns L w \<Longrightarrow> used L w w"
  by (simp add: used_def others_kept_def)

lemma used_same:
  assumes "used L w w1" "same_memory w1 w2"
  shows "used L w w2"
proof -
  have "objects L w2 = objects L w1" using assms(2) by (rule memory_cong)
  with assms show ?thesis
    unfolding used_def same_memory_def fresh_def others_kept_def owns_def by simp
qed

lemma used_facts:
  assumes "used L w w'"
  shows "fresh w'" "owns L w'" "x \<notin> member_names L \<Longrightarrow> variables w' x = variables w x"
    and "i \<notin> ids L w' \<Longrightarrow> live_objects w' i = live_objects w i"
    and "i \<in> ids L w' \<Longrightarrow> i \<in> ids L w \<or> live_objects w i = None"
    and "i \<in> ids L w \<Longrightarrow> i \<in> ids L w'"
  using assms unfolding used_def others_kept_def by (simp, simp, simp, simp, metis, metis subsetD)

lemma used_trans:
  assumes "used L w w1" "used L w1 w2"
  shows "used L w w2"
proof -
  note u1 = used_facts [OF assms(1)] and u2 = used_facts [OF assms(2)]
  have "i \<in> ids L w \<or> live_objects w i = None" if i: "i \<in> ids L w2" for i
    using u2(5) [OF i] u1(4,5) by metis
  moreover have "live_objects w2 i = live_objects w i" if "i \<notin> ids L w2" for i
    using u1(4) u2(4,6) that by metis
  moreover have "ids L w \<subseteq> ids L w2" using u1(6) u2(6) by blast
  moreover have "variables w2 x = variables w x" if "x \<notin> member_names L" for x
    using u1(3) [OF that] u2(3) [OF that] by simp
  ultimately show ?thesis unfolding used_def others_kept_def using u2(1,2) by simp
qed

lemma used_new:
  assumes w: "fresh w" "owns (L @ [(x, k)]) w" and x: "x \<notin> member_names L" "variables w x = Some None"
    and c: "construct err k x w = (Ret (), w')"
  shows "used (L @ [(x, k)]) w w'"
proof -
  note b = basic_construct [OF c w(1)]
  have obj: "objects L w' = objects L w"
    by (rule objects_cong) (use x in \<open>auto simp: b(2)\<close>)
  have old: "objects (L @ [(x, k)]) w = objects L w" using x by (simp add: pointee_def)
  have new: "objects (L @ [(x, k)]) w' = objects L w @ [(next_object w, k)]"
    by (simp add: obj pointee_def b(2))
  have fr: "next_object w \<notin> ids L w" using owns_live [OF w(2), of "next_object w"] b(3) by auto
  have "owns L w" using w(2) by (simp add: owns_append)
  moreover have "variables w' y = variables w y" if "y \<in> member_names L" for y
    using that x(1) b(2) by (metis fun_upd_other)
  moreover have "live_objects w' i = live_objects w i" if "i \<in> ids L w" for i
    using that fr b(1) by (metis fun_upd_other)
  ultimately have own: "owns L w'" using owns_cong [of L w' w] by blast
  have "owns [(x, k)] w'" by (simp add: owns_def pointee_def b(1,2))
  with own fr have "owns (L @ [(x, k)]) w'" by (simp add: owns_append obj pointee_def b(2))
  with b(4) show ?thesis
    unfolding used_def others_kept_def old new by (auto simp: b(1,2,3))
qed

lemma ensure_converter_used:
  assumes "fresh w" "owns (L @ [(x, AvSwrContext)]) w" "x \<notin> member_names L" "\<And>i. 0 < initialized i"
  shows "no_fault (fst (ensure_converter lib initialized x w)) \<and>
    used (L @ [(x, AvSwrContext)]) w (snd (ensure_converter lib initialized x w))"
proof -
  from assms(2) have "variables w x \<noteq> None" by (auto simp: owns_def)
  then consider i where "variables w x = Some (Some i)" | "variables w x = Some None"
    by (metis not_None_eq)
  then show ?thesis
  proof cases
    case 1
    then have "ensure_converter lib initialized x w = (Ret (), w)"
      using assms(4) [of i] by (simp add: ensure_converter_def CallRet_def CallRet2_def)
    then show ?thesis using used_refl [OF assms(1,2)] by simp
  next
    case null: 2
    show ?thesis
    proof (cases "answers w 0 < 0")
      case True
      with null have "same_memory w (snd (ensure_converter lib initialized x w))"
          "no_fault (fst (ensure_converter lib initialized x w))"
        by (simp_all add: ensure_converter_def converter_Init_def then_do_def construct_def ask_def same_memory_def)
      with used_same [OF used_refl [OF assms(1,2)]] show ?thesis by blast
    next
      case False
      then obtain w1 where c: "construct ''Failed to alloc SwrContext'' AvSwrContext x w = (Ret (), w1)"
        by (auto simp: construct_def world_ops Let_def)
      have e: "ensure_converter lib initialized x w = checked lib w1"
        using null c by (simp add: ensure_converter_def converter_Init_def then_do_def)
      have "same_memory w1 (snd (checked lib w1))" "no_fault (fst (checked lib w1))"
        using asks_checked [of lib] unfolding asks_def by blast+
      with used_same [OF used_new [OF assms(1-3) null c]] e show ?thesis by simp
    qed
  qed
qed

lemma decode_frames_used:
  assumes "fresh w" "owns (L @ [(x, AvSwrContext)]) w" "x \<notin> member_names L" "\<And>i. 0 < initialized i"
  shows "no_fault (fst (decode_frames lib initialized x n w)) \<and>
    used (L @ [(x, AvSwrContext)]) w (snd (decode_frames lib initialized x n w))"
  using assms(1,2)
proof (induction n arbitrary: w)
  case 0
  then show ?case by (simp add: return_def used_refl)
next
  case (Suc n)
  let ?L = "L @ [(x, AvSwrContext)]"
  obtain r1 w1 where 1: "ensure_converter lib initialized x w = (r1, w1)" by fastforce
  obtain r2 w2 where 2: "checked lib w1 = (r2, w2)" by fastforce
  have u1: "no_fault r1" "used ?L w w1"
    using ensure_converter_used [where initialized = initialized and lib = lib, OF Suc.prems assms(3,4)] 1 by simp_all
  have n2: "no_fault r2" "same_memory w1 w2"
    using asks_checked [of lib] 2 unfolding asks_def by (metis fst_conv, metis snd_conv)
  have u2: "used ?L w w2" using used_same [OF u1(2) n2(2)] .
  then have "fresh w2" "owns ?L w2" by (simp_all add: used_def)
  from Suc.IH [OF this] used_trans [OF u2]
  show ?case using 1 2 u1 u2 n2(1)
    by (cases r1; cases r2) (simp_all add: then_do_def)
qed


lemma released_after_use:
  assumes l: "lifetime c d (L @ [(x, AvSwrContext)]) T K" and w: "free_names (L @ [(x, AvSwrContext)]) T w"
    and a: "acquired (L @ [(x, AvSwrContext)]) w w1" and u: "used (L @ [(x, AvSwrContext)]) w1 w2"
  shows "\<exists>w3. d w2 = (Ret (), w3) \<and> fresh w3 \<and> live_objects w3 = live_objects w \<and> variables w3 = variables w"
proof -
  let ?L = "L @ [(x, AvSwrContext)]"
  note u2 = used_facts [OF u]
  obtain w3 where d: "d w2 = (Ret (), w3)" and r: "released ?L w2 w3"
    using lifetime.dtor [OF l u2(1,2)] by blast
  have "variables w3 y = variables w y" for y
  proof (cases "y \<in> member_names ?L")
    case True
    have "undeclared ?L w3" "undeclared ?L w" using r w by (simp_all add: released_def free_names_def)
    with True have "variables w3 y = None" "variables w y = None" unfolding undeclared_def by (metis, metis)
    then show ?thesis by simp
  next
    case False
    then show ?thesis using a r u2(3) [OF False] by (simp add: acquired_def released_def others_kept_def)
  qed
  moreover have "live_objects w3 i = live_objects w i" for i
  proof -
    have new: "if i \<in> ids ?L w1 then live_objects w i = None else live_objects w1 i = live_objects w i"
      using a unfolding acquired_def by blast
    have fin: "live_objects w3 i = (if i \<in> ids ?L w2 then None else live_objects w2 i)"
      using r unfolding released_def by blast
    show ?thesis using new fin u2(4-6) [of i] by (metis (full_types))
  qed
  ultimately show ?thesis using d r by (auto simp: released_def)
qed

section \<open>The decoder for URLs\<close>

abbreviation io_members :: "member members" where
  "io_members \<equiv> [(Packet_member, AvPacket), (Frame_member, AvFrame), (Out_frame_member, AvFrame),
     (Fmt_ctx_member, AvFormatContext), (Codec_ctx_member, AvCodecContext), (Conv_out_frame, AvFrame)]"

definition io_rest_new :: "'d av_lib \<Rightarrow> codec \<Rightarrow> member action" where
  "io_rest_new lib cdc =
     with_member (Packet_new Packet_member) (Packet_destroy Packet_member)
       (with_member (Frame_new Frame_member) (Frame_destroy Frame_member)
         (with_member (Frame_new Out_frame_member) (Frame_destroy Out_frame_member)
           (with_member (FormatContext_new Fmt_ctx_member) (FormatContext_destroy Fmt_ctx_member)
             (with_member (open_codec lib cdc) (CodecContext_destroy Codec_ctx_member)
               (SampleConverter_new Conv_out_frame Conv_swr_ctx)))))"

definition io_rest_destroy :: "member action" where
  "io_rest_destroy =
     then_do (SampleConverter_destroy Conv_out_frame Conv_swr_ctx)
       (then_do (CodecContext_destroy Codec_ctx_member)
         (then_do (FormatContext_destroy Fmt_ctx_member)
           (then_do (Frame_destroy Out_frame_member)
             (then_do (Frame_destroy Frame_member) (Packet_destroy Packet_member)))))"

lemma open_codec_parts:
  "with_member (FormatContext_new Fmt_ctx_member) (FormatContext_destroy Fmt_ctx_member)
     (with_member (open_codec lib cdc) d later) =
   with_member
     (with_member (with_member (FormatContext_new Fmt_ctx_member) (FormatContext_destroy Fmt_ctx_member)
         (avformat_open lib Fmt_ctx_member)) (FormatContext_destroy Fmt_ctx_member) (then_do (checked lib) (checked lib)))
     (FormatContext_destroy Fmt_ctx_member)
     (with_member (codec_part lib cdc) d later)"
  by (simp add: open_codec_def codec_part_def with_member_then with_member_steps then_do_assoc)

lemma io_rest_lifetime:
  "lifetime (io_rest_new lib cdc) io_rest_destroy (io_members @ [(Conv_swr_ctx, AvSwrContext)])
     {Codec_ctx_temporary} {AvCodecContext}"
proof -
  have 1: "lifetime (with_member (codec_part lib cdc) (CodecContext_destroy Codec_ctx_member)
      (SampleConverter_new Conv_out_frame Conv_swr_ctx))
    (then_do (SampleConverter_destroy Conv_out_frame Conv_swr_ctx) (CodecContext_destroy Codec_ctx_member))
    [(Codec_ctx_member, AvCodecContext), (Conv_out_frame, AvFrame), (Conv_swr_ctx, AvSwrContext)]
    {Codec_ctx_temporary} {AvCodecContext}"
    using two_members [OF codec_part_lifetime converter_lifetime] by simp
  note 2 = two_members [OF opened_format_lifetime 1]
  note 3 = two_members [OF frame.lifetime_axioms [of Out_frame_member] 2]
  note 4 = two_members [OF frame.lifetime_axioms [of Frame_member] 3]
  note 5 = two_members [OF packet.lifetime_axioms [of Packet_member] 4]
  show ?thesis
    using 5 by (simp add: io_rest_new_def io_rest_destroy_def open_codec_parts then_do_assoc)
qed

text \<open>
  What \<open>Open()\<close> of a URL source starts: a connection is opened in a temporary, a decoder is made from
  it, the temporary is destroyed, the decoder decodes some frames, and it is destroyed, also when
  decoding throws.
\<close>

definition use_url_decoder :: "'d av_lib \<Rightarrow> (nat \<Rightarrow> int) \<Rightarrow> nat \<Rightarrow> member action" where
  "use_url_decoder lib initialized n w =
     (case decode_frames lib initialized Conv_swr_ctx n w of
        (Fault b, w1) \<Rightarrow> (Fault b, w1)
      | (_, w1) \<Rightarrow> IoContextDecoder_destroy lib w1)"

definition connected_decoder_life :: "'d av_lib \<Rightarrow> (nat \<Rightarrow> int) \<Rightarrow> codec \<Rightarrow> nat \<Rightarrow> member action" where
  "connected_decoder_life lib initialized cdc n =
     then_do (with_member return (UrlIoContext_destroy lib Io_ctx_arg) (IoContextDecoder_new lib cdc))
       (then_do (UrlIoContext_destroy lib Io_ctx_arg) (use_url_decoder lib initialized n))"

definition url_decoder_life :: "'d av_lib \<Rightarrow> (nat \<Rightarrow> int) \<Rightarrow> codec \<Rightarrow> nat \<Rightarrow> member action" where
  "url_decoder_life lib initialized cdc n =
     then_do (UrlIoContext_new lib Io_ctx_arg Url_options) (connected_decoder_life lib initialized cdc n)"

lemma UrlIoContext_outcome:
  assumes "fresh w" "variables w p = None" "variables w q = None" "p \<noteq> q"
  shows "case UrlIoContext_new lib p q w of
      (Ret _, w') \<Rightarrow> fresh w' \<and> (\<exists>i. live_objects w i = None \<and> live_objects w' = (live_objects w)(i \<mapsto> AvUrlIo) \<and>
        variables w' = (variables w)(p \<mapsto> Some i))
    | (Throw _, w') \<Rightarrow> leaked {AvDictionary} w w' | _ \<Rightarrow> False"
proof -
  let ?i = "next_object w"
  have "live_objects w ?i = None" "live_objects w (Suc ?i) = None" "live_objects w (Suc (Suc ?i)) = None"
    using assms(1) by (simp_all add: fresh_def)
  with assms show ?thesis
    by (simp add: UrlIoContext_new_def then_do_def dict_new_def without_object_def destruct_def release_def
        avio_open_def world_ops Let_def)
      (auto simp: leaked_def fresh_def fun_upd_twist fun_upd_idem,
        (rule exI, rule conjI [rotated], rule conjI, rule refl, rule refl, simp)+)
qed

lemma leaked_one:
  assumes "leaked {k} w w'"
  shows "live_objects w' i = live_objects w i \<or> live_objects w' i = Some k"
proof (cases "live_objects w i = None \<and> live_objects w' i \<noteq> None")
  case True
  then obtain k' where "live_objects w' i = Some k'" by blast
  moreover from assms have "live_objects w' i = Some k' \<longrightarrow> live_objects w i = Some k' \<or> k' \<in> {k}"
    unfolding leaked_def by blast
  ultimately show ?thesis using True by simp
next
  case False
  then show ?thesis using assms unfolding leaked_def by metis
qed

lemma UrlIoContext_destroy_live:
  assumes "variables w x = Some (Some u)" "live_objects w u = Some AvUrlIo"
  shows "UrlIoContext_destroy lib x w = (Fault Aborted, snd (UrlIoContext_destroy lib x w)) \<or>
    UrlIoContext_destroy lib x w = (Ret (), snd (UrlIoContext_destroy lib x w))"
    and "live_objects (snd (UrlIoContext_destroy lib x w)) = (live_objects w)(u := None)"
    and "variables (snd (UrlIoContext_destroy lib x w)) = (variables w)(x := None)"
proof -
  let ?w1 = "set_variable x None (free_object u w)"
  from asks_checked [of lib]
  have "(UrlIoContext_destroy lib x w = (Fault Aborted, snd (UrlIoContext_destroy lib x w)) \<or>
      UrlIoContext_destroy lib x w = (Ret (), snd (UrlIoContext_destroy lib x w))) \<and>
      same_memory ?w1 (snd (UrlIoContext_destroy lib x w))"
    by (cases rule: asks_cases [where w = ?w1])
      (simp_all add: UrlIoContext_destroy_def destruct_def release_def assms)
  then show "UrlIoContext_destroy lib x w = (Fault Aborted, snd (UrlIoContext_destroy lib x w)) \<or>
      UrlIoContext_destroy lib x w = (Ret (), snd (UrlIoContext_destroy lib x w))"
    and "live_objects (snd (UrlIoContext_destroy lib x w)) = (live_objects w)(u := None)"
    and "variables (snd (UrlIoContext_destroy lib x w)) = (variables w)(x := None)"
    by (simp_all add: same_memory_def set_variable_def free_object_def)
qed

lemma UrlIoContext_destroy_null:
  "variables w x = Some None \<Longrightarrow> UrlIoContext_destroy lib x w = (Ret (), set_variable x None w)"
  by (simp add: UrlIoContext_destroy_def)

lemma acquired_set_variable:
  assumes "acquired L w w'" "x \<notin> member_names L"
  shows "acquired L (set_variable x v w) (set_variable x v w')"
proof -
  have "objects L (set_variable x v w') = objects L w'"
    by (rule objects_cong) (use assms(2) in \<open>auto simp: set_variable_def\<close>)
  moreover have "owns L (set_variable x v w') \<longleftrightarrow> owns L w'"
    by (rule owns_cong) (use assms(2) in \<open>auto simp: set_variable_def\<close>)
  ultimately show ?thesis using assms
    unfolding acquired_def others_kept_def by (simp add: set_variable_def fresh_def)
qed

lemma connected_decoder:
  assumes "fresh w" "variables w = [Io_ctx_arg \<mapsto> Some u]" "live_objects w u = Some AvUrlIo"
    and "\<And>i. 0 < initialized i"
  shows "case connected_decoder_life lib initialized cdc n w of
      (Ret _, w') \<Rightarrow> live_objects w' = (live_objects w)(u := None) \<and> variables w' = (\<lambda>_. None)
    | (Throw _, w') \<Rightarrow> live_objects w' u = None \<and> variables w' = (\<lambda>_. None) \<and>
        (\<forall>i. i \<noteq> u \<longrightarrow> live_objects w' i = live_objects w i \<or> live_objects w' i = Some AvCodecContext)
    | (Fault b, _) \<Rightarrow> b = Aborted"
proof -
  let ?L = "io_members @ [(Conv_swr_ctx, AvSwrContext)]" and ?d = "UrlIoContext_destroy lib Io_ctx_member"
  let ?w0 = "move_construct Io_ctx_member Io_ctx_arg w"
  have w0: "live_objects ?w0 = live_objects w" "variables ?w0 = [Io_ctx_arg \<mapsto> None, Io_ctx_member \<mapsto> Some u]"
      "fresh ?w0" "free_names ?L {Codec_ctx_temporary} ?w0"
    using assms(1,2) by (auto simp: move_construct_def set_variable_def fresh_def free_names_def undeclared_def)
  let ?v0 = "set_variable Io_ctx_arg None ?w0"
  have v0: "live_objects ?v0 = live_objects w" "variables ?v0 = [Io_ctx_member \<mapsto> Some u]"
      "free_names ?L {Codec_ctx_temporary} ?v0"
    using w0 by (simp_all add: set_variable_def free_names_def undeclared_def)
  have new: "IoContextDecoder_new lib cdc = with_member
      (\<lambda>w. (Ret (), move_construct Io_ctx_member Io_ctx_arg w)) ?d (io_rest_new lib cdc)"
    by (simp add: IoContextDecoder_new_def io_rest_new_def)
  have destroy: "IoContextDecoder_destroy lib = then_do io_rest_destroy ?d"
    by (simp add: IoContextDecoder_destroy_def io_rest_destroy_def then_do_assoc)
  note c = lifetime.ctor [OF io_rest_lifetime w0(3,4), of lib cdc]
  obtain r w1 where 1: "io_rest_new lib cdc ?w0 = (r, w1)" by fastforce
  show ?thesis
  proof (cases r)
    case (Ret x)
    with c 1 have "acquired ?L ?w0 w1" by simp
    then have arg: "variables w1 Io_ctx_arg = Some None"
      using w0(2) by (simp add: acquired_def others_kept_def)
    let ?v1 = "set_variable Io_ctx_arg None w1"
    have a: "acquired ?L ?v0 ?v1" using acquired_set_variable [OF \<open>acquired ?L ?w0 w1\<close>] by simp
    then have v1: "fresh ?v1" "owns ?L ?v1" by (simp_all add: acquired_def)
    obtain r2 w2 where 2: "decode_frames lib initialized Conv_swr_ctx n ?v1 = (r2, w2)" by fastforce
    have u: "no_fault r2" "used ?L ?v1 w2"
      using decode_frames_used [where initialized = initialized and n = n and lib = lib, OF v1 _ assms(4)] 2 by simp_all
    obtain w3 where 3: "io_rest_destroy w2 = (Ret (), w3)" and
        w3: "live_objects w3 = live_objects ?v0" "variables w3 = variables ?v0"
      using released_after_use [OF io_rest_lifetime v0(3) a u(2)] by blast
    have "variables w3 Io_ctx_member = Some (Some u)" "live_objects w3 u = Some AvUrlIo"
      using w3 v0(1,2) assms(3) by simp_all
    note d = UrlIoContext_destroy_live [OF this, of lib]
    have "connected_decoder_life lib initialized cdc n w = ?d w3"
      using 1 2 3 Ret u(1)
      by (cases r2) (simp_all add: connected_decoder_life_def use_url_decoder_def new destroy with_member_def
          then_do_def return_def UrlIoContext_destroy_null [OF arg])
    with d w3 v0(1,2) show ?thesis by (cases "?d w3") auto
  next
    case (Throw e)
    with c 1 have l: "leaked {AvCodecContext} ?w0 w1" by simp
    then have "variables w1 = [Io_ctx_arg \<mapsto> None, Io_ctx_member \<mapsto> Some u]" "live_objects w1 u = Some AvUrlIo"
      using w0(1,2) assms(3) by (simp_all add: leaked_def)
    note w1 = this
    then have "variables w1 Io_ctx_member = Some (Some u)" by simp
    note d = UrlIoContext_destroy_live [OF this w1(2), of lib]
    have lost: "live_objects w1 i = live_objects w i \<or> live_objects w1 i = Some AvCodecContext" for i
      using leaked_one [OF l, of i] by (simp add: w0(1))
    obtain r2 w2 where 2: "?d w1 = (r2, w2)" by fastforce
    from d(1) 2 have "r2 = Fault Aborted \<or> r2 = Ret ()" by auto
    moreover have "live_objects w2 = (live_objects w1)(u := None)" "variables w2 = [Io_ctx_arg \<mapsto> None]"
      using d(2,3) 2 w1(1) by (simp_all add: fun_upd_twist)
    moreover from this(2) have "UrlIoContext_destroy lib Io_ctx_arg w2 = (Ret (), set_variable Io_ctx_arg None w2)"
      by (simp add: UrlIoContext_destroy_null)
    ultimately show ?thesis using 1 2 Throw lost
      by (auto simp: connected_decoder_life_def new with_member_def then_do_def return_def set_variable_def)
  next
    case (Fault b)
    with c 1 show ?thesis by simp
  qed
qed


text \<open>A library in which every call succeeds.\<close>

definition quiet_lib :: "unit av_lib" where
  "quiet_lib = \<lparr>av_strerror = \<lambda>_. True, av_get_bytes_per_sample = \<lambda>_. 2,
     avcodec_find_decoder = \<lambda>_ d. Some d, avcodec_alloc_context3 = Some, avcodec_open2 = Pair 0,
     avcodec_parameters_to_context = \<lambda>_. Pair 0, av_parser_init = \<lambda>_ d. Some d,
     avformat_open_input = Pair 0, avformat_find_stream_info = Pair 0, av_find_best_stream = Pair 0,
     avio_open2 = \<lambda>_ d. (0, Some d), av_duration = \<lambda>_. 0,
     av_read_frame = \<lambda>d. (AVERROR_EOF, \<lparr>pkt_size = 0, pkt_data = None, stream_index = 0\<rparr>, d),
     avcodec_send_packet = \<lambda>_. Pair 0,
     avcodec_receive_frame = \<lambda>d. (AVERROR_EOF, out_template (SampleConverter 16000), d),
     swr_alloc_set_opts = \<lambda>_ _ d. Some d, swr_init = Pair 0, swr_is_initialized = \<lambda>_. 1,
     swr_convert_frame = \<lambda>_ d. (0, out_template (SampleConverter 16000), d),
     av_parser_parse2 = \<lambda>_ d. (0, (0, None), d)\<rparr>"

lemma url_decoder_returns:
  "fst (url_decoder_life quiet_lib (\<lambda>_. 1) KUnknown 2 (start_world (\<lambda>_. 0))) = Ret ()"
  by code_simp


section \<open>The decoder for streams\<close>

abbreviation stream_members :: "member members" where
  "stream_members \<equiv> [(Packet_member, AvPacket), (Frame_member, AvFrame), (Out_frame_member, AvFrame),
     (Codec_ctx_member, AvCodecContext), (Parser_ctx_member, AvParser), (Conv_out_frame, AvFrame)]"

abbreviation all_stream_members :: "member members" where
  "all_stream_members \<equiv> stream_members @ [(Conv_swr_ctx, AvSwrContext)]"

definition decoder_members_new :: "'d av_lib \<Rightarrow> codec \<Rightarrow> member action" where
  "decoder_members_new lib cdc =
     with_member (with_member (with_member (with_member (with_member (Packet_new Packet_member)
       (Packet_destroy Packet_member) (Frame_new Frame_member))
       (then_do (Frame_destroy Frame_member) (Packet_destroy Packet_member)) (Frame_new Out_frame_member))
       (then_do (Frame_destroy Out_frame_member) (then_do (Frame_destroy Frame_member) (Packet_destroy Packet_member)))
         InputBuffer_new)
       (then_do return (then_do (Frame_destroy Out_frame_member)
         (then_do (Frame_destroy Frame_member) (Packet_destroy Packet_member))))
         (Parser_new lib cdc Codec_ctx_member Parser_ctx_member))
       (then_do (Parser_destroy Codec_ctx_member Parser_ctx_member) (then_do return (then_do (Frame_destroy Out_frame_member)
         (then_do (Frame_destroy Frame_member) (Packet_destroy Packet_member)))))
         (SampleConverter_new Conv_out_frame Conv_swr_ctx)"

definition decoder_members_destroy :: "member action" where
  "decoder_members_destroy =
     then_do (SampleConverter_destroy Conv_out_frame Conv_swr_ctx)
       (then_do (Parser_destroy Codec_ctx_member Parser_ctx_member)
         (then_do return
           (then_do (Frame_destroy Out_frame_member)
             (then_do (Frame_destroy Frame_member) (Packet_destroy Packet_member)))))"

definition decoder_tail :: "'d av_lib \<Rightarrow> member action" where
  "decoder_tail lib =
     with_member (FormatContext_new Fmt_ctx_member) (forget Fmt_ctx_member)
       (with_member (IoContext_new Avio_buf Avio_ctx) (IoContext_destroy Avio_buf Avio_ctx)
         (then_do (avformat_open_copy lib Fmt_ctx_member) (then_do (checked lib) (checked lib))))"

lemma asks_InputBuffer [asks_intros]: "asks InputBuffer_new"
  by (simp add: asks_def InputBuffer_new_def ask_def same_memory_def Let_def)

lemma decoder_members_lifetime:
  "lifetime (decoder_members_new lib cdc) decoder_members_destroy all_stream_members {} {AvCodecContext}"
proof -
  note 1 = two_members [OF packet.lifetime_axioms [of Packet_member] frame.lifetime_axioms [of Frame_member]]
  note 2 = two_members [OF 1 frame.lifetime_axioms [of Out_frame_member]]
  note 3 = two_members [OF 2 lifetime_asks [OF asks_InputBuffer]]
  note 4 = two_members [OF 3 parser_lifetime [of lib cdc]]
  note 5 = two_members [OF 4 converter_lifetime]
  show ?thesis using 5 by (simp add: decoder_members_new_def decoder_members_destroy_def)
qed

lemma Decoder_new_parts:
  "Decoder_new lib cdc = with_member (decoder_members_new lib cdc) decoder_members_destroy (decoder_tail lib)"
  unfolding Decoder_new_def decoder_tail_def [symmetric]
  by (simp only: with_member_nested then_do_assoc decoder_members_new_def decoder_members_destroy_def)

lemma Decoder_destroy_parts:
  "Decoder_destroy = then_do (IoContext_destroy Avio_buf Avio_ctx)
     (then_do (forget Fmt_ctx_member) decoder_members_destroy)"
  by (simp add: Decoder_destroy_def decoder_members_destroy_def)

definition opened_tail :: "member world \<Rightarrow> member world \<Rightarrow> bool" where
  "opened_tail w w' \<longleftrightarrow> fresh w' \<and>
     variables w' = (variables w)(Fmt_ctx_member \<mapsto> Some (next_object w), Avio_buf \<mapsto> Some (Suc (next_object w)),
       Avio_ctx \<mapsto> Some (Suc (Suc (next_object w)))) \<and>
     live_objects w' = (live_objects w)(next_object w \<mapsto> AvFormatContext, Suc (next_object w) \<mapsto> AvBuffer,
       Suc (Suc (next_object w)) \<mapsto> AvIoContext)"

lemma decoder_tail_outcome:
  assumes "fresh w" "variables w Fmt_ctx_member = None" "variables w Avio_buf = None" "variables w Avio_ctx = None"
  shows "case decoder_tail lib w of (Ret _, w') \<Rightarrow> opened_tail w w'
    | (Throw _, w') \<Rightarrow> leaked {AvFormatContext, AvBuffer} w w' | _ \<Rightarrow> False"
proof -
  let ?f = "next_object w"
  have "live_objects w ?f = None" "live_objects w (Suc ?f) = None" "live_objects w (Suc (Suc ?f)) = None"
    using assms(1) by (simp_all add: fresh_def)
  with assms show ?thesis
    by (simp add: decoder_tail_def with_member_def then_do_def FormatContext_new_def construct_def world_ops Let_def
        IoContext_new_def without_object_def avformat_open_copy_def release_def checked_def CallRet_def CallRet2_def
        IoContext_destroy_def destruct_def forget_def)
      (auto simp: opened_tail_def leaked_def fresh_def fun_upd_twist fun_upd_idem)
qed

text \<open>What is left when the members that were opened last are destroyed, and then the others.\<close>

lemma tail_destroyed:
  assumes "variables w Avio_buf = Some (Some b)" "variables w Avio_ctx = Some (Some c)" "b \<noteq> c"
    and "live_objects w b = Some AvBuffer" "live_objects w c = Some AvIoContext"
  shows "then_do (IoContext_destroy Avio_buf Avio_ctx) (then_do (forget Fmt_ctx_member) d) w =
    d (w\<lparr>live_objects := (live_objects w)(b := None, c := None),
         variables := (variables w)(Avio_buf := None, Avio_ctx := None, Fmt_ctx_member := None)\<rparr>)"
  using assms
  by (simp add: then_do_def IoContext_destroy_def destruct_def release_def world_ops forget_def Let_def)

lemma destroyed_after_use:
  assumes l: "lifetime ctr d L T K" and apart: "member_names L \<inter> {Fmt_ctx_member, Avio_buf, Avio_ctx} = {}"
    and w: "fresh w" "variables w = (\<lambda>_. None)" and a: "acquired L w w1"
    and t: "opened_tail w1 w2" and u: "used L w2 w3"
  shows "\<exists>w4. then_do (IoContext_destroy Avio_buf Avio_ctx) (then_do (forget Fmt_ctx_member) d) w3 = (Ret (), w4) \<and> variables w4 = (\<lambda>_. None) \<and>
    live_objects w4 = (live_objects w)(next_object w1 \<mapsto> AvFormatContext)"
proof -
  have other: "x \<noteq> Fmt_ctx_member \<and> x \<noteq> Avio_buf \<and> x \<noteq> Avio_ctx" if "x \<in> member_names L" for x
    using apart that by blast
  let ?f = "next_object w1"
  let ?b = "Suc ?f" and ?c = "Suc (Suc ?f)"
  note u3 = used_facts [OF u]
  have w1: "fresh w1" "owns L w1" using a by (simp_all add: acquired_def)
  have free: "live_objects w1 i = None" if "?f \<le> i" for i
    using w1(1) that by (simp add: fresh_def)
  have w2: "live_objects w2 = (live_objects w1)(?f \<mapsto> AvFormatContext, ?b \<mapsto> AvBuffer, ?c \<mapsto> AvIoContext)"
      "variables w2 = (variables w1)(Fmt_ctx_member \<mapsto> Some ?f, Avio_buf \<mapsto> Some ?b, Avio_ctx \<mapsto> Some ?c)"
    using t by (simp_all add: opened_tail_def)
  have obj2: "objects L w2 = objects L w1" by (rule objects_cong) (simp add: w2(2) other)
  have not1: "i \<notin> ids L w1" if "?f \<le> i" for i
    using owns_live [OF w1(2)] free [OF that] by blast
  have not3: "i \<notin> ids L w3" if "i \<in> {?f, ?b, ?c}" for i
  proof -
    have "?f \<le> i" "live_objects w2 i \<noteq> None" using that by (auto simp: w2(1))
    with not1 [of i] u3(5) [of i] show ?thesis unfolding obj2 by metis
  qed
  have live3: "live_objects w3 i = live_objects w2 i" if "i \<notin> ids L w3" for i
    by (rule u3(4) [OF that])
  let ?w = "w3\<lparr>live_objects := (live_objects w3)(?b := None, ?c := None),
      variables := (variables w3)(Avio_buf := None, Avio_ctx := None, Fmt_ctx_member := None)\<rparr>"
  have var3: "variables w3 Avio_buf = Some (Some ?b)" "variables w3 Avio_ctx = Some (Some ?c)"
      "variables w3 Fmt_ctx_member = Some (Some ?f)"
    using u3(3) apart by (simp_all add: w2(2))
  have step: "then_do (IoContext_destroy Avio_buf Avio_ctx) (then_do (forget Fmt_ctx_member) d) w3 = d ?w"
    by (rule tail_destroyed) (simp_all add: var3 live3 not3 w2(1))
  have obj: "objects L ?w = objects L w3" by (rule objects_cong) (simp add: other)
  have "owns L ?w \<longleftrightarrow> owns L w3"
  proof (rule owns_cong)
    fix i
    assume "i \<in> ids L w3"
    then have "i \<noteq> ?b" "i \<noteq> ?c" using not3 by blast+
    then show "live_objects ?w i = live_objects w3 i" by simp
  qed (simp add: other)
  moreover have "fresh ?w" using u3(1) by (simp add: fresh_def)
  ultimately obtain w4 where d: "d ?w = (Ret (), w4)" and r: "released L ?w w4"
    using lifetime.dtor [OF l] u3(2) by blast
  have "variables w4 x = None" for x
  proof (cases "x \<in> member_names L")
    case True
    moreover have "undeclared L w4" using r by (simp add: released_def)
    ultimately show ?thesis unfolding undeclared_def by metis
  next
    case False
    then have "variables w4 x = variables ?w x" "variables w1 x = None"
      using r a w(2) by (simp_all add: released_def acquired_def others_kept_def)
    then show ?thesis using u3(3) [OF False] by (simp add: w2(2) split: if_splits)
  qed
  moreover have "live_objects w4 i = ((live_objects w)(?f \<mapsto> AvFormatContext)) i" for i
  proof -
    have 4: "live_objects w4 i = (if i \<in> ids L w3 then None else live_objects ?w i)"
      using r unfolding released_def obj by blast
    have 1: "if i \<in> ids L w1 then live_objects w i = None else live_objects w1 i = live_objects w i"
      using a unfolding acquired_def by blast
    consider "i = ?f" | "i \<in> {?b, ?c}" | "i \<notin> {?f, ?b, ?c}" by blast
    then show ?thesis
    proof cases
      case 1
      then show ?thesis using 4 not3 [of ?f] live3 [of ?f] by (simp add: w2(1))
    next
      case 2
      then show ?thesis using 4 1 not3 [of i] not1 [of i] free [of i] by auto
    next
      case 3
      then have "live_objects w2 i = live_objects w1 i" by (simp add: w2(1))
      with 3 1 4 live3 u3(5,6) [of i] show ?thesis unfolding obj2
        by (cases "i \<in> ids L w3"; cases "i \<in> ids L w1") simp_all
    qed
  qed
  ultimately have "variables w4 = (\<lambda>_. None)" "live_objects w4 = (live_objects w)(?f \<mapsto> AvFormatContext)"
    by blast+
  with step d show ?thesis by (intro exI [of _ w4]) simp
qed

lemma owns_opened:
  assumes "fresh w1" "owns L w1" "opened_tail w1 w2"
    and apart: "member_names L \<inter> {Fmt_ctx_member, Avio_buf, Avio_ctx} = {}"
  shows "owns L w2"
proof -
  have other: "x \<noteq> Fmt_ctx_member \<and> x \<noteq> Avio_buf \<and> x \<noteq> Avio_ctx" if "x \<in> member_names L" for x
    using apart that by blast
  have "live_objects w2 i = live_objects w1 i" if "i \<in> ids L w1" for i
  proof -
    have "i < next_object w1"
      using owns_live [OF assms(2) that] assms(1) by (meson fresh_def leI)
    then show ?thesis using assms(3) by (simp add: opened_tail_def)
  qed
  moreover have "variables w2 x = variables w1 x" if "x \<in> member_names L" for x
    using other [OF that] assms(3) by (simp add: opened_tail_def)
  ultimately show ?thesis using owns_cong [of L w2 w1] assms(2) by blast
qed

lemma acquired_free:
  assumes "acquired L w w1"
  shows "live_objects w (next_object w1) = None"
proof -
  have "live_objects w1 (next_object w1) = None" using assms by (simp add: acquired_def fresh_def)
  then show ?thesis using assms unfolding acquired_def by metis
qed

definition stream_decoder_life :: "'d av_lib \<Rightarrow> (nat \<Rightarrow> int) \<Rightarrow> codec \<Rightarrow> nat \<Rightarrow> member action" where
  "stream_decoder_life lib initialized cdc n =
     then_do (Decoder_new lib cdc)
       (\<lambda>w. case decode_frames lib initialized Conv_swr_ctx n w of
           (Fault b, w1) \<Rightarrow> (Fault b, w1)
         | (_, w1) \<Rightarrow> Decoder_destroy w1)"

text \<open>
  C17. The decoder for bytes in memory and for files never frees an object twice and never crashes in
  a constructor or destructor, but every decoder that was made leaves exactly one object behind, its
  format context: the deleter of the \<open>unique_ptr\<close> that holds it does nothing. A constructor that
  throws loses at most a codec context that could not be opened, the format context and the buffer.
\<close>

theorem stream_decoder_memory:
  assumes "fresh w" "variables w = (\<lambda>_. None)" "\<And>i. 0 < initialized i"
  shows "case stream_decoder_life lib initialized cdc n w of
      (Ret _, w') \<Rightarrow> variables w' = (\<lambda>_. None) \<and>
        (\<exists>i. live_objects w i = None \<and> live_objects w' = (live_objects w)(i \<mapsto> AvFormatContext))
    | (Throw _, w') \<Rightarrow> leaked {AvCodecContext, AvFormatContext, AvBuffer} w w'
    | (Fault b, _) \<Rightarrow> False"
proof -
  let ?L = all_stream_members
  have free: "free_names ?L {} w" using assms(2) by (simp add: free_names_def undeclared_def)
  note c = lifetime.ctor [OF decoder_members_lifetime assms(1) free, of lib cdc]
  obtain r w1 where 1: "decoder_members_new lib cdc w = (r, w1)" by fastforce
  show ?thesis
  proof (cases r)
    case (Ret x)
    with c 1 have a: "acquired ?L w w1" by simp
    then have w1: "fresh w1" "owns ?L w1" and kept: "others_kept ?L w w1" by (simp_all add: acquired_def)
    have "variables w1 Fmt_ctx_member = None" "variables w1 Avio_buf = None" "variables w1 Avio_ctx = None"
      using kept assms(2) by (simp_all add: others_kept_def)
    note t = decoder_tail_outcome [OF w1(1) this, of lib]
    obtain r2 w2 where 2: "decoder_tail lib w1 = (r2, w2)" by fastforce
    show ?thesis
    proof (cases r2)
      case tail: (Ret y)
      with t 2 have op: "opened_tail w1 w2" by simp
      have w2: "fresh w2" "owns ?L w2"
        using op by (simp add: opened_tail_def, intro owns_opened [OF w1 op]) simp
      obtain r3 w3 where 3: "decode_frames lib initialized Conv_swr_ctx n w2 = (r3, w3)" by fastforce
      have u: "no_fault r3" "used ?L w2 w3"
        using decode_frames_used [where initialized = initialized and n = n and lib = lib, OF w2 _ assms(3)] 3 by simp_all
      obtain w4 where 4: "Decoder_destroy w3 = (Ret (), w4)" "variables w4 = (\<lambda>_. None)"
          "live_objects w4 = (live_objects w)(next_object w1 \<mapsto> AvFormatContext)"
        using destroyed_after_use [OF decoder_members_lifetime _ assms(1,2) a op u(2)]
        by (auto simp: Decoder_destroy_parts)
      have "live_objects w (next_object w1) = None"
        using acquired_free [OF a] .
      moreover have "stream_decoder_life lib initialized cdc n w = (Ret (), w4)"
        using 1 2 3 4(1) Ret tail u(1)
        by (cases r3) (simp_all add: stream_decoder_life_def Decoder_new_parts with_member_def then_do_def)
      ultimately show ?thesis using 4 by auto
    next
      case (Throw e)
      with t 2 have l: "leaked {AvFormatContext, AvBuffer} w1 w2" by simp
      obtain w3 where "decoder_members_destroy w2 = (Ret (), w3)" "leaked {AvFormatContext, AvBuffer} w w3"
        using lifetime.released_after_leak [OF decoder_members_lifetime _ a l] free
        unfolding free_names_def by blast
      with 1 2 Ret Throw leaked_mono [of "{AvFormatContext, AvBuffer}" w w3 "{AvCodecContext, AvFormatContext, AvBuffer}"]
      show ?thesis
        by (simp add: stream_decoder_life_def Decoder_new_parts with_member_def then_do_def)
    next
      case (Fault b)
      with t 2 show ?thesis by simp
    qed
  next
    case (Throw e)
    with c 1 have "leaked {AvCodecContext} w w1" by simp
    with 1 Throw leaked_mono [of "{AvCodecContext}" w w1 "{AvCodecContext, AvFormatContext, AvBuffer}"]
    show ?thesis by (simp add: stream_decoder_life_def Decoder_new_parts with_member_def then_do_def)
  next
    case (Fault b)
    with c 1 show ?thesis by simp
  qed
qed

lemma stream_decoder_returns:
  "fst (stream_decoder_life quiet_lib (\<lambda>_. 1) KMp3 2 (start_world (\<lambda>_. 0))) = Ret ()"
  by code_simp

theorem stream_decoder_memory_witness:
  "\<exists>i. live_objects (snd (stream_decoder_life quiet_lib (\<lambda>_. 1) KMp3 2 (start_world (\<lambda>_. 0)))) = [i \<mapsto> AvFormatContext]"
proof -
  have "fresh (start_world (\<lambda>_. 0))" "variables (start_world (\<lambda>_. 0)) = (\<lambda>_. None)"
    by (simp_all add: start_world_def fresh_def)
  from stream_decoder_memory [OF this, of "\<lambda>_. 1" quiet_lib KMp3 2] stream_decoder_returns
  show ?thesis by (auto simp: start_world_def split: prod.splits)
qed

end
