(* ===== verification/Programs.thy ===== *)
theory Programs
  imports Kaldi_Model Server Log_Levels Client
begin

text \<open>
  The \<open>main\<close> functions of \<open>src/bin\<close>: the server, the punctuator and the preparation of the lexicon
  transducer. Kaldi's parser of command lines is the parameter \<open>parse\<close>: it gives the settings in
  their order and the arguments that are no options, or ends the program after \<open>--help\<close>.
\<close>

section \<open>Command lines\<close>

datatype command_line = Help_requested | Settings "(string \<times> opt_value) list" "string list"

text \<open>Settings that the table of options does not accept throw.\<close>

definition read_options ::
    "'c opt list \<Rightarrow> (string list \<Rightarrow> command_line outcome) \<Rightarrow> string list \<Rightarrow> 'c \<Rightarrow> ('c \<times> string list) option outcome" where
  "read_options table parse argv c =
     obind (parse argv) (\<lambda>line.
     case line of
       Help_requested \<Rightarrow> Ret None
     | Settings settings args \<Rightarrow>
         (case apply_settings table settings c of
            None \<Rightarrow> Throw (Runtime_error ''Invalid option'')
          | Some c' \<Rightarrow> Ret (Some (c', args))))"

text \<open>\<open>TIRO_SPEECH_FATAL\<close> in the handler aborts; \<open>TIRO_SPEECH_ERROR\<close> only logs.\<close>

fun fatal :: "'a outcome \<Rightarrow> 'a outcome" where
  "fatal (Throw e) = Fault Aborted"
| "fatal r = r"

section \<open>The server\<close>

record 'k main_options =
  main_log_level :: string
  help_kaldi_model :: bool
  main_server :: "'k server_options"

definition Main_Register :: "'k opt list \<Rightarrow> 'k main_options opt list" where
  [opt_defs]: "Main_Register dec =
     [str_opt ''log-level'' main_log_level main_log_level_update,
      bool_opt ''help-kaldi-model'' help_kaldi_model help_kaldi_model_update]
     @ map (field_opt main_server main_server_update) (Server_Register dec)"

definition main_defaults :: "'k \<Rightarrow> 'k main_options" where
  "main_defaults k = \<lparr>main_log_level = ''INFO'', help_kaldi_model = False, main_server = server_option_defaults k\<rparr>"

record ('m, 'r) server_env =
  sm_parse :: "string list \<Rightarrow> command_line outcome"
  sm_files :: "string \<Rightarrow> string option"
  sm_Read :: "string \<Rightarrow> 'm outcome"
  sm_language :: "'m \<Rightarrow> string"
  sm_entries :: "'m model_map \<Rightarrow> (model_id \<times> 'm) list"
  sm_build :: "string \<Rightarrow> credentials \<Rightarrow> 'm service list \<Rightarrow> 'r option"
  sm_wait :: "'r \<Rightarrow> 'r"

text \<open>The result is the exit code and the server that was started, if one was.\<close>

definition run_server ::
    "('m, 'r) server_env \<Rightarrow> 'k server_options \<Rightarrow> (exit_code \<times> ('k, 'm, 'r) speech_server option) outcome" where
  "run_server env opts =
     obind (SpeechServerInfo (sm_files env) (sm_Read env) (sm_language env) opts) (\<lambda>info.
     obind (Start (sm_entries env) (sm_build env) (SpeechServer (sm_entries env) info)) (\<lambda>s.
     omap (\<lambda>s'. (EXIT_SUCCESS, Some s')) (Wait (sm_wait env) s)))"

definition server_main ::
    "('m, 'r) server_env \<Rightarrow> 'k opt list \<Rightarrow> 'k \<Rightarrow> log_state \<Rightarrow> string list \<Rightarrow>
     (exit_code \<times> ('k, 'm, 'r) speech_server option) outcome" where
  "server_main env dec k logs argv =
     fatal (obind (read_options (Main_Register dec) (sm_parse env) argv (main_defaults k)) (\<lambda>r.
     case r of
       None \<Rightarrow> Ret (EXIT_SUCCESS, None)
     | Some (opts, args) \<Rightarrow>
         if args \<noteq> [] then Ret (EXIT_FAILURE, None)
         else obind (SetLogLevel_string (main_log_level opts) logs) (\<lambda>_.
           if help_kaldi_model opts then Ret (EXIT_SUCCESS, None)
           else run_server env (main_server opts))))"

section \<open>The punctuator\<close>

record punctuate_options =
  do_capitalize :: bool
  punctuator_opts :: punctuator_config

definition Punctuate_Main_Register :: "punctuate_options opt list" where
  [opt_defs]: "Punctuate_Main_Register =
     [bool_opt ''capitalize'' do_capitalize do_capitalize_update]
     @ map (field_opt punctuator_opts punctuator_opts_update) Punctuator_Register"

text \<open>What was written to the standard output stays there when a later line throws.\<close>

fun punctuate_lines ::
    "icu \<Rightarrow> punctuator \<Rightarrow> bool \<Rightarrow> string list \<Rightarrow> string \<Rightarrow> string \<times> unit outcome" where
  "punctuate_lines icu p capitalize [] out = (out, Ret ())"
| "punctuate_lines icu p capitalize (line # lines) out =
     (let ws = Split line (CHR '' '') in
      if ws = [] \<or> hd ws = [] then punctuate_lines icu p capitalize lines out
      else case Punctuate icu p ws capitalize of
          Ret punctuated \<Rightarrow>
            punctuate_lines icu p capitalize lines (out @ Join punctuated '' '' @ newline)
        | Throw e \<Rightarrow> (out, Throw e)
        | Fault b \<Rightarrow> (out, Fault b))"

fun catch_error :: "exit_code outcome \<Rightarrow> exit_code outcome" where
  "catch_error (Throw e) = Ret EXIT_FAILURE"
| "catch_error r = r"

definition punctuate_try ::
    "('k, 'a, 'x, 't) loader \<Rightarrow> string \<Rightarrow> icu \<Rightarrow> (string list \<Rightarrow> command_line outcome) \<Rightarrow> string list \<Rightarrow> string \<Rightarrow>
     string \<times> exit_code outcome" where
  "punctuate_try ld cwd icu parse argv input =
     (case read_options Punctuate_Main_Register parse argv
         \<lparr>do_capitalize = False, punctuator_opts = punctuator_defaults\<rparr> of
        Throw e \<Rightarrow> ([], Throw e)
      | Fault b \<Rightarrow> ([], Fault b)
      | Ret None \<Rightarrow> ([], Ret EXIT_SUCCESS)
      | Ret (Some (opts, args)) \<Rightarrow>
          if args \<noteq> [] then ([], Ret EXIT_FAILURE)
          else if pytorch_jit_model_filename (punctuator_opts opts) = [] \<or>
                  vocab_filename (word_piece_opts (punctuator_opts opts)) = [] then ([], Ret EXIT_FAILURE)
          else case ElectraPunctuator ld cwd (punctuator_opts opts) of
              Throw e \<Rightarrow> ([], Throw e)
            | Fault b \<Rightarrow> ([], Fault b)
            | Ret p \<Rightarrow>
                let (out, r) = punctuate_lines icu p (do_capitalize opts) (getlines input) []
                in (out, omap (\<lambda>_. EXIT_SUCCESS) r))"

definition punctuate_main ::
    "('k, 'a, 'x, 't) loader \<Rightarrow> string \<Rightarrow> icu \<Rightarrow> (string list \<Rightarrow> command_line outcome) \<Rightarrow> string list \<Rightarrow> string \<Rightarrow>
     string \<times> exit_code outcome" where
  "punctuate_main ld cwd icu parse argv input =
     (let (out, r) = punctuate_try ld cwd icu parse argv input in (out, catch_error r))"

section \<open>The lexicon\<close>

record 't lexicon_env =
  lx_parse :: "string list \<Rightarrow> command_line outcome"
  lx_StdFst_Read :: "string \<Rightarrow> 't vector_fst option"
  lx_ReadText :: "string \<Rightarrow> string list option"
  lx_Write :: "string \<Rightarrow> 't vector_fst \<Rightarrow> bool"

text \<open>
  A symbol table is the list of its symbols; a table that cannot be read is a null pointer. The
  result is the exit code and the file written.
\<close>

definition lexicon_main ::
    "'t fst_ops \<Rightarrow> 't lexicon_env \<Rightarrow> log_state \<Rightarrow> string list \<Rightarrow>
     (exit_code \<times> (string \<times> 't vector_fst) option) outcome" where
  "lexicon_main ops env logs argv =
     fatal (obind (read_options [str_opt ''log-level'' id (\<lambda>f. f)] (lx_parse env) argv ''INFO'') (\<lambda>r.
     case r of
       None \<Rightarrow> Ret (EXIT_SUCCESS, None)
     | Some (level, args) \<Rightarrow>
         if length args \<noteq> 3 then Ret (EXIT_FAILURE, None)
         else obind (SetLogLevel_string level logs) (\<lambda>_.
           let byte_rewrite_fst = lx_StdFst_Read env (args ! 1) in
           case lx_ReadText env (args ! 0) of
             None \<Rightarrow> Fault Null_dereference
           | Some symbol_table \<Rightarrow>
               if \<not> list_ex (\<lambda>s. s = ''<space>'') symbol_table then Fault Aborted
               else obind (CreateLexiconFst ops symbol_table default_filter) (\<lambda>lexicon_fst.
                 if \<not> lx_Write env (args ! 2) lexicon_fst then Fault Aborted
                 else Ret (EXIT_SUCCESS, Some (args ! 2, lexicon_fst))))))"

section \<open>What the punctuator prints\<close>

lemma first_piece_empty: "hd (Split line c) = [] \<longleftrightarrow> line = [] \<or> hd line = c"
proof (cases "c \<in> set line")
  case True
  then obtain w t where "line = w @ c # t" "c \<notin> set w" by (meson split_list_first)
  then show ?thesis using Split_sep [of c w t] by (cases w) auto
next
  case False
  then show ?thesis by (cases line) (auto simp: Split_no_sep)
qed

definition punctuated :: "icu \<Rightarrow> punctuator \<Rightarrow> bool \<Rightarrow> string list \<Rightarrow> string list" where
  "punctuated icu p capitalize ws =
     map (\<lambda>i. (if capitalize \<and> 0 < i \<and> ends_sentence (predicted p ws ! (i - 1))
             then Capitalize icu (ws ! i) else ws ! i) @ mark (predicted p ws ! i)) [0..<length ws]"

definition printed_line :: "icu \<Rightarrow> punctuator \<Rightarrow> bool \<Rightarrow> string \<Rightarrow> string" where
  "printed_line icu p capitalize line = Join (punctuated icu p capitalize (Split line (CHR '' ''))) '' '' @ newline"

definition plain_line :: "punctuator \<Rightarrow> string \<Rightarrow> bool" where
  "plain_line p line \<longleftrightarrow> (\<forall>w \<in> set (Split line (CHR '' '')). w \<noteq> [] \<and> \<not> IsSubword w) \<and>
     (\<forall>c \<in> set (predicted p (Split line (CHR '' ''))). int32_range c)"

definition skipped :: "string \<Rightarrow> bool" where
  "skipped line \<longleftrightarrow> line = [] \<or> hd line = CHR '' ''"

lemma skipped_iff: "hd (Split line (CHR '' '')) = [] \<longleftrightarrow> skipped line"
  by (simp add: first_piece_empty skipped_def)

lemma punctuate_lines_plain:
  assumes "well_formed p" "\<not> IsSubword (unk_token (punct_tokenizer p))"
  shows "\<forall>line \<in> set lines. skipped line \<or> plain_line p line \<Longrightarrow>
    punctuate_lines icu p capitalize lines out =
      (out @ concat (map (printed_line icu p capitalize) (filter (\<lambda>l. \<not> skipped l) lines)), Ret ())"
proof (induction lines arbitrary: out)
  case (Cons line lines)
  show ?case
  proof (cases "skipped line")
    case True
    then show ?thesis using Cons by (simp add: skipped_iff)
  next
    case False
    with Cons.prems have plain: "plain_line p line" by simp
    have "Punctuate icu p (Split line (CHR '' '')) capitalize =
        Ret (punctuated icu p capitalize (Split line (CHR '' '')))"
      unfolding punctuated_def
      by (rule Punctuate_marks [OF assms]) (use plain in \<open>simp_all add: plain_line_def\<close>)
    with False Cons show ?thesis by (simp add: skipped_iff printed_line_def)
  qed
qed simp

text \<open>
  C34. The punctuator program ends well and prints, for every line of its input that is not empty and
  does not start with a space, the line with the predicted marks appended to its words and the
  capitals asked for, when the words of the lines are separated by single spaces and none of them
  looks like a continuation piece.
\<close>

theorem punctuate_main_lines:
  assumes "read_options Punctuate_Main_Register parse argv
      \<lparr>do_capitalize = False, punctuator_opts = punctuator_defaults\<rparr> = Ret (Some (opts, []))"
    and "pytorch_jit_model_filename (punctuator_opts opts) \<noteq> []"
      "vocab_filename (word_piece_opts (punctuator_opts opts)) \<noteq> []"
    and "ElectraPunctuator ld cwd (punctuator_opts opts) = Ret p"
    and "well_formed p" "\<not> IsSubword (unk_token (punct_tokenizer p))"
    and "\<forall>line \<in> set (getlines input). skipped line \<or> plain_line p line"
  shows "punctuate_main ld cwd icu parse argv input =
    (concat (map (printed_line icu p (do_capitalize opts)) (filter (\<lambda>l. \<not> skipped l) (getlines input))),
     Ret EXIT_SUCCESS)"
  using assms punctuate_lines_plain [OF assms(5,6,7), of icu "do_capitalize opts" "[]"]
  by (simp add: punctuate_main_def punctuate_try_def)

text \<open>A network that predicts a full stop everywhere, and a vocabulary of three pieces.\<close>

definition three_pieces :: string where
  "three_pieces = Join [''[UNK]'', ''sem'', ''sott''] newline"

definition stop_input :: string where
  "stop_input = ''sem sott'' @ newline @ newline @ '' x''"

definition stop_loader :: "(unit, unit, unit, unit) loader" where
  "stop_loader = empty_loader\<lparr>jit_load := \<lambda>_ _. Ret (map (\<lambda>_. 2)),
     open_file := \<lambda>_ _. Some three_pieces\<rparr>"

definition stop_options :: punctuate_options where
  "stop_options = \<lparr>do_capitalize = False, punctuator_opts = punctuator_defaults
     \<lparr>pytorch_jit_model_filename := ''m'', word_piece_opts := word_piece_defaults\<lparr>vocab_filename := ''v''\<rparr>\<rparr>\<rparr>"

definition stop_punctuator :: punctuator where
  "stop_punctuator = \<lparr>forward = map (\<lambda>_. 2), punct_tokenizer =
     foldl add_line \<lparr>unk_token = ''[UNK]'', max_input_chars_per_word = 100, vocab = [], vocab_map = Map.empty\<rparr>
       [''[UNK]'', ''sem'', ''sott''], cls_token_id = 2, sep_token_id = 0\<rparr>"

lemma stop_loaded: "ElectraPunctuator stop_loader [] (punctuator_opts stop_options) = Ret stop_punctuator"
proof -
  have "getlines three_pieces = [''[UNK]'', ''sem'', ''sott'']" by code_simp
  then show ?thesis
    by (simp add: ElectraPunctuator_def stop_loader_def stop_options_def WordPieceTokenizer_def stop_punctuator_def
        punctuator_defaults_def word_piece_defaults_def)
qed

theorem punctuate_main_lines_witness:
  "punctuate_main stop_loader [] ascii_icu
     (\<lambda>_. Ret (Settings [(''pytorch-jit-model'', Str_value ''m''), (''word-piece.vocab'', Str_value ''v'')] []))
     [] stop_input = (''sem. sott.'' @ newline, Ret EXIT_SUCCESS)"
proof -
  let ?parse = "\<lambda>_. Ret (Settings [(''pytorch-jit-model'', Str_value ''m''), (''word-piece.vocab'', Str_value ''v'')] [])"
  have read: "read_options Punctuate_Main_Register ?parse []
      \<lparr>do_capitalize = False, punctuator_opts = punctuator_defaults\<rparr> = Ret (Some (stop_options, []))"
    by (simp add: read_options_def find_opt_def opt_defs comp_def stop_options_def punctuator_defaults_def)
  have lines: "getlines stop_input = [''sem sott'', [], '' x'']" by code_simp
  have unk: "unk_token (punct_tokenizer stop_punctuator) = ''[UNK]''" by code_simp
  have vocab: "vocab_map (punct_tokenizer stop_punctuator) ''[UNK]'' = Some 0" by code_simp
  have wf: "well_formed stop_punctuator"
    using unk vocab by (auto simp: well_formed_def stop_punctuator_def)
  have split: "Split ''sem sott'' (CHR '' '') = [''sem'', ''sott'']" by code_simp
  have pred: "predicted stop_punctuator [''sem'', ''sott''] = [2, 2]" by code_simp
  have plain: "plain_line stop_punctuator ''sem sott''"
    by (simp add: plain_line_def split pred int32_range_def IsSubword_def substr_def)
  have "punctuate_main stop_loader [] ascii_icu ?parse [] stop_input =
      (concat (map (printed_line ascii_icu stop_punctuator (do_capitalize stop_options))
         (filter (\<lambda>l. \<not> skipped l) (getlines stop_input))), Ret EXIT_SUCCESS)"
    by (rule punctuate_main_lines [OF read _ _ stop_loaded wf])
      (use plain in \<open>auto simp: stop_options_def unk lines skipped_def IsSubword_def substr_def\<close>)
  moreover have "printed_line ascii_icu stop_punctuator (do_capitalize stop_options) ''sem sott'' = ''sem. sott.'' @ newline"
    by (simp add: printed_line_def punctuated_def split pred mark_def stop_options_def)
  ultimately show ?thesis unfolding lines by (simp add: skipped_def)
qed

section \<open>What the server serves\<close>

lemma main_table:
  assumes "option_table dec"
  shows "option_table (Main_Register dec)"
proof -
  let ?own = "[str_opt ''log-level'' main_log_level main_log_level_update,
      bool_opt ''help-kaldi-model'' help_kaldi_model help_kaldi_model_update]"
  let ?server = "map (field_opt main_server main_server_update) (Server_Register dec)"
  have "option_table ?own" by unfold_locales (auto simp: opt_defs split: opt_value.splits)
  moreover have "option_table ?server" by (intro option_table_part server_table assms) simp
  moreover have "opt_name ` set ?own \<inter> opt_name ` set ?server = {}"
    by (auto simp: opt_defs)
  moreover have "undisturbed ?own ?server" "undisturbed ?server ?own"
    by (auto simp: undisturbed_def str_opt_def bool_opt_def field_opt_def split: opt_value.splits)
  ultimately show ?thesis unfolding Main_Register_def by (rule option_table_append)
qed

text \<open>The string an option has after the settings of a command line.\<close>

definition setting :: "(string \<times> opt_value) list \<Rightarrow> string \<Rightarrow> string \<Rightarrow> string" where
  "setting settings name unset =
     (case map_of (rev settings) name of Some (Str_value v) \<Rightarrow> v | _ \<Rightarrow> unset)"

lemma main_settings:
  assumes "option_table dec" "apply_settings (Main_Register dec) settings (main_defaults k) = Some opts"
  shows "listen_address (main_server opts) = setting settings ''listen-address'' ''0.0.0.0:50051''"
    and "kaldi_models (main_server opts) = setting settings ''kaldi-models'' []"
proof -
  let ?listen = "field_opt main_server main_server_update (str_opt ''listen-address'' listen_address listen_address_update)"
  let ?models = "field_opt main_server main_server_update (str_opt ''kaldi-models'' kaldi_models kaldi_models_update)"
  have "?listen \<in> set (Main_Register dec)" "?models \<in> set (Main_Register dec)"
    by (simp_all add: Main_Register_def Server_Register_def)
  note last = option_table.last_setting_wins [OF main_table [OF assms(1)] assms(2) this(1)]
    option_table.last_setting_wins [OF main_table [OF assms(1)] assms(2) this(2)]
  show "listen_address (main_server opts) = setting settings ''listen-address'' ''0.0.0.0:50051''"
    using last(1) by (auto simp: setting_def field_opt_def str_opt_def main_defaults_def server_option_defaults_def
        split: option.splits)
  show "kaldi_models (main_server opts) = setting settings ''kaldi-models'' []"
    using last(2) by (auto simp: setting_def field_opt_def str_opt_def main_defaults_def server_option_defaults_def
        split: option.splits)
qed

text \<open>
  C31. When the server program ends with a result, it has served: under every language the first model
  of that language in the directories of the last \<open>--kaldi-models\<close> on the command line, with Google's
  API in front of the same service, and it was built on the address of the last \<open>--listen-address\<close>,
  or on the default one. It never ends with a failure code when it started a server.
\<close>

theorem server_main_serves:
  assumes "option_table dec" "sm_parse env argv = Ret (Settings settings [])"
    and "\<And>ms. (if setting settings ''kaldi-models'' [] = [] then ms = []
        else otraverse (sm_Read env) (Split (setting settings ''kaldi-models'' []) (CHR '','')) = Ret ms) \<Longrightarrow>
      entries_of (sm_entries env) (map_of (map (\<lambda>m. (generic_id (sm_language env m), m)) ms))"
    and "server_main env dec k logs argv = Ret (ecode, Some s)"
  shows "ecode = EXIT_SUCCESS \<and>
    (\<exists>v ms creds r. services s = [Google_cloud_proxy 1, Speech_service v] \<and>
      (if setting settings ''kaldi-models'' [] = [] then ms = []
       else otraverse (sm_Read env) (Split (setting settings ''kaldi-models'' []) (CHR '','')) = Ret ms) \<and>
      service_models v = map_of (map (\<lambda>m. (generic_id (sm_language env m), m)) ms) \<and>
      sm_build env (setting settings ''listen-address'' ''0.0.0.0:50051'') creds (services s) = Some r \<and>
      rpc_server s = Some (sm_wait env r))"
proof -
  have fatal_Ret: "fatal m = Ret x \<longleftrightarrow> m = Ret x" for m :: "'z outcome" and x by (cases m) auto
  obtain opts where opts: "apply_settings (Main_Register dec) settings (main_defaults k) = Some opts"
    and run: "run_server env (main_server opts) = Ret (ecode, Some s)"
    using assms(2,4) by (auto simp: server_main_def read_options_def fatal_Ret outcome_simps split: option.splits if_splits)
  then obtain info s0 where info: "SpeechServerInfo (sm_files env) (sm_Read env) (sm_language env) (main_server opts) = Ret info"
    and start: "Start (sm_entries env) (sm_build env) (SpeechServer (sm_entries env) info) = Ret s0"
    and wait: "Wait (sm_wait env) s0 = Ret s" "ecode = EXIT_SUCCESS"
    by (auto simp: run_server_def outcome_simps)
  have ent: "entries_of (sm_entries env) (info_models info)"
  proof -
    obtain ms where ms: "if kaldi_models (main_server opts) = [] then ms = []
        else otraverse (sm_Read env) (Split (kaldi_models (main_server opts)) (CHR '','')) = Ret ms"
      "info_models info = map_of (map (\<lambda>m. (generic_id (sm_language env m), m)) ms)"
      using info_models_loaded [OF info] by blast
    show ?thesis unfolding ms(2)
      by (rule assms(3)) (rule ms(1) [unfolded main_settings [OF assms(1) opts]])
  qed
  obtain v ms where v: "services s0 = [Google_cloud_proxy 1, Speech_service v]"
    "if kaldi_models (main_server opts) = [] then ms = []
     else otraverse (sm_Read env) (Split (kaldi_models (main_server opts)) (CHR '','')) = Ret ms"
    "service_models v = map_of (map (\<lambda>m. (generic_id (sm_language env m), m)) ms)"
    using Start_serves [OF info ent start] by blast
  obtain creds where "rpc_server s0 = sm_build env (listen_address (main_server opts)) creds (services s0)"
    using Start_builds [OF info start] by blast
  moreover obtain r where "rpc_server s0 = Some r" "s = s0\<lparr>rpc_server := Some (sm_wait env r)\<rparr>"
    using wait(1) by (auto simp: Wait_def call_server_def split: option.splits)
  ultimately have "sm_build env (listen_address (main_server opts)) creds (services s) = Some r"
      "rpc_server s = Some (sm_wait env r)" "services s = services s0"
    by simp_all
  with v wait(2) show ?thesis
    unfolding main_settings [OF assms(1) opts]
    by (intro conjI exI [of _ v] exI [of _ ms] exI [of _ creds] exI [of _ r]) simp_all
qed

definition example_env :: "(string \<times> string, unit) server_env" where
  "example_env = \<lparr>sm_parse = \<lambda>_. Ret (Settings [(''kaldi-models'', Str_value ''a,b'')] []), sm_files = \<lambda>_. None,
     sm_Read = \<lambda>path. Ret (''is'', path), sm_language = fst,
     sm_entries = \<lambda>m. if m = Map.empty then [] else [(generic_id ''is'', ''is'', ''a'')],
     sm_build = \<lambda>_ _ _. Some (), sm_wait = id\<rparr>"

definition start_logs :: log_state where
  "start_logs = \<lparr>kaldi_verbose = 0, grpc_verbosity = GPR_INFO, av_level = AV_LOG_INFO, logger_level = ConvertLogLevel KInfo,
     kaldi_handler = False, grpc_handler = False, av_handler = False\<rparr>"

theorem server_main_serves_witness:
  "\<exists>s v. server_main example_env [] () start_logs [] = Ret (EXIT_SUCCESS, Some s) \<and>
     services s = [Google_cloud_proxy 1, Speech_service v] \<and>
     service_models v (generic_id ''is'') = Some (''is'', ''a'')"
proof -
  have split: "Split ''a,b'' (CHR '','') = [''a'', ''b'']" by code_simp
  have paths: "setting [(''kaldi-models'', Str_value ''a,b'')] ''kaldi-models'' [] = ''a,b''"
    by (simp add: setting_def)
  have table: "option_table ([] :: unit opt list)" by (simp add: option_table_def)
  let ?opt = "field_opt main_server main_server_update (str_opt ''kaldi-models'' kaldi_models kaldi_models_update)"
  have "?opt \<in> set (Main_Register ([] :: unit opt list))" "opt_name ?opt = ''kaldi-models''"
    by (simp_all add: Main_Register_def Server_Register_def field_opt_def str_opt_def)
  then have find: "find_opt (Main_Register ([] :: unit opt list)) ''kaldi-models'' = Some ?opt"
    by (simp only: option_table.find_iff [OF main_table [OF table]] simp_thms)
  have read: "read_options (Main_Register []) (sm_parse example_env) [] (main_defaults ()) =
      Ret (Some (main_defaults ()\<lparr>main_server := example_options\<rparr>, []))"
    by (simp add: read_options_def find field_opt_def str_opt_def main_defaults_def example_options_def example_env_def)
  have log: "\<exists>l. SetLogLevel_string ''INFO'' start_logs = Ret l"
    by (simp add: SetLogLevel_string_def LogLevelFromString_def)
  have info: "SpeechServerInfo (sm_files example_env) (sm_Read example_env) (sm_language example_env) example_options =
      Ret \<lparr>options = example_options, tls_server_cert = [], tls_server_key = [], tls_ca_cert = [],
        info_models = [generic_id ''is'' \<mapsto> (''is'', ''a'')]\<rparr>"
    by (simp add: SpeechServerInfo_def example_options_def server_option_defaults_def split emplace_def example_env_def)
  obtain s where s: "run_server example_env example_options = Ret (EXIT_SUCCESS, Some s)"
    unfolding run_server_def info
    by (simp add: Start_def SpeechServer_def CreateSpeechServerCredentials_def Let_def SpeechServer_RegisterModel_def
        Wait_def call_server_def example_env_def example_options_def server_option_defaults_def)
  then have main: "server_main example_env [] () start_logs [] = Ret (EXIT_SUCCESS, Some s)"
    unfolding server_main_def read using log by (auto simp: main_defaults_def)
  show ?thesis
    using server_main_serves [OF table _ _ main, of "[(''kaldi-models'', Str_value ''a,b'')]"] main
    by (auto simp: example_env_def paths split entries_of_def)
qed

end
