(* ===== verification/Speaker_Tags.thy ===== *)
theory Speaker_Tags
  imports Recognize_Service
begin

text \<open>
  Who speaks each word of a unary call: the diarizer of \<open>src/diarization.cc\<close> hears the same samples as
  the recognizer, and \<open>src/api/services.cc\<close> tags the words of the best transcript with its decisions.
\<close>

section \<open>What the diarizer hears\<close>

definition heard :: "'f online_features \<Rightarrow> rat \<Rightarrow> waveform list \<Rightarrow> 'f \<Rightarrow> 'f" where
  "heard lib rate cs f = feature_InputFinished lib (foldl (\<lambda>f c. feature_AcceptWaveform lib rate c f) f cs)"

lemma consume_hears:
  assumes "consume_all (decode_chunk env model rate) cs (r, Some (x, f)) = Ret st" "\<forall>c \<in> set cs. c \<noteq> []"
  shows "\<exists>r'. st = (r', Some (x, foldl (\<lambda>f c. feature_AcceptWaveform (env_features env x) (of_int rate) c f) f cs))"
  using assms
proof (induction cs arbitrary: r f)
  case (Cons c cs)
  then show ?case
    by (auto simp: decode_chunk_def diarizer_AcceptWaveform_def outcome_simps)
qed auto

section \<open>What the diarizer decides\<close>

lemma ScorePlda_square:
  assumes "ScorePlda lin pl plda whitening centering ivectors target = Ret scores"
    and "\<And>a b. length (lin_AddMatMat_trans lin a b) = length a"
  shows "length scores = length ivectors"
proof -
  obtain transformed pca plda' m' where t: "otraverse (TransformVec lin whitening)
      (IvectorSubtractGlobalMean lin centering ivectors) = Ret transformed"
    and pm: "(case pca of Some pca_transform \<Rightarrow>
          omap (\<lambda>m. (ApplyTransform pl pca_transform plda, m))
            (ApplyPca lin (IvectorNormalizeLength lin True True transformed) pca_transform)
        | None \<Rightarrow> Ret (plda, IvectorNormalizeLength lin True True transformed)) = Ret (plda', m')"
    and scores: "length scores = length m'"
    using assms(1) by (auto simp: ScorePlda_def Let_def outcome_simps TransformIvectors_def split: if_splits)
  have "length m' = length transformed"
    using pm assms(2) by (auto simp: ApplyPca_def outcome_simps IvectorNormalizeLength_def split: option.splits if_splits)
  then show ?thesis
    using otraverse_length [OF t] scores by (simp add: IvectorSubtractGlobalMean_def)
qed

lemma diarization_decided:
  assumes "ComputeXvectorDiarization lib info init feats n = Ret decisions"
    and "\<And>a b. length (lin_AddMatMat_trans (dia_linear lib) a b) = length a"
    and "\<And>scores n m q. length (AgglomerativeCluster lib scores n m q) = length scores"
  shows "\<exists>ids ivs. SegmentByVad (ApproxEqual lib) init (ComputeVadEnergy lib feats) default_silence_proportion = Ret ivs \<and>
    ivs \<noteq> [] \<and> length ids = length ivs \<and> decisions = spoken ids ivs"
proof -
  obtain ivs xs where ivs: "SegmentByVad (ApproxEqual lib) init (ComputeVadEnergy lib feats) default_silence_proportion = Ret ivs"
    and xs: "otraverse (\<lambda>(s, e). Compute (info_nnet info) (take (e - s) (drop s feats))) ivs = Ret xs"
    using assms(1) unfolding ComputeXvectorDiarization_def Let_def by (auto simp: outcome_simps)
  have len: "length xs = length ivs" by (rule otraverse_length [OF xs])
  show ?thesis
  proof (cases "length ivs < 2")
    case True
    then obtain s e where "ivs = [(s, e)]"
      using assms(1) ivs xs unfolding ComputeXvectorDiarization_def Let_def
      by (cases ivs; cases "tl ivs") auto
    then show ?thesis
      using assms(1) ivs xs unfolding ComputeXvectorDiarization_def Let_def
      by (intro exI [of _ "[1]"] exI [of _ ivs]) (auto simp: spoken_def)
  next
    case False
    obtain scores where scores: "ScorePlda (dia_linear lib) (dia_plda lib) (info_plda info) (info_whitening info)
        (info_centering info) xs default_target_energy = Ret scores"
      using assms(1) ivs xs False unfolding ComputeXvectorDiarization_def Let_def by (auto simp: outcome_simps)
    then have rows: "length scores = length ivs" using ScorePlda_square assms(2) len by metis
    define ids where "ids = (if n \<noteq> 0 \<and> f64 (1 / of_int n) \<le> max_spk_fraction \<and> max_spk_fraction \<le> 1
      then AgglomerativeCluster lib (map (map (\<lambda>x. - x)) scores) n first_pass_max_utterances max_spk_fraction
      else AgglomerativeCluster lib (map (map (\<lambda>x. - x)) scores) n first_pass_max_utterances 1)"
    have ids: "length ids = length ivs" using assms(3) rows by (simp add: ids_def)
    have "Ret decisions = otraverse (\<lambda>idx. omap (\<lambda>(s, e). \<lparr>spk_id = ids ! idx, start_frame = s, end_frame = e\<rparr>)
        (idx_vec ivs idx)) [0..<length ids]"
      unfolding assms(1) [symmetric] ComputeXvectorDiarization_def Let_def ivs obind.simps xs if_not_P [OF False] scores
        ids_def ..
    then have "decisions = spoken ids ivs" using otraverse_segments [OF ids] by simp
    then show ?thesis using ivs ids False by (intro exI [of _ ids] exI [of _ ivs]) auto
  qed
qed

section \<open>Tagged words\<close>

text \<open>The speaker of the first segment that a time falls into, or 0; frames are \<open>shift\<close> ms apart.\<close>

definition speaker_at :: "int \<Rightarrow> diarization_segment list \<Rightarrow> int \<Rightarrow> int" where
  "speaker_at shift decisions t =
     (case List.find (\<lambda>seg. int (start_frame seg) * shift \<le> t \<and> t < int (end_frame seg) * shift) decisions of
        None \<Rightarrow> 0 | Some seg \<Rightarrow> spk_id seg)"

lemma respond_tags:
  assumes "respond env model config decisions alis ts = Ret (st, resp)" "code st = OK"
    and "enable_word_time_offsets config" "diarization_info model = Some x"
    and "decisions \<noteq> []" "env_frame_shift_ms env x = of_int shift" "0 \<le> shift"
    and "\<forall>seg \<in> set decisions. \<forall>n \<in> {start_frame seg, end_frame seg}. int n * shift < 2 ^ 24 \<and> n < 2 ^ 24"
    and "\<forall>ali \<in> set alis. int32_range (aw_start_time ali)"
  shows "alis \<noteq> [] \<and> ts \<noteq> [] \<and>
    resp = [\<lparr>transcript = hd ts, words = map (\<lambda>ali. (Convert_word ali)\<lparr>speaker_tag :=
        speaker_at shift decisions (aw_start_time ali)\<rparr>) alis\<rparr> # map plain_alternative (tl ts)]"
proof -
  have bad: "code something_bad \<noteq> OK" by (simp add: something_bad_def error_status_def)
  note tags = TagSpeaker_tags [OF assms(5,7-9), of "hd ts", folded speaker_at_def]
  show ?thesis
    using assms(1-4) bad tags unfolding assms(6) [symmetric] respond_def Let_def
    by (auto simp: outcome_simps drop_Suc hd_conv_nth split: if_split_asm)
qed


section \<open>An example\<close>

text \<open>Every sample is a frame of 70 ms: the words at 0 and 149 ms start in the frames 0 and 2.\<close>

definition sample_features :: "matrix online_features" where
  "sample_features = \<lparr>feature_AcceptWaveform = \<lambda>_ wave f. f @ map (\<lambda>x. [x]) wave, feature_InputFinished = \<lambda>f. f,
     NumFramesReady = length, GetFrame = \<lambda>f i. f ! i, FrameShiftInSeconds = \<lambda>_. 7 / 100\<rparr>"

definition speaker_env ::
    "(unit, unit, unit, unit, int, int, unit, int list, session, matrix, unit) recognize_env" where
  "speaker_env = \<lparr>env_decoder = toy_decoder, env_text = toy_text, env_resampler = \<lambda>_ _ _ _ wave _. wave,
     env_coded_bytes = \<lambda>_ _ _. None, env_av = scripted, env_strerror = \<lambda>_. [], env_url = some_session,
     env_sync = \<lambda>_ n. n, env_diarization = toy_lib, env_info = \<lambda>_. toy_info, env_in_segment = Ret False,
     env_features = \<lambda>_. sample_features, env_new_features = \<lambda>_. [], env_frame_shift_ms = \<lambda>_. 70\<rparr>"

definition speaker_model :: "(unit, unit, unit, unit) kaldi_model" where
  "speaker_model = toy_model\<lparr>diarization_info := Some ()\<rparr>"

definition speaker_models :: "(unit, unit, unit, unit) kaldi_model model_map" where
  "speaker_models = (\<lambda>mid. if mid = generic_id ''is-IS'' then Some speaker_model else None)"

definition speaker_config :: recognition_config where
  "speaker_config = toy_config\<lparr>enable_word_time_offsets := True,
     diarization_config := \<lparr>enable_speaker_diarization = True, min_speaker_count = 2\<rparr>\<rparr>"

definition speaker_request :: recognize_request where
  "speaker_request = \<lparr>request_config = Some speaker_config,
     request_audio = Some (Content (concat (map bytes_of_sample [1, 0, 7])))\<rparr>"

abbreviation first_word :: aligned_word where
  "first_word \<equiv> \<lparr>aw_start_time = 0, aw_duration = 149, aw_symbol = ''sem''\<rparr>"

abbreviation second_word :: aligned_word where
  "second_word \<equiv> \<lparr>aw_start_time = 149, aw_duration = 149, aw_symbol = ''betur''\<rparr>"

lemma speaker_request_valid: "ValidateRecognize speaker_request (Some speaker_models) = []"
  by (simp add: ValidateRecognize_def speaker_request_def speaker_config_def toy_config_def ValidateConfig_def
      encoding_errors_def language_errors_def speaker_models_def in_range_def default_config_def audio_errors_def
      bytes_of_sample_def)

lemma speaker_best: "GetResults toy_decoder toy_text speaker_model 1 True fin False r =
   Ret ((True, [first_word, second_word], [''sem betur'']), r)"
proof -
  have "GetBestPath toy_decoder = (\<lambda>_ _. [1, 2])" by (simp add: toy_decoder_def)
  moreover have "GetWordAlignments toy_decoder speaker_model True [1, 2] = Ret (True, [first_word, second_word])"
    by (simp add: GetWordAlignments_def toy_decoder_def toy_model_def speaker_model_def find_symbol_def idx_vec_def
        upt_rec toy_times)
  ultimately show ?thesis
    by (simp add: GetResults_def format_best_def speaker_model_def toy_model_fields)
qed

lemma speaker_consume:
  "\<exists>r'. consume_all (decode_chunk speaker_env speaker_model rate) cs (r, Some ((), f)) =
     Ret (r', Some ((), f @ map (\<lambda>x. [x]) (concat cs)))"
proof (induction cs arbitrary: r f)
  case (Cons c cs)
  obtain r1 where "recognizer_Decode toy_decoder speaker_model c (cs = []) r = Ret r1"
    by (simp add: recognizer_Decode_def toy_decoder_def Let_def)
  then obtain r2 where "decode_chunk speaker_env speaker_model rate c (cs = []) (r, Some ((), f)) =
      Ret (r2, Some ((), f @ map (\<lambda>x. [x]) c))"
    by (cases "c = []") (simp_all add: decode_chunk_def speaker_env_def diarizer_AcceptWaveform_def sample_features_def)
  then show ?case using Cons.IH [of r2 "f @ map (\<lambda>x. [x]) c"] by simp
qed simp

lemma speaker_segments:
  "SegmentByVad (=) (Ret False) (ComputeVadEnergy toy_lib [[1], [0], [7]]) default_silence_proportion =
     Ret [(0, 1), (2, 3)]"
  by code_simp

lemma speaker_call:
  "\<exists>resp. Recognize speaker_env 10 speaker_models speaker_request = Some (Ret (status_OK, resp))"
proof -
  have request: "request_config speaker_request = Some speaker_config"
      "request_audio speaker_request = Some (Content (concat (map bytes_of_sample [1, 0, 7])))"
      "encoding speaker_config = LINEAR16"
      "speaker_models (generic_id (language_code speaker_config)) = Some speaker_model"
    by (simp_all add: speaker_request_def speaker_config_def toy_config_def speaker_models_def default_config_def)
  have samples: "linear16 (concat (map bytes_of_sample [1, 0, 7])) = [1, 0, 7]"
    using linear16_bytes_of_samples [of "[1, 0, 7]"] by simp
  obtain cs where cs: "concat cs = [1, 0, 7]"
    and call: "Recognize speaker_env 10 speaker_models speaker_request = Some (catch_recognize (obind
      (consume_all (decode_chunk speaker_env speaker_model (sample_rate_hertz speaker_config)) cs
         (Recognizer_fresh (env_decoder speaker_env) speaker_model, new_diarizer speaker_env speaker_model speaker_config))
      (finish_recognize speaker_env speaker_model speaker_config)))"
    using Recognize_content_run [OF speaker_request_valid request(1,3,2) _ request(4), of 10 speaker_env]
    unfolding samples by (auto simp: bytes_of_sample_def simp del: append.simps)
  have dia: "new_diarizer speaker_env speaker_model speaker_config = Some ((), [])"
    by (simp add: new_diarizer_def speaker_model_def speaker_config_def speaker_env_def)
  obtain q where q: "consume_all (decode_chunk speaker_env speaker_model (sample_rate_hertz speaker_config)) cs
      (Recognizer_fresh (env_decoder speaker_env) speaker_model, Some ((), [])) = Ret (q, Some ((), [[1], [0], [7]]))"
    using speaker_consume [of "sample_rate_hertz speaker_config" cs
        "Recognizer_fresh (env_decoder speaker_env) speaker_model" "[]"] unfolding cs by auto
  have features: "all_frames sample_features [[1], [0], [7]] = [[1], [0], [7]]"
    by (simp add: all_frames_def sample_features_def upt_rec)
  have target: "target_frames 2 default_silence_proportion = Ret 2" by code_simp
  have vad: "ComputeVadEnergy toy_lib [[1], [0], [7]] = [1, 0, 1]" "approx_ok (ApproxEqual toy_lib)"
    by (simp_all add: toy_lib_def approx_ok_def)
  have nnet: "chunk_size (info_nnet toy_info) = - 1 \<or> 0 < chunk_size (info_nnet toy_info)"
    by (simp add: toy_info_def sum_nnet_def)
  obtain ids ivs where ivs: "ivs \<noteq> []" "length ids = length ivs"
      "SegmentByVad (=) (Ret False) [1, 0, 1] default_silence_proportion = Ret ivs"
      "ComputeXvectorDiarization toy_lib toy_info (Ret False) [[1], [0], [7]] 2 = Ret (spoken ids ivs)"
    using diarization_run [where feats = "[[1], [0], [7]]" and num_speakers = 2 and init = "Ret False" and t = 2,
        OF vad(2) toy_scores _ _ _ _ _ nnet] target unfolding vad(1)
    by (auto simp: frames_known_def voiced_frames_def toy_lib_def)
  have segments: "ivs = [(0, 1), (2, 3)]" using ivs(3) speaker_segments unfolding vad(1) by simp
  have decided: "diarize speaker_env speaker_config (Some ((), [[1], [0], [7]])) = Ret (spoken ids ivs)"
    using ivs(4) features
    by (simp add: diarize_def diarizer_InputFinished_def diarizer_Compute_def speaker_env_def speaker_config_def sample_features_def)
  obtain a b where "ids = [a, b]"
    using ivs(2) unfolding segments by (cases ids; cases "tl ids"; cases "tl (tl ids)") auto
  then have two: "spoken ids ivs = [\<lparr>spk_id = a, start_frame = 0, end_frame = 1\<rparr>, \<lparr>spk_id = b, start_frame = 2, end_frame = 3\<rparr>]"
    unfolding segments by (simp add: spoken_def)
  obtain alt where tags: "TagSpeaker 70 (spoken ids ivs)
      \<lparr>transcript = ''sem betur'', words = map Convert_word [first_word, second_word]\<rparr> = Ret alt"
    using TagSpeaker_tags [of "spoken ids ivs" 70 "[first_word, second_word]" "''sem betur''"]
    unfolding two by (simp add: int32_range_def)
  have results: "GetResults (env_decoder speaker_env) (env_text speaker_env) speaker_model (the_alternatives speaker_config) True True
      (enable_automatic_punctuation speaker_config) (Finalize (env_decoder speaker_env) q) =
      Ret ((True, [first_word, second_word], [''sem betur'']), q)"
    by (simp add: the_alternatives_def speaker_env_def speaker_config_def toy_config_def default_config_def speaker_best toy_frames)
  have "respond speaker_env speaker_model speaker_config (spoken ids ivs) [first_word, second_word] [''sem betur''] =
      Ret (status_OK, [[alt]])"
    using tags by (simp add: respond_def speaker_config_def speaker_model_def speaker_env_def)
  then have "finish_recognize speaker_env speaker_model speaker_config (q, Some ((), [[1], [0], [7]])) =
      Ret (status_OK, [[alt]])"
    using decided results by (simp add: finish_recognize_def)
  then show ?thesis unfolding call dia q by auto
qed


end
