(* ===== verification/Coded_Content.thy ===== *)
theory Coded_Content
  imports Recognize_Service
begin

text \<open>
  A unary call with MP3 or FLAC content, from the bytes of the request to the samples the recognizer
  decodes: the handler of \<open>src/api/services.cc\<close>, the content source of \<open>src/audio/audio-source.cc\<close> and the
  decoder of \<open>src/audio/ffmpeg-wrapper.h\<close> put together.
\<close>

lemma open_coded_content:
  fixes env :: "('k, 'a, 'x, 't, 'd, 'f, 'w, 'l, 'v, 'o, 'p) recognize_env"
  assumes "encoding config \<in> {MP3, FLAC}"
    and "env_coded_bytes env = CodedBytesToWaveVector lib av garbage av_fuel"
  shows "open_audio env config (Some (Content bytes)) =
    map_option (omap (\<lambda>wave. Content_source \<lparr>content_seen = 0, content_data = wave, content_rate = sample_rate_hertz config\<rparr>) \<circ>
        catch_av_library)
      (CodedBytesToWaveVector lib av garbage av_fuel (if encoding config = MP3 then AE_MP3 else AE_FLAC) bytes
         (sample_rate_hertz config))"
proof -
  have comp: "omap f (omap g r) = omap (\<lambda>x. f (g x)) r" for f :: "content_source \<Rightarrow> 'v audio_source" and g r
    by (cases r) simp_all
  show ?thesis
    using assms
    by (auto simp: open_audio_def Convert_encoding_def ContentAudioSource_def option.map_comp comp_def comp)
qed


section \<open>An example\<close>

definition mp3_request :: recognize_request where
  "mp3_request = \<lparr>request_config = Some (toy_config\<lparr>encoding := MP3\<rparr>), request_audio = Some (Content ''ID3'')\<rparr>"

definition mp3_env ::
    "(unit, unit, unit, unit, int, int, unit, int list, session, unit, unit) recognize_env" where
  "mp3_env = toy_recognize_env\<lparr>env_coded_bytes :=
     CodedBytesToWaveVector scripted (\<lambda>_. some_session) (replicate (kBufferSize + 64) CHR ''x'') 5\<rparr>"


end
