(* ===== verification/Diarizer_Model.thy ===== *)
theory Diarizer_Model
  imports Diarization Options
begin

text \<open>
  Loading what the diarizer needs: \<open>ReadInferenceNnet\<close>, the constructor of \<open>XvectorNnet\<close> and its network
  computation, and \<open>XvectorDiarizationDecoderInfo\<close> (\<open>src/diarization.h\<close>, \<open>src/diarization.cc\<close>). Kaldi's
  readers and its network (\<open>'n\<close>) are the record \<open>nnet_lib\<close>; a reader that fails throws.
\<close>

record computation_request =
  need_model_derivative :: bool
  store_component_stats :: bool
  request_input :: "string \<times> int \<times> int"
  request_output :: "string \<times> nat \<times> bool"

text \<open>A request with one output index gives a matrix of one row; \<open>run_computation\<close> gives this row.\<close>

record ('n, 'p) nnet_lib =
  read_nnet :: "string \<Rightarrow> 'n outcome"
  read_input :: "string \<Rightarrow> string outcome"
  ReadConfig :: "string \<Rightarrow> 'n \<Rightarrow> 'n outcome"
  SetBatchnormTestMode :: "bool \<Rightarrow> 'n \<Rightarrow> 'n"
  SetDropoutTestMode :: "bool \<Rightarrow> 'n \<Rightarrow> 'n"
  CollapseModel :: "'n \<Rightarrow> 'n"
  OutputDim :: "string \<Rightarrow> 'n \<Rightarrow> nat"
  run_computation :: "'n \<Rightarrow> computation_request \<Rightarrow> matrix \<Rightarrow> xvector"
  vector_AddVec :: "rat \<Rightarrow> xvector \<Rightarrow> xvector \<Rightarrow> xvector"
  vector_Scale :: "rat \<Rightarrow> xvector \<Rightarrow> xvector"
  read_plda :: "string \<Rightarrow> 'p outcome"
  read_vector :: "string \<Rightarrow> xvector outcome"
  read_matrix :: "string \<Rightarrow> matrix outcome"

definition ReadInferenceNnet :: "('n, 'p) nnet_lib \<Rightarrow> string \<Rightarrow> string \<Rightarrow> 'n outcome" where
  "ReadInferenceNnet nl filename config_filename =
     obind (read_nnet nl filename) (\<lambda>nnet.
     obind (read_input nl config_filename) (\<lambda>stream.
     omap (\<lambda>nnet. CollapseModel nl (SetDropoutTestMode nl True (SetBatchnormTestMode nl True nnet)))
       (ReadConfig nl stream nnet)))"

definition nnet_request :: "matrix \<Rightarrow> computation_request" where
  "nnet_request features = \<lparr>need_model_derivative = False, store_component_stats = False,
     request_input = (''input'', 0, int (length features)), request_output = (''output'', 1, False)\<rparr>"

definition run_nnet :: "('n, 'p) nnet_lib \<Rightarrow> 'n \<Rightarrow> matrix \<Rightarrow> xvector" where
  "run_nnet nl nnet features = run_computation nl nnet (nnet_request features) features"

definition XvectorNnet :: "('n, 'p) nnet_lib \<Rightarrow> 'k xvector_options \<Rightarrow> xvector_nnet outcome" where
  "XvectorNnet nl opts =
     omap (\<lambda>nnet. \<lparr>RunNnetComputation = run_nnet nl nnet, AddVec = vector_AddVec nl, Scale = vector_Scale nl,
         xvector_dim = OutputDim nl ''output'' nnet, chunk_size = chunk_size_opt opts,
         min_chunk_size = min_chunk_size_opt opts\<rparr>)
       (ReadInferenceNnet nl (nnet_rxfilename opts) (extract_config_rxfilename opts))"

definition DiarizationDecoderInfo ::
    "('n, 'p) nnet_lib \<Rightarrow> 'k diarization_options \<Rightarrow> 'p diarizer_info outcome" where
  "DiarizationDecoderInfo nl opts =
     obind (XvectorNnet nl (xvector_nnet_opts opts)) (\<lambda>nnet.
     obind (read_plda nl (plda_filename opts)) (\<lambda>plda.
     obind (read_vector nl (centering_vector_filename opts)) (\<lambda>centering_vector.
     omap (\<lambda>whitening_matrix. \<lparr>info_nnet = nnet, info_plda = plda, info_centering = centering_vector,
           info_whitening = whitening_matrix\<rparr>)
       (read_matrix nl (whitening_matrix_filename opts)))))"

section \<open>What a loaded model has\<close>

text \<open>
  A model that loads has the network of its file with the configuration applied, in test mode, and the
  chunk sizes of its options; it scores pairs when Kaldi keeps dimensions and the whitening matrix fits
  the output of the network.
\<close>

lemma DiarizationDecoderInfo_loaded:
  assumes "DiarizationDecoderInfo nl opts = Ret info"
  shows "\<exists>nnet. ReadInferenceNnet nl (nnet_rxfilename (xvector_nnet_opts opts))
        (extract_config_rxfilename (xvector_nnet_opts opts)) = Ret nnet \<and>
      RunNnetComputation (info_nnet info) = run_nnet nl nnet \<and>
      xvector_dim (info_nnet info) = OutputDim nl ''output'' nnet \<and>
      chunk_size (info_nnet info) = chunk_size_opt (xvector_nnet_opts opts) \<and>
      read_plda nl (plda_filename opts) = Ret (info_plda info) \<and>
      read_matrix nl (whitening_matrix_filename opts) = Ret (info_whitening info)"
  using assms by (auto simp: DiarizationDecoderInfo_def XvectorNnet_def outcome_simps)

lemma loaded_scores_pairs:
  assumes "DiarizationDecoderInfo nl opts = Ret info"
    and "\<And>w x acc. length (vector_AddVec nl w x acc) = length acc" "\<And>a x. length (vector_Scale nl a x) = length x"
    and "whitens info" "keeps_dimensions (dia_linear lib)" "decomposes (dia_linear lib) default_target_energy"
    and "\<And>scores n m q. length (AgglomerativeCluster lib scores n m q) = length scores"
  shows "scores_pairs lib info"
  using assms by (auto simp: scores_pairs_def nnet_dimensions_def DiarizationDecoderInfo_def XvectorNnet_def outcome_simps)

end
